(* ===== verification/Prelude.thy ===== *)
theory Prelude
  imports Complex_Main "HOL-Library.Word"
begin

text \<open>
  Shared vocabulary of the florabot development (\<open>src/bot_adb.py\<close>).
  The program is Python over numpy arrays; this theory fixes how the primitives it
  relies on are read in HOL:
  \<^item> \<open>py_error\<close>: the exceptions the modelled code can raise;
  \<^item> \<open>py_int\<close>: \<open>int(x)\<close> on a float, which truncates towards zero;
  \<^item> \<open>py_floordiv\<close>: \<open>a // b\<close> on ints (floor division, \<open>ZeroDivisionError\<close> on 0);
  \<^item> \<open>py_range\<close>, \<open>py_slice_idx\<close>, \<open>py_slice\<close>, \<open>py_index\<close>, \<open>py_remove\<close>: \<open>range\<close>,
    slicing, subscripting (negative indices count from the end) and \<open>list.remove\<close>;
  \<^item> \<open>action\<close>: the two device calls of the program, \<open>device.drag\<close> and \<open>device.touch\<close>,
    recorded in the order they are issued;
  \<^item> \<open>rgb\<close>: one pixel of the screenshot, three \<open>uint8\<close> channels as \<open>8 word\<close>s.
  Python ints are unbounded and are modelled as \<open>int\<close>; Python floats are modelled as
  \<open>real\<close> (Coordinates and Similarity say why this is exact where it matters).
\<close>

named_theorems py_simps "evaluation rules of the Python and numpy primitives"

datatype py_error = IndexError | ValueError | ZeroDivisionError

type_synonym tile = "int \<times> int"
type_synonym point = "int \<times> int"
type_synonym rgb = "8 word \<times> 8 word \<times> 8 word"

datatype action = Drag point point | Touch point

definition py_int :: "real \<Rightarrow> int" where
  "py_int r = (if 0 \<le> r then \<lfloor>r\<rfloor> else \<lceil>r\<rceil>)"

definition py_floordiv :: "int \<Rightarrow> int \<Rightarrow> py_error + int" where
  "py_floordiv a b = (if b = 0 then Inl ZeroDivisionError else Inr (a div b))"

definition py_range :: "int \<Rightarrow> int \<Rightarrow> int list" where
  "py_range a b = [a..b - 1]"

text \<open>A slice bound \<open>i\<close> of a sequence of length \<open>n\<close>, normalised as CPython does:
  a negative bound counts from the end and is clipped at 0, a large one is clipped at \<open>n\<close>.\<close>

definition py_slice_bound :: "nat \<Rightarrow> int \<Rightarrow> nat" where
  "py_slice_bound n i = (if i < 0 then nat (max 0 (int n + i)) else min (nat i) n)"

definition py_slice_idx :: "nat \<Rightarrow> int \<Rightarrow> int \<Rightarrow> nat list" where
  "py_slice_idx n lo hi = [py_slice_bound n lo..<py_slice_bound n hi]"

definition py_slice :: "'a list \<Rightarrow> int \<Rightarrow> int \<Rightarrow> 'a list" where
  "py_slice xs lo hi = map ((!) xs) (py_slice_idx (length xs) lo hi)"

definition py_index :: "nat \<Rightarrow> int \<Rightarrow> py_error + nat" where
  "py_index n i =
     (if 0 \<le> i \<and> i < int n then Inr (nat i)
      else if - int n \<le> i \<and> i < 0 then Inr (nat (int n + i))
      else Inl IndexError)"

definition py_remove :: "'a \<Rightarrow> 'a list \<Rightarrow> py_error + 'a list" where
  "py_remove x xs = (if x \<in> set xs then Inr (remove1 x xs) else Inl ValueError)"

subsection \<open>Evaluation rules\<close>

lemma py_int_nonneg [py_simps]: "0 \<le> r \<Longrightarrow> py_int r = \<lfloor>r\<rfloor>"
  by (simp add: py_int_def)

lemma py_floordiv_nonzero [py_simps]: "b \<noteq> 0 \<Longrightarrow> py_floordiv a b = Inr (a div b)"
  by (simp add: py_floordiv_def)

lemma py_slice_bound_in [py_simps]:
  "0 \<le> i \<Longrightarrow> i \<le> int n \<Longrightarrow> py_slice_bound n i = nat i"
  by (simp add: py_slice_bound_def)

lemma py_slice_idx_in [py_simps]:
  "0 \<le> lo \<Longrightarrow> hi \<le> int n \<Longrightarrow> lo \<le> hi \<Longrightarrow> py_slice_idx n lo hi = [nat lo..<nat hi]"
  by (simp add: py_slice_idx_def py_slice_bound_in)

lemma length_py_slice_idx_in:
  "0 \<le> lo \<Longrightarrow> hi \<le> int n \<Longrightarrow> lo \<le> hi \<Longrightarrow> int (length (py_slice_idx n lo hi)) = hi - lo"
  by (simp add: py_slice_idx_in)

lemma py_slice_idx_bound: "k \<in> set (py_slice_idx n lo hi) \<Longrightarrow> k < n"
  by (auto simp: py_slice_idx_def py_slice_bound_def split: if_splits)

lemma py_slice_nonneg [py_simps]:
  "0 \<le> lo \<Longrightarrow> lo \<le> hi \<Longrightarrow> py_slice xs lo hi = take (nat hi - nat lo) (drop (nat lo) xs)"
proof -
  assume lo: "0 \<le> lo" and hi: "lo \<le> hi"
  have "py_slice_idx (length xs) lo hi = [min (nat lo) (length xs)..<min (nat hi) (length xs)]"
    using lo hi by (simp add: py_slice_idx_def py_slice_bound_def)
  then show ?thesis
    by (auto simp: py_slice_def min_def intro!: nth_equalityI) linarith
qed

lemma py_index_in [py_simps]: "0 \<le> i \<Longrightarrow> i < int n \<Longrightarrow> py_index n i = Inr (nat i)"
  by (simp add: py_index_def)

lemma py_index_Inr: "py_index n i = Inr k \<Longrightarrow> k < n"
  by (auto simp: py_index_def split: if_splits)

lemma py_index_nonneg_Inl: "0 \<le> i \<Longrightarrow> py_index n i = Inl e \<longleftrightarrow> int n \<le> i \<and> e = IndexError"
  by (auto simp: py_index_def)

lemma py_remove_mem [py_simps]: "x \<in> set xs \<Longrightarrow> py_remove x xs = Inr (remove1 x xs)"
  by (simp add: py_remove_def)

lemma py_remove_length:
  assumes "py_remove x xs = Inr ys"
  shows "length ys < length xs"
proof -
  from assms have "x \<in> set xs" and "ys = remove1 x xs"
    by (auto simp: py_remove_def split: if_splits)
  then show ?thesis
    using length_pos_if_in_set [of x xs] by (simp add: length_remove1)
qed

lemma py_range_set [simp]: "set (py_range a b) = {a..<b}"
  by (auto simp: py_range_def)

lemma distinct_py_range [simp]: "distinct (py_range a b)"
  by (simp add: py_range_def)

lemma length_py_range [simp]: "length (py_range a b) = nat (b - a)"
  by (simp add: py_range_def)

lemma py_range_rec: "py_range a b = (if a < b then a # py_range (a + 1) b else [])"
  by (simp add: py_range_def upto_rec1)

end
