(* ===== verification/Coordinates.thy ===== *)
theory Coordinates
  imports Prelude
begin

text \<open>
  The coordinate mapper, \<open>Bot.index_to_pixel\<close> (\<open>src/bot_adb.py\<close>, lines 61--70): a grid
  position \<open>(i, j)\<close> (row, column) is mapped to the integer pixel centre
  \<open>x = int(444 + 115.25 j + 115.25 / 2)\<close>, \<open>y = int(205 + 115.333 i + 115.333 / 2)\<close>.
  The floats are read as exact reals. For \<open>x\<close> this is exact, since every constant is a
  dyadic fraction. For \<open>y\<close>, the exact value is \<open>(2626665 + 1153330 i) / 10000\<close>, whose
  numerator is odd, so it is never an integer and stays at least \<open>10\<^sup>-\<^sup>4\<close> away from
  one; the rounding error of a double on these magnitudes is far below that, so \<open>int()\<close>
  gives the same result as on the exact real.
  \<open>sample_rect\<close> is the set of pixel indices the slice
  \<open>img[y - offset : y + offset, x - offset : x + offset]\<close> of \<open>find_match\<close> reads.
\<close>

definition index_to_pixel :: "tile \<Rightarrow> point" where
  "index_to_pixel tile = (case tile of (i, j) \<Rightarrow>
     let x_offset = 444; y_offset = 205; tile_height = 115.333; tile_width = 115.25
     in (py_int (x_offset + tile_width * of_int j + tile_width / 2),
         py_int (y_offset + tile_height * of_int i + tile_height / 2)))"

definition sample_rect :: "int \<Rightarrow> tile \<Rightarrow> (int \<times> int) set" where
  "sample_rect offset tile = (case index_to_pixel tile of (x, y) \<Rightarrow>
     {y - offset..<y + offset} \<times> {x - offset..<x + offset})"

definition on_grid :: "tile \<Rightarrow> bool" where
  "on_grid tile \<longleftrightarrow> 0 \<le> fst tile \<and> 0 \<le> snd tile"

text \<open>The inverse reading of the grid geometry: the cell whose extent
  \<open>[205 + 115.333 i, 205 + 115.333 (i + 1))\<close> by \<open>[444 + 115.25 j, 444 + 115.25 (j + 1))\<close>
  contains a pixel, in exact integer arithmetic.\<close>

definition pixel_cell :: "point \<Rightarrow> tile" where
  "pixel_cell p = (case p of (x, y) \<Rightarrow> ((10000 * y - 2050000) div 1153330, (8 * x - 3552) div 922))"

subsection \<open>Closed form\<close>

lemma index_to_pixel_closed [py_simps]:
  assumes "0 \<le> i" and "0 \<le> j"
  shows "index_to_pixel (i, j) = ((4013 + 922 * j) div 8, (2626665 + 1153330 * i) div 10000)"
proof -
  have x: "(444::real) + 115.25 * of_int j + 115.25 / 2 = of_int (4013 + 922 * j) / of_int 8"
    by simp
  have y: "(205::real) + 115.333 * of_int i + 115.333 / 2
      = of_int (2626665 + 1153330 * i) / of_int 10000"
    by simp
  have "index_to_pixel (i, j) = (py_int (of_int (4013 + 922 * j) / of_int 8),
       py_int (of_int (2626665 + 1153330 * i) / of_int 10000))"
    unfolding index_to_pixel_def Let_def prod.case x y ..
  then show ?thesis using assms
    by (simp only: py_int_def floor_divide_of_int_eq) simp
qed

lemma index_to_pixel_on_grid:
  "on_grid t \<Longrightarrow> index_to_pixel t = ((4013 + 922 * snd t) div 8, (2626665 + 1153330 * fst t) div 10000)"
  by (cases t) (simp add: on_grid_def index_to_pixel_closed)

subsection \<open>Spacing of the pixel centres\<close>

lemma div_gap:
  fixes a d k m c :: int
  assumes "0 < c" and "c * k \<le> m" and "0 \<le> d"
  shows "a div c + k * d \<le> (a + m * d) div c"
proof -
  have "(c * k) * d \<le> m * d"
    using assms by (intro mult_right_mono) auto
  then have "a + (k * d) * c \<le> a + m * d"
    by (simp add: algebra_simps)
  then have "(a + (k * d) * c) div c \<le> (a + m * d) div c"
    using assms(1) by (rule zdiv_mono1)
  then show ?thesis
    using assms(1) by simp
qed

lemma pixel_x_gap:
  fixes j1 j2 :: int
  shows "0 \<le> j1 \<Longrightarrow> j1 \<le> j2 \<Longrightarrow>
     (4013 + 922 * j1) div 8 + 115 * (j2 - j1) \<le> (4013 + 922 * j2) div 8"
  using div_gap [where c = 8 and k = 115 and m = 922 and d = "j2 - j1" and a = "4013 + 922 * j1"] by (simp add: algebra_simps)

lemma pixel_y_gap:
  fixes i1 i2 :: int
  shows "0 \<le> i1 \<Longrightarrow> i1 \<le> i2 \<Longrightarrow>
     (2626665 + 1153330 * i1) div 10000 + 115 * (i2 - i1) \<le> (2626665 + 1153330 * i2) div 10000"
  using div_gap [where c = 10000 and k = 115 and m = 1153330 and d = "i2 - i1"
      and a = "2626665 + 1153330 * i1"] by (simp add: algebra_simps)

text \<open>Two distinct grid positions have pixel centres at least one cell (115 pixels) apart
  in the row or in the column direction.\<close>

lemma index_to_pixel_apart:
  assumes "on_grid t1" and "on_grid t2" and "t1 \<noteq> t2"
  shows "115 \<le> \<bar>fst (index_to_pixel t1) - fst (index_to_pixel t2)\<bar>
       \<or> 115 \<le> \<bar>snd (index_to_pixel t1) - snd (index_to_pixel t2)\<bar>"
proof -
  obtain i1 j1 i2 j2 where t: "t1 = (i1, j1)" "t2 = (i2, j2)" by fastforce
  with assms have nn: "0 \<le> i1" "0 \<le> j1" "0 \<le> i2" "0 \<le> j2" and ne: "i1 \<noteq> i2 \<or> j1 \<noteq> j2"
    by (auto simp: on_grid_def)
  show ?thesis
  proof (cases "j1 = j2")
    case False
    then have "j1 < j2 \<or> j2 < j1" by arith
    then have "115 \<le> \<bar>(4013 + 922 * j1) div 8 - (4013 + 922 * j2) div 8\<bar>"
      using pixel_x_gap [of j1 j2] pixel_x_gap [of j2 j1] nn by auto
    then show ?thesis using t nn by (simp add: index_to_pixel_closed)
  next
    case True
    with ne have "i1 < i2 \<or> i2 < i1" by arith
    then have "115 \<le> \<bar>(2626665 + 1153330 * i1) div 10000 - (2626665 + 1153330 * i2) div 10000\<bar>"
      using pixel_y_gap [of i1 i2] pixel_y_gap [of i2 i1] nn by auto
    then show ?thesis using t nn by (simp add: index_to_pixel_closed)
  qed
qed

lemma div_by_residue:
  fixes a b q :: int
  assumes "0 \<le> a - b * q" and "a - b * q < b"
  shows "a div b = q"
proof -
  have b: "b \<noteq> 0" using assms by linarith
  have "a div b = ((a - b * q) + q * b) div b" by (simp add: algebra_simps)
  also have "\<dots> = q + (a - b * q) div b" using b by (rule div_mult_self1)
  also have "(a - b * q) div b = 0" using assms by (simp add: zdiv_eq_0_iff)
  finally show ?thesis by simp
qed

lemma sample_rect_iff:
  "(r, c) \<in> sample_rect off t \<longleftrightarrow>
     snd (index_to_pixel t) - off \<le> r \<and> r < snd (index_to_pixel t) + off \<and>
     fst (index_to_pixel t) - off \<le> c \<and> c < fst (index_to_pixel t) + off"
  by (simp add: sample_rect_def split: prod.splits)

lemma index_to_pixel_lower:
  "on_grid t \<Longrightarrow> 501 \<le> fst (index_to_pixel t) \<and> 262 \<le> snd (index_to_pixel t)"
  using pixel_x_gap [of 0 "snd t"] pixel_y_gap [of 0 "fst t"]
  by (simp add: index_to_pixel_on_grid on_grid_def)

lemma index_to_pixel_col_upper:
  "on_grid t \<Longrightarrow> snd t < 9 \<Longrightarrow> fst (index_to_pixel t) \<le> 1423"
proof -
  assume "on_grid t" and "snd t < 9"
  then have "(4013 + 922 * snd t) div 8 \<le> (4013 + 922 * 8) div 8"
    by (intro zdiv_mono1) auto
  then show ?thesis using \<open>on_grid t\<close> by (simp add: index_to_pixel_on_grid)
qed

subsection \<open>Properties of the mapper\<close>

text \<open>C35: for positions on the grid, distinct positions have disjoint sampling rectangles
  whenever the rectangle's half-side \<open>offset\<close> is at most half a cell (the program uses
  \<open>offset = 10\<close>), so no pixel is ever read for two different tiles.\<close>

theorem sample_rects_disjoint:
  assumes "on_grid t1" and "on_grid t2" and "t1 \<noteq> t2" and "2 * off \<le> 115"
  shows "sample_rect off t1 \<inter> sample_rect off t2 = {}"
proof -
  have "\<not> ((r, c) \<in> sample_rect off t1 \<and> (r, c) \<in> sample_rect off t2)" for r c
    using index_to_pixel_apart [OF assms(1-3)] assms(4) by (auto simp: sample_rect_iff)
  then show ?thesis by auto
qed

theorem sample_rects_disjoint_witness:
  "on_grid (0, 0) \<and> on_grid (0, 1) \<and> (0::int, 0::int) \<noteq> (0, 1) \<and> 2 * (10::int) \<le> 115 \<and>
   sample_rect 10 (0, 0) \<inter> sample_rect 10 (0, 1) = {}"
  using sample_rects_disjoint [of "(0, 0)" "(0, 1)" 10] by (simp add: on_grid_def)

text \<open>C36: round trip of the coordinate mapper: the pixel centre of every grid position
  lies inside that position's own cell, so reading the cell back from the pixel gives the
  position (and the mapper is injective on the grid).\<close>

theorem index_to_pixel_roundtrip:
  assumes "on_grid t"
  shows "pixel_cell (index_to_pixel t) = t"
proof -
  obtain i j where t: "t = (i, j)" and nn: "0 \<le> i" "0 \<le> j"
    using assms by (cases t) (auto simp: on_grid_def)
  let ?N = "2626665 + 1153330 * i" and ?M = "4013 + 922 * j"
  have y: "(10000 * (?N div 10000) - 2050000) div 1153330 = i"
  proof (rule div_by_residue)
    have "?N = 10000 * (?N div 10000) + ?N mod 10000" by simp
    moreover have "0 \<le> ?N mod 10000" "?N mod 10000 < 10000" by simp_all
    ultimately show "0 \<le> 10000 * (?N div 10000) - 2050000 - 1153330 * i"
      and "10000 * (?N div 10000) - 2050000 - 1153330 * i < 1153330" by linarith+
  qed
  have x: "(8 * (?M div 8) - 3552) div 922 = j"
  proof (rule div_by_residue)
    have "?M = 8 * (?M div 8) + ?M mod 8" by simp
    moreover have "0 \<le> ?M mod 8" "?M mod 8 < 8" by simp_all
    ultimately show "0 \<le> 8 * (?M div 8) - 3552 - 922 * j"
      and "8 * (?M div 8) - 3552 - 922 * j < 922" by linarith+
  qed
  show ?thesis using x y nn by (simp add: t index_to_pixel_closed pixel_cell_def)
qed

theorem index_to_pixel_roundtrip_witness:
  "on_grid (6, 8) \<and> pixel_cell (index_to_pixel (6, 8)) = (6, 8)"
  using index_to_pixel_roundtrip [of "(6, 8)"] by (simp add: on_grid_def)

end
