(* ===== verification/Stations.thy ===== *)
theory Stations
  imports Coordinates
begin

text \<open>
  The station state machine of \<open>src/bot_adb.py\<close>. Its state is four fields of \<open>Bot\<close>:
  \<open>station_cap\<close>, \<open>station_uses\<close> (the configured capacity and uses per tap, set in
  \<open>__init__\<close>), \<open>station_tiles\<close> (the queue, front = active station) and \<open>uses\<close> (taps
  left on the active station). They form the record \<open>stations\<close>, of which the bot's record
  is an extension, so the operations here apply to the bot itself.
  \<^item> \<open>create_station_tiles\<close> (lines 41--45): the queue, a slice of a fixed 32-entry blueprint;
  \<^item> \<open>use_station\<close> (lines 107--111): one tap at the station's pixel centre;
  \<^item> \<open>station_fallback\<close> (lines 132--144): the branch of \<open>run\<close> taken when a whole pass
    found no pair: halt on an empty queue, else tap the front station, decrement \<open>uses\<close>,
    and on reaching 0 pop the station and reset \<open>uses\<close> to \<open>station_cap // station_uses\<close>.
  \<open>station_spec\<close> is the machine of the specification (section 4.5) as a step relation on
  abstract states (queue, taps left); \<open>fallback_run\<close> runs the fallback for \<open>n\<close>
  consecutive cycles without a pair.
\<close>

record stations =
  station_cap :: int
  station_uses :: int
  station_tiles :: "tile list"
  uses :: int

definition station_tiles_blueprint :: "tile list" where
  "station_tiles_blueprint =
     [(6 - i, j). i \<leftarrow> py_range 0 2, j \<leftarrow> py_range 0 7] @
     [(6 - i, j). i \<leftarrow> py_range 2 4, j \<leftarrow> py_range 0 9]"

definition create_station_tiles :: "int \<Rightarrow> int \<Rightarrow> tile list" where
  "create_station_tiles station_start station_num =
     py_slice station_tiles_blueprint station_start (station_start + station_num)"

definition use_station :: "tile \<Rightarrow> action list \<times> bool" where
  "use_station tile = (case index_to_pixel tile of (x, y) \<Rightarrow> ([Touch (x, y)], True))"

definition station_fallback ::
  "'a stations_scheme \<Rightarrow> 'a stations_scheme \<times> action list \<times> (py_error + bool)" where
  "station_fallback self =
     (case station_tiles self of
        [] \<Rightarrow> (self, [], Inr False)
      | st # _ \<Rightarrow>
          (case use_station st of
             (acts, used) \<Rightarrow>
               (let self1 = (if used then self\<lparr>uses := uses self - 1\<rparr> else self)
                in if uses self1 = 0 then
                     (case py_floordiv (station_cap self1) (station_uses self1) of
                        Inl e \<Rightarrow> (self1\<lparr>station_tiles := tl (station_tiles self1)\<rparr>, acts, Inl e)
                      | Inr u \<Rightarrow> (self1\<lparr>station_tiles := tl (station_tiles self1), uses := u\<rparr>,
                                 acts, Inr True))
                   else (self1, acts, Inr True))))"

fun fallback_run :: "nat \<Rightarrow> 'a stations_scheme \<Rightarrow> 'a stations_scheme \<times> action list" where
  "fallback_run 0 s = (s, [])"
| "fallback_run (Suc n) s =
     (case station_fallback s of
        (s', acts, r) \<Rightarrow>
          if r = Inr True then (case fallback_run n s' of (s'', acts') \<Rightarrow> (s'', acts @ acts'))
          else (s', acts))"

subsection \<open>The specification's machine\<close>

text \<open>Abstract state: the queue of stations and the taps left on the front one; \<open>k\<close> is
  the number of taps a fresh station allows. A step either halts on an empty queue, or taps
  the front station and decrements, popping it (and starting the next with \<open>k\<close>) when the
  count reaches zero.\<close>

type_synonym station_queue = "tile list \<times> nat"

inductive station_spec :: "nat \<Rightarrow> station_queue \<Rightarrow> action list \<Rightarrow> bool \<Rightarrow> station_queue \<Rightarrow> bool" where
  spec_halt: "station_spec k ([], c) [] False ([], c)"
| spec_deplete: "c = Suc c' \<Longrightarrow> 0 < c' \<Longrightarrow>
     station_spec k (s # q, c) [Touch (index_to_pixel s)] True (s # q, c')"
| spec_exhaust: "c = Suc 0 \<Longrightarrow>
     station_spec k (s # q, c) [Touch (index_to_pixel s)] True (q, k)"

inductive_cases station_spec_emptyE: "station_spec k ([], c) acts b a'"
inductive_cases station_spec_consE: "station_spec k (s # q, c) acts b a'"

definition abs_stations :: "'a stations_scheme \<Rightarrow> station_queue" where
  "abs_stations self = (station_tiles self, nat (uses self))"

definition fresh_uses :: "'a stations_scheme \<Rightarrow> int" where
  "fresh_uses self = station_cap self div station_uses self"

text \<open>The invariant under which the code implements the machine: the configured ratio is
  a positive number of taps and the active station has taps left.\<close>

definition station_budget :: "'a stations_scheme \<Rightarrow> nat" where
  "station_budget self =
     (case station_tiles self of [] \<Rightarrow> 0 | _ # q \<Rightarrow> nat (uses self) + nat (fresh_uses self) * length q)"

definition stations_ok :: "'a stations_scheme \<Rightarrow> bool" where
  "stations_ok self \<longleftrightarrow> station_uses self \<noteq> 0 \<and> 0 < fresh_uses self \<and> 0 < uses self"

subsection \<open>Behaviour of the fallback\<close>

lemma station_fallback_Nil [simp]:
  "station_tiles self = [] \<Longrightarrow> station_fallback self = (self, [], Inr False)"
  by (simp add: station_fallback_def)

lemma station_fallback_deplete:
  "station_tiles self = st # q \<Longrightarrow> uses self \<noteq> 1 \<Longrightarrow>
   station_fallback self = (self\<lparr>uses := uses self - 1\<rparr>, [Touch (index_to_pixel st)], Inr True)"
  by (simp add: station_fallback_def use_station_def split: prod.splits)

lemma station_fallback_exhaust:
  "station_tiles self = st # q \<Longrightarrow> uses self = 1 \<Longrightarrow> station_uses self \<noteq> 0 \<Longrightarrow>
   station_fallback self =
     (self\<lparr>uses := fresh_uses self, station_tiles := q\<rparr>, [Touch (index_to_pixel st)], Inr True)"
  by (simp add: station_fallback_def use_station_def fresh_uses_def py_floordiv_nonzero
      split: prod.splits)

lemma station_fallback_frame:
  "station_fallback self = (self', acts, r) \<Longrightarrow>
   station_cap self' = station_cap self \<and> station_uses self' = station_uses self \<and>
   stations.more self' = stations.more self"
  by (auto simp: station_fallback_def use_station_def Let_def
      split: list.splits prod.splits if_splits sum.splits)

lemma station_fallback_shape:
  assumes "station_fallback self = (self', acts, r)"
  shows "self' = self\<lparr>uses := uses self', station_tiles := station_tiles self'\<rparr>"
  using station_fallback_frame [OF assms] by (intro stations.equality) simp_all

lemma fresh_uses_update [simp]:
  "fresh_uses (self\<lparr>uses := u\<rparr>) = fresh_uses self"
  "fresh_uses (self\<lparr>station_tiles := q\<rparr>) = fresh_uses self"
  by (simp_all add: fresh_uses_def)

lemmas station_fallback_cases = station_fallback_Nil station_fallback_deplete station_fallback_exhaust

lemma station_fallback_ok:
  assumes "stations_ok self" and "station_fallback self = (self', acts, r)"
  shows "stations_ok self'"
proof (cases "station_tiles self")
  case Nil
  with assms show ?thesis by simp
next
  case (Cons st q)
  show ?thesis
  proof (cases "uses self = 1")
    case True
    with Cons assms show ?thesis
      by (auto simp: station_fallback_exhaust stations_ok_def)
  next
    case False
    with Cons assms show ?thesis
      by (auto simp: station_fallback_deplete stations_ok_def)
  qed
qed

text \<open>Every tap spends one unit of the budget: the taps left on the active station plus
  a full station's worth for each station behind it.\<close>

lemma station_fallback_budget:
  assumes "stations_ok self" and "station_tiles self = st # q"
    and "station_fallback self = (self', acts, r)"
  shows "r = Inr True \<and> acts = [Touch (index_to_pixel st)] \<and> Suc (station_budget self') = station_budget self"
proof (cases "uses self = 1")
  case True
  with assms have "self' = self\<lparr>uses := fresh_uses self, station_tiles := q\<rparr>"
    and "acts = [Touch (index_to_pixel st)]" and "r = Inr True"
    by (simp_all add: station_fallback_exhaust stations_ok_def)
  with True assms(1,2) show ?thesis
    by (cases q) (auto simp: station_budget_def stations_ok_def)
next
  case False
  with assms have "self' = self\<lparr>uses := uses self - 1\<rparr>"
    and "acts = [Touch (index_to_pixel st)]" and "r = Inr True"
    by (simp_all add: station_fallback_deplete)
  with False assms(1,2) show ?thesis
    by (auto simp: station_budget_def stations_ok_def nat_diff_distrib)
qed

subsection \<open>Runs of the fallback\<close>

lemma fallback_run_deplete:
  assumes "station_tiles s = st # q" and "int n < uses s"
  shows "fallback_run n s = (s\<lparr>uses := uses s - int n\<rparr>, replicate n (Touch (index_to_pixel st)))"
  using assms
proof (induction n arbitrary: s)
  case 0
  then show ?case by simp
next
  case (Suc n)
  then have "station_fallback s = (s\<lparr>uses := uses s - 1\<rparr>, [Touch (index_to_pixel st)], Inr True)"
    by (simp add: station_fallback_deplete)
  moreover have "fallback_run n (s\<lparr>uses := uses s - 1\<rparr>) =
      (s\<lparr>uses := uses s - 1 - int n\<rparr>, replicate n (Touch (index_to_pixel st)))"
    using Suc.prems by (intro Suc.IH [THEN trans]) simp_all
  ultimately show ?case by (simp add: algebra_simps)
qed

lemma fallback_run_exhaust:
  assumes "station_tiles s = st # q" and "station_uses s \<noteq> 0" and "uses s = int (Suc n)"
  shows "fallback_run (Suc n) s =
    (s\<lparr>uses := fresh_uses s, station_tiles := q\<rparr>, replicate (Suc n) (Touch (index_to_pixel st)))"
  using assms
proof (induction n arbitrary: s)
  case 0
  then show ?case by (simp add: station_fallback_exhaust)
next
  case (Suc n)
  then have "station_fallback s = (s\<lparr>uses := uses s - 1\<rparr>, [Touch (index_to_pixel st)], Inr True)"
    by (simp add: station_fallback_deplete)
  moreover have "fallback_run (Suc n) (s\<lparr>uses := uses s - 1\<rparr>) =
      (s\<lparr>uses := fresh_uses s, station_tiles := q\<rparr>, replicate (Suc n) (Touch (index_to_pixel st)))"
    using Suc.prems by (intro Suc.IH [THEN trans]) simp_all
  ultimately show ?case by simp
qed

lemma fallback_run_nonpositive:
  assumes "station_tiles s = st # q" and "uses s \<le> 0"
  shows "fallback_run n s = (s\<lparr>uses := uses s - int n\<rparr>, replicate n (Touch (index_to_pixel st)))"
  using assms
proof (induction n arbitrary: s)
  case 0
  then show ?case by simp
next
  case (Suc n)
  then have "station_fallback s = (s\<lparr>uses := uses s - 1\<rparr>, [Touch (index_to_pixel st)], Inr True)"
    by (simp add: station_fallback_deplete)
  moreover have "fallback_run n (s\<lparr>uses := uses s - 1\<rparr>) =
      (s\<lparr>uses := uses s - 1 - int n\<rparr>, replicate n (Touch (index_to_pixel st)))"
    using Suc.prems by (intro Suc.IH [THEN trans]) simp_all
  ultimately show ?case by (simp add: algebra_simps)
qed

lemma station_fallback_acts:
  "station_fallback self = (self', acts, r) \<Longrightarrow>
   acts = map (\<lambda>st. Touch (index_to_pixel st)) (take 1 (station_tiles self))"
  by (auto simp: station_fallback_def use_station_def Let_def
      split: list.splits prod.splits sum.splits if_splits)

subsection \<open>The blueprint\<close>

lemma station_tiles_blueprint_eq:
  "station_tiles_blueprint =
     [(6, 0), (6, 1), (6, 2), (6, 3), (6, 4), (6, 5), (6, 6),
      (5, 0), (5, 1), (5, 2), (5, 3), (5, 4), (5, 5), (5, 6),
      (4, 0), (4, 1), (4, 2), (4, 3), (4, 4), (4, 5), (4, 6), (4, 7), (4, 8),
      (3, 0), (3, 1), (3, 2), (3, 3), (3, 4), (3, 5), (3, 6), (3, 7), (3, 8)]"
  by (simp add: station_tiles_blueprint_def py_range_def upto.simps)

lemma station_tiles_blueprint_props:
  "length station_tiles_blueprint = 32 \<and> distinct station_tiles_blueprint \<and>
   (\<forall>t \<in> set station_tiles_blueprint. on_grid t \<and> 3 \<le> fst t \<and> fst t \<le> 6 \<and> snd t < 9)"
  by (simp add: station_tiles_blueprint_eq on_grid_def)

lemma create_station_tiles_take:
  assumes "0 \<le> station_start" and "0 \<le> station_num"
  shows "create_station_tiles station_start station_num =
    take (nat station_num) (drop (nat station_start) station_tiles_blueprint)"
  using assms by (simp add: create_station_tiles_def py_slice_nonneg nat_add_distrib)

lemma length_create_station_tiles:
  assumes "0 \<le> station_start" and "0 \<le> station_num"
  shows "int (length (create_station_tiles station_start station_num)) =
    min station_num (max 0 (32 - station_start))"
proof -
  have len: "length station_tiles_blueprint = 32"
    using station_tiles_blueprint_props by simp
  have "int (32 - nat station_start) = max 0 (32 - station_start)"
    using assms by (simp add: of_nat_diff max_def)
  then show ?thesis
    using assms len by (simp add: create_station_tiles_take of_nat_min min.commute)
qed

subsection \<open>Properties of the station machine\<close>

text \<open>C4: the code's fallback implements the specification's station machine: from a state
  satisfying \<open>stations_ok\<close>, \<open>station_fallback\<close> raises nothing, its effect on the
  abstract state (queue, taps left) is a step of \<open>station_spec\<close> with fresh stations
  allowing \<open>station_cap // station_uses\<close> taps, and the invariant is kept.\<close>

theorem station_fallback_refines:
  assumes "stations_ok self" and "station_fallback self = (self', acts, r)"
  shows "\<exists>b. r = Inr b \<and>
    station_spec (nat (fresh_uses self)) (abs_stations self) acts b (abs_stations self') \<and>
    stations_ok self'"
proof -
  have ok': "stations_ok self'"
    using assms by (rule station_fallback_ok)
  let ?k = "nat (fresh_uses self)"
  show ?thesis
  proof (cases "station_tiles self")
    case Nil
    with assms have "self' = self" and "acts = []" and "r = Inr False"
      by simp_all
    moreover have "station_spec ?k ([], nat (uses self)) [] False ([], nat (uses self))"
      by (rule spec_halt)
    ultimately show ?thesis using Nil ok'
      by (intro exI [where x = False]) (simp add: abs_stations_def)
  next
    case (Cons st q)
    show ?thesis
    proof (cases "uses self = 1")
      case True
      with Cons assms have eq: "self' = self\<lparr>uses := fresh_uses self, station_tiles := q\<rparr>"
        and "acts = [Touch (index_to_pixel st)]" and "r = Inr True"
        by (simp_all add: station_fallback_exhaust stations_ok_def)
      moreover have "station_spec ?k (st # q, Suc 0) [Touch (index_to_pixel st)] True (q, ?k)"
        by (rule spec_exhaust) (rule refl)
      ultimately show ?thesis using True Cons ok'
        by (intro exI [where x = True]) (simp add: abs_stations_def)
    next
      case False
      with Cons assms have eq: "self' = self\<lparr>uses := uses self - 1\<rparr>"
        and "acts = [Touch (index_to_pixel st)]" and "r = Inr True"
        by (simp_all add: station_fallback_deplete)
      moreover from False assms(1) have n: "nat (uses self) = Suc (nat (uses self - 1))"
        and "0 < nat (uses self - 1)"
        unfolding stations_ok_def by (simp_all add: nat_eq_iff)
      then have "station_spec ?k (st # q, nat (uses self)) [Touch (index_to_pixel st)] True
          (st # q, nat (uses self - 1))"
        by (intro spec_deplete)
      ultimately show ?thesis using Cons ok'
        by (intro exI [where x = True]) (simp add: abs_stations_def)
    qed
  qed
qed

theorem station_fallback_refines_witness:
  "stations_ok \<lparr>station_cap = 5, station_uses = 1, station_tiles = [(6, 0)], uses = 5\<rparr> \<and>
   station_fallback \<lparr>station_cap = 5, station_uses = 1, station_tiles = [(6, 0)], uses = 5\<rparr> =
     (\<lparr>station_cap = 5, station_uses = 1, station_tiles = [(6, 0)], uses = 4\<rparr>,
      [Touch (index_to_pixel (6, 0))], Inr True) \<and>
   station_spec 5 ([(6, 0)], 5) [Touch (index_to_pixel (6, 0))] True ([(6, 0)], 4)"
proof -
  let ?s = "\<lparr>station_cap = 5, station_uses = 1, station_tiles = [(6::int, 0::int)], uses = 5\<rparr>"
  have ok: "stations_ok ?s"
    by (simp add: stations_ok_def fresh_uses_def)
  have eq: "station_fallback ?s =
      (\<lparr>station_cap = 5, station_uses = 1, station_tiles = [(6, 0)], uses = 4\<rparr>,
       [Touch (index_to_pixel (6, 0))], Inr True)"
    by (simp add: station_fallback_deplete)
  have "station_spec 5 ([(6, 0)], 5) [Touch (index_to_pixel (6, 0))] True ([(6, 0)], 4)"
    using station_fallback_refines [OF ok eq] by (auto simp: abs_stations_def fresh_uses_def)
  with ok eq show ?thesis by simp
qed

text \<open>C24: a station configured with capacity \<open>c\<close> and \<open>u\<close> uses per tap (so that
  \<open>c // u\<close> is positive) is tapped exactly \<open>c // u\<close> times: during the first
  \<open>c // u - 1\<close> cycles without a pair it stays at the front with the counter counting down,
  and the \<open>c // u\<close>-th cycle pops it and resets the counter for the next station. With
  capacity 5 and 1 use per tap this is five taps before exhaustion.\<close>

theorem station_exhausted_after_k_uses:
  assumes "station_tiles s = st # q" and "station_uses s \<noteq> 0" and "0 < fresh_uses s"
    and "uses s = fresh_uses s"
  shows "(\<forall>n < nat (fresh_uses s).
            fallback_run n s = (s\<lparr>uses := uses s - int n\<rparr>, replicate n (Touch (index_to_pixel st))))
       \<and> fallback_run (nat (fresh_uses s)) s =
           (s\<lparr>uses := fresh_uses s, station_tiles := q\<rparr>,
            replicate (nat (fresh_uses s)) (Touch (index_to_pixel st)))"
proof
  show "\<forall>n < nat (fresh_uses s).
      fallback_run n s = (s\<lparr>uses := uses s - int n\<rparr>, replicate n (Touch (index_to_pixel st)))"
  proof (intro allI impI)
    fix n
    assume "n < nat (fresh_uses s)"
    with assms(4) have "int n < uses s" by simp
    with assms(1) show "fallback_run n s =
        (s\<lparr>uses := uses s - int n\<rparr>, replicate n (Touch (index_to_pixel st)))"
      by (rule fallback_run_deplete)
  qed
next
  obtain m where m: "nat (fresh_uses s) = Suc m"
    using assms(3) by (metis gr0_implies_Suc zero_less_nat_eq)
  with assms(3,4) have "uses s = int (Suc m)" by simp
  with assms(1,2) m show "fallback_run (nat (fresh_uses s)) s =
      (s\<lparr>uses := fresh_uses s, station_tiles := q\<rparr>,
       replicate (nat (fresh_uses s)) (Touch (index_to_pixel st)))"
    using fallback_run_exhaust [of s st q m] by simp
qed

theorem station_exhausted_after_k_uses_witness:
  "fallback_run 5 \<lparr>station_cap = 5, station_uses = 1, station_tiles = [(6, 0), (6, 1)], uses = 5\<rparr> =
     (\<lparr>station_cap = 5, station_uses = 1, station_tiles = [(6, 1)], uses = 5\<rparr>,
      replicate 5 (Touch (index_to_pixel (6, 0))))"
proof -
  let ?s = "\<lparr>station_cap = 5, station_uses = 1, station_tiles = [(6::int, 0::int), (6, 1)], uses = 5\<rparr>"
  have "fallback_run (nat (fresh_uses ?s)) ?s =
      (?s\<lparr>uses := fresh_uses ?s, station_tiles := [(6, 1)]\<rparr>,
       replicate (nat (fresh_uses ?s)) (Touch (index_to_pixel (6, 0))))"
    using station_exhausted_after_k_uses [of ?s "(6, 0)" "[(6, 1)]"] by (simp add: fresh_uses_def)
  then show ?thesis by (simp add: fresh_uses_def)
qed

text \<open>C25: when the capacity is below the uses per tap, \<open>station_cap // station_uses\<close> is 0
  and the counter starts at 0; the decrement then never brings it back to 0, so the front
  station is tapped in every cycle without a pair, the counter goes negative and the station
  is never popped.\<close>

theorem zero_ratio_never_pops:
  assumes "fresh_uses s = 0" and "uses s = fresh_uses s" and "station_tiles s = st # q"
  shows "fallback_run n s = (s\<lparr>uses := - int n\<rparr>, replicate n (Touch (index_to_pixel st)))"
  using fallback_run_nonpositive [of s st q n] assms by simp

theorem zero_ratio_never_pops_witness:
  "fallback_run 3 \<lparr>station_cap = 1, station_uses = 2, station_tiles = [(6, 0), (6, 1)], uses = 0\<rparr> =
     (\<lparr>station_cap = 1, station_uses = 2, station_tiles = [(6, 0), (6, 1)], uses = -3\<rparr>,
      replicate 3 (Touch (index_to_pixel (6, 0))))"
  using zero_ratio_never_pops
    [of "\<lparr>station_cap = 1, station_uses = 2, station_tiles = [(6, 0), (6, 1)], uses = 0\<rparr>" "(6, 0)" "[(6, 1)]" 3]
  by (simp add: fresh_uses_def)

text \<open>C34: \<open>create_station_tiles start num\<close> with non-negative arguments yields
  \<open>min num (32 - start)\<close> stations (none past the blueprint's end), all distinct, in rows
  3 to 6 of the grid.\<close>

theorem create_station_tiles_shape:
  assumes "0 \<le> station_start" and "0 \<le> station_num"
  shows "int (length (create_station_tiles station_start station_num)) =
           min station_num (max 0 (32 - station_start)) \<and>
         distinct (create_station_tiles station_start station_num) \<and>
         set (create_station_tiles station_start station_num) \<subseteq> set station_tiles_blueprint"
  using length_create_station_tiles [OF assms] create_station_tiles_take [OF assms]
    station_tiles_blueprint_props
  by (auto simp: distinct_take distinct_drop dest: in_set_takeD in_set_dropD)

theorem create_station_tiles_shape_witness:
  "length (create_station_tiles 30 5) = 2 \<and> distinct (create_station_tiles 30 5) \<and>
   set (create_station_tiles 30 5) \<subseteq> set station_tiles_blueprint"
  using create_station_tiles_shape [of 30 5] by simp

end
