(* ===== verification/Bot.thy ===== *)
theory Bot
  imports Stations
begin

text \<open>
  The state of \<open>class Bot\<close> (\<open>src/bot_adb.py\<close>, lines 21--39) and its constructor.
  \<open>bot\<close> extends the station record of \<open>Stations\<close> with the remaining attributes set in
  \<open>__init__\<close>: the grid (\<open>rows\<close>, \<open>cols = 9\<close>, \<open>item_tiles\<close> in row-major order),
  the sampling half-side \<open>offset = 10\<close>, the two reference colours of an empty slot, the
  similarity threshold \<open>0.90\<close> and the \<open>running\<close> flag. \<open>bot_init\<close> takes the
  constructor's arguments in the source's order (\<open>station_cap, station_uses, station_num,
  station_start, rows\<close>) and fails with \<open>ZeroDivisionError\<close> where
  \<open>station_cap // station_uses\<close> does. The device connection of line 38 is not
  modelled: the device is seen only through the frames and actions of later theories.
\<close>

record bot = stations +
  rows :: int
  cols :: int
  offset :: int
  empty_colors :: "rgb list"
  threshold :: real
  item_tiles :: "tile list"
  running :: bool

definition grid_tiles :: "int \<Rightarrow> int \<Rightarrow> tile list" where
  "grid_tiles nrows ncols = [(i, j). i \<leftarrow> py_range 0 nrows, j \<leftarrow> py_range 0 ncols]"

definition bot_init :: "int \<Rightarrow> int \<Rightarrow> int \<Rightarrow> int \<Rightarrow> int \<Rightarrow> py_error + bot" where
  "bot_init station_cap' station_uses' station_num station_start rows' =
     (let cols' = 9;
          item_tiles' = grid_tiles rows' cols';
          station_tiles' = create_station_tiles station_start station_num
      in case py_floordiv station_cap' station_uses' of
           Inl e \<Rightarrow> Inl e
         | Inr u \<Rightarrow> Inr \<lparr>station_cap = station_cap', station_uses = station_uses',
                         station_tiles = station_tiles', uses = u,
                         rows = rows', cols = cols', offset = 10,
                         empty_colors = [(223, 190, 164), (234, 208, 178)],
                         threshold = 0.90, item_tiles = item_tiles', running = False\<rparr>)"

subsection \<open>The grid of item tiles\<close>

lemma set_grid_tiles: "set (grid_tiles nrows ncols) = {0..<nrows} \<times> {0..<ncols}"
  by (auto simp: grid_tiles_def)

lemma grid_tiles_product: "grid_tiles nrows ncols = List.product (py_range 0 nrows) (py_range 0 ncols)"
  by (simp add: grid_tiles_def product_concat_map)

lemma distinct_grid_tiles: "distinct (grid_tiles nrows ncols)"
  by (simp add: grid_tiles_product distinct_product)

lemma grid_tiles_on_grid: "t \<in> set (grid_tiles nrows ncols) \<Longrightarrow> on_grid t"
  by (auto simp: set_grid_tiles on_grid_def)

subsection \<open>Construction\<close>

lemma bot_init_Inr:
  assumes "station_uses' \<noteq> 0"
  shows "bot_init station_cap' station_uses' station_num station_start rows' =
    Inr \<lparr>station_cap = station_cap', station_uses = station_uses',
         station_tiles = create_station_tiles station_start station_num,
         uses = station_cap' div station_uses',
         rows = rows', cols = 9, offset = 10,
         empty_colors = [(223, 190, 164), (234, 208, 178)],
         threshold = 0.90, item_tiles = grid_tiles rows' 9, running = False\<rparr>"
  using assms by (simp add: bot_init_def py_floordiv_nonzero)

lemma station_budget_fresh:
  assumes "uses self = fresh_uses self" and "0 \<le> fresh_uses self"
  shows "int (station_budget self) = int (length (station_tiles self)) * fresh_uses self"
  using assms by (cases "station_tiles self") (simp_all add: station_budget_def algebra_simps)

subsection \<open>Properties of the constructor\<close>

text \<open>C32: the constructor fails exactly when \<open>station_uses\<close> is zero, and then with
  \<open>ZeroDivisionError\<close> from \<open>station_cap // station_uses\<close>; every other configuration is
  accepted, including a non-positive ratio and more stations than the blueprint has slots.\<close>

theorem bot_init_fails_iff:
  "bot_init station_cap' station_uses' station_num station_start rows' = Inl e \<longleftrightarrow>
   station_uses' = 0 \<and> e = ZeroDivisionError"
  by (auto simp: bot_init_def py_floordiv_def Let_def)

text \<open>C33: a bot constructed with a positive ratio \<open>station_cap // station_uses\<close> and
  non-negative station arguments starts with consistent station counters and with a total
  of \<open>min station_num (32 - station_start)\<close> stations of that many taps each.\<close>

theorem bot_init_budget:
  assumes "0 < station_cap' div station_uses'" and "0 \<le> station_start" and "0 \<le> station_num"
    and "bot_init station_cap' station_uses' station_num station_start rows' = Inr b"
  shows "stations_ok b \<and>
    int (station_budget b) = min station_num (max 0 (32 - station_start)) * (station_cap' div station_uses')"
proof -
  have nz: "station_uses' \<noteq> 0" using assms(1) by auto
  then have b: "station_tiles b = create_station_tiles station_start station_num"
    "uses b = station_cap' div station_uses'" "fresh_uses b = station_cap' div station_uses'"
    "station_uses b = station_uses'"
    using assms(4) by (auto simp: bot_init_Inr fresh_uses_def)
  then have "int (station_budget b) = int (length (station_tiles b)) * (station_cap' div station_uses')"
    using assms(1) station_budget_fresh [of b] by simp
  then show ?thesis
    using b nz assms(1) length_create_station_tiles [OF assms(2,3)] by (simp add: stations_ok_def)
qed

theorem bot_init_budget_witness:
  "stations_ok (projr (bot_init 7 2 3 30 1)) \<and> station_budget (projr (bot_init 7 2 3 30 1)) = 6"
proof -
  have "bot_init 7 2 3 30 1 = Inr (projr (bot_init 7 2 3 30 1))"
    by (simp add: bot_init_Inr)
  from bot_init_budget [OF _ _ _ this] show ?thesis by simp
qed

end
