(* ===== verification/Similarity.thy ===== *)
theory Similarity
  imports Prelude
begin

text \<open>
  The similarity matcher, \<open>Bot.ccoeff_normed\<close> (\<open>src/bot_adb.py\<close>, lines 47--54), and the
  test \<open>coef > self.threshold\<close> that \<open>find_match\<close> applies to its result (line 94).
  A patch is the flattened \<open>uint8\<close> array read from the frame, as a list of reals.
  The numpy operations are modelled at the level of their results:
  \<^item> \<open>np_mean\<close>, \<open>np_std\<close>: \<open>np.mean\<close> and the population standard deviation \<open>np.std\<close>;
  \<^item> \<open>standardize\<close>: \<open>(x - np.mean(x)) / np.std(x)\<close>; when the deviation is 0 every
    element is \<open>0 / 0\<close>, NaN, and the model returns \<open>None\<close> for this all-NaN array;
  \<^item> \<open>np_correlate\<close>: \<open>np.correlate(a, v)\<close> in its default 'valid' mode,
    \<open>c\<^sub>k = \<Sum>\<^sub>n a[n + k] v[n]\<close>; when \<open>a\<close> is the shorter array numpy swaps the
    arguments and reverses the result; an empty argument raises \<open>ValueError\<close>;
  \<^item> \<open>flt\<close>: a float of the result, \<open>None\<close> for NaN (NaN in, NaN out);
  \<^item> \<open>coef_exceeds\<close>: \<open>bool(coef > threshold)\<close> on the result array: the one element's
    comparison (False for NaN) when it has one element, \<open>ValueError\<close> ("truth value of an
    array with more than one element is ambiguous") otherwise.
  Floats are read as reals: the theorems say what the formula computes, and the
  specification itself states reflexivity "within floating-point tolerance".
\<close>

type_synonym flt = "real option"

definition np_mean :: "real list \<Rightarrow> real" where
  "np_mean xs = sum_list xs / real (length xs)"

definition np_std :: "real list \<Rightarrow> real" where
  "np_std xs = sqrt (np_mean (map (\<lambda>x. (x - np_mean xs)\<^sup>2) xs))"

definition standardize :: "real list \<Rightarrow> real list option" where
  "standardize xs =
     (let m = np_mean xs; s = np_std xs
      in if s = 0 then None else Some (map (\<lambda>x. (x - m) / s) xs))"

definition sum_sq :: "real list \<Rightarrow> real" where
  "sum_sq xs = (\<Sum>i<length xs. (xs ! i)\<^sup>2)"

definition correlate_valid :: "real list \<Rightarrow> real list \<Rightarrow> real list" where
  "correlate_valid a v =
     map (\<lambda>k. \<Sum>n<length v. a ! (n + k) * v ! n) [0..<length a - length v + 1]"

definition np_correlate :: "real list \<Rightarrow> real list \<Rightarrow> real list" where
  "np_correlate a v =
     (if length v \<le> length a then correlate_valid a v else rev (correlate_valid v a))"

definition valid_len :: "nat \<Rightarrow> nat \<Rightarrow> nat" where
  "valid_len m n = max m n - min m n + 1"

definition ccoeff_normed :: "real list \<Rightarrow> real list \<Rightarrow> py_error + flt list" where
  "ccoeff_normed template target =
     (let template_norm = standardize template;
          target_norm = standardize target
      in if target = [] \<or> template = [] then Inl ValueError
         else case (template_norm, target_norm) of
           (Some tn, Some gn) \<Rightarrow>
             (let cross_corr = np_correlate gn tn;
                  norm_factor = sqrt (sum_sq tn * sum_sq gn)
              in Inr (map (\<lambda>c. Some (c / norm_factor)) cross_corr))
         | _ \<Rightarrow> Inr (replicate (valid_len (length target) (length template)) None))"

definition coef_exceeds :: "flt list \<Rightarrow> real \<Rightarrow> py_error + bool" where
  "coef_exceeds coef thr =
     (case coef of
        [c] \<Rightarrow> Inr (case c of None \<Rightarrow> False | Some x \<Rightarrow> thr < x)
      | _ \<Rightarrow> Inl ValueError)"

subsection \<open>Shape of the result and symmetry\<close>

lemma correlate_valid_same_len:
  "length a = length v \<Longrightarrow> correlate_valid a v = [\<Sum>n<length v. a ! n * v ! n]"
  by (simp add: correlate_valid_def)

lemma length_correlate_valid: "length (correlate_valid a v) = length a - length v + 1"
  by (simp add: correlate_valid_def)

lemma np_correlate_swap: "np_correlate a v = rev (np_correlate v a)"
proof (cases "length a = length v")
  case True
  then show ?thesis
    by (simp add: np_correlate_def correlate_valid_same_len mult.commute)
next
  case False
  then show ?thesis by (auto simp: np_correlate_def)
qed

lemma length_np_correlate: "length (np_correlate a v) = valid_len (length a) (length v)"
  by (simp add: np_correlate_def length_correlate_valid valid_len_def)

lemma valid_len_commute: "valid_len m n = valid_len n m"
  by (simp add: valid_len_def max.commute min.commute)

lemma ccoeff_normed_swap:
  "ccoeff_normed a b = (case ccoeff_normed b a of Inl e \<Rightarrow> Inl e | Inr c \<Rightarrow> Inr (rev c))"
proof -
  consider (nan) "standardize a = None \<or> standardize b = None"
    | (num) ta tb where "standardize a = Some ta" and "standardize b = Some tb"
    by (cases "standardize a"; cases "standardize b") auto
  then show ?thesis
  proof cases
    case nan
    then show ?thesis
      by (auto simp: ccoeff_normed_def Let_def valid_len_commute split: option.splits)
  next
    case num
    then show ?thesis
      using np_correlate_swap [of tb ta] by (simp add: ccoeff_normed_def Let_def rev_map mult.commute)
  qed
qed

lemma length_standardize: "standardize xs = Some ys \<Longrightarrow> length ys = length xs"
  by (auto simp: standardize_def Let_def split: if_splits)

lemma ccoeff_normed_length:
  "ccoeff_normed a b = Inr c \<Longrightarrow> length c = valid_len (length b) (length a)"
  by (auto simp: ccoeff_normed_def Let_def length_np_correlate length_standardize
      split: option.splits if_splits)

lemma ccoeff_normed_single:
  assumes "template \<noteq> []" and "target \<noteq> []" and "length template = length target"
  shows "\<exists>c. ccoeff_normed template target = Inr [c]"
proof -
  obtain cs where cs: "ccoeff_normed template target = Inr cs"
    using assms(1,2)
    by (cases "standardize template"; cases "standardize target") (auto simp: ccoeff_normed_def Let_def)
  then have "length cs = 1"
    using assms(3) by (simp add: ccoeff_normed_length valid_len_def)
  with cs show ?thesis by (cases cs) auto
qed

lemma coef_exceeds_single [simp]:
  "coef_exceeds [c] thr = Inr (case c of None \<Rightarrow> False | Some x \<Rightarrow> thr < x)"
  by (simp add: coef_exceeds_def)

text \<open>C7: the similarity score is symmetric: for two patches of the same size, \<open>ccoeff_normed a b\<close> and \<open>ccoeff_normed b a\<close> give the same result (the same score, or the same NaN, or the same error). For patches of different sizes the arrays are reverses of each other (\<open>ccoeff_normed_swap\<close>).\<close>

theorem ccoeff_normed_symmetric:
  assumes "length a = length b"
  shows "ccoeff_normed a b = ccoeff_normed b a"
proof (cases "ccoeff_normed b a")
  case (Inl e)
  then show ?thesis by (simp add: ccoeff_normed_swap [of a b])
next
  case (Inr c)
  then have "length c = 1" using assms by (simp add: ccoeff_normed_length valid_len_def)
  then have "rev c = c" by (cases c) auto
  with Inr show ?thesis by (simp add: ccoeff_normed_swap [of a b])
qed

theorem ccoeff_normed_symmetric_witness:
  "length [0, 2::real] = length [3, 5::real] \<and> ccoeff_normed [0, 2] [3, 5] = ccoeff_normed [3, 5] [0, 2]"
  using ccoeff_normed_symmetric [of "[0, 2]" "[3, 5]"] by simp


subsection \<open>Reflexivity\<close>

lemma sum_list_as_sum: "sum_list xs = (\<Sum>i<length xs. xs ! i)"
  by (simp add: sum_list_sum_nth atLeast0LessThan)

lemma np_std_sq: "(np_std xs)\<^sup>2 = (\<Sum>i<length xs. (xs ! i - np_mean xs)\<^sup>2) / real (length xs)"
proof -
  have "0 \<le> np_mean (map (\<lambda>x. (x - np_mean xs)\<^sup>2) xs)"
    unfolding np_mean_def by (intro divide_nonneg_nonneg sum_list_nonneg) auto
  then have "(np_std xs)\<^sup>2 = np_mean (map (\<lambda>x. (x - np_mean xs)\<^sup>2) xs)"
    by (simp add: np_std_def)
  also have "\<dots> = (\<Sum>i<length xs. (xs ! i - np_mean xs)\<^sup>2) / real (length xs)"
    by (simp add: np_mean_def sum_list_as_sum)
  finally show ?thesis .
qed

lemma standardize_Some:
  "np_std xs \<noteq> 0 \<Longrightarrow> standardize xs = Some (map (\<lambda>x. (x - np_mean xs) / np_std xs) xs)"
  by (simp add: standardize_def Let_def)

lemma standardize_None: "np_std xs = 0 \<Longrightarrow> standardize xs = None"
  by (simp add: standardize_def Let_def)

lemma sum_sq_standardize:
  assumes "standardize xs = Some ys"
  shows "sum_sq ys = real (length xs)"
proof -
  let ?m = "np_mean xs" and ?s = "np_std xs" and ?n = "real (length xs)"
  let ?D = "\<Sum>i<length xs. (xs ! i - ?m)\<^sup>2"
  from assms have s: "?s \<noteq> 0" and ys: "ys = map (\<lambda>x. (x - ?m) / ?s) xs"
    by (auto simp: standardize_def Let_def split: if_splits)
  have sq: "?s\<^sup>2 = ?D / ?n" by (rule np_std_sq)
  have "?D / ?n \<noteq> 0" using s by (simp add: sq [symmetric])
  then have D: "?D \<noteq> 0" and n: "?n \<noteq> 0" by auto
  have "sum_sq ys = (\<Sum>i<length xs. ((xs ! i - ?m) / ?s)\<^sup>2)"
    by (simp add: sum_sq_def ys)
  also have "\<dots> = ?D / ?s\<^sup>2"
    by (simp add: power_divide sum_divide_distrib)
  also have "\<dots> = ?n"
    using D n by (simp add: sq)
  finally show ?thesis .
qed

lemma np_correlate_self: "np_correlate ys ys = [sum_sq ys]"
  by (simp add: np_correlate_def correlate_valid_same_len sum_sq_def power2_eq_square)

lemma ccoeff_normed_self_one:
  assumes "xs \<noteq> []" and "np_std xs \<noteq> 0"
  shows "ccoeff_normed xs xs = Inr [Some 1]"
proof -
  obtain ys where ys: "standardize xs = Some ys"
    using assms(2) by (simp add: standardize_def Let_def)
  have "sum_sq ys = real (length xs)"
    using ys by (rule sum_sq_standardize)
  then show ?thesis
    using assms ys by (simp add: ccoeff_normed_def Let_def np_correlate_self)
qed

text \<open>C18: the similarity matcher is reflexive: a non-empty patch whose pixels are not all
  equal scores exactly 1 against itself, so it matches itself exactly when the threshold
  is below 1.\<close>

theorem ccoeff_normed_self:
  assumes "xs \<noteq> []" and "np_std xs \<noteq> 0"
  shows "ccoeff_normed xs xs = Inr [Some 1] \<and>
    (case ccoeff_normed xs xs of Inr coef \<Rightarrow> coef_exceeds coef thr | Inl e \<Rightarrow> Inl e) = Inr (thr < 1)"
  using ccoeff_normed_self_one [OF assms] by simp

theorem ccoeff_normed_self_witness:
  "[0, 2::real] \<noteq> [] \<and> np_std [0, 2] \<noteq> 0 \<and> ccoeff_normed [0, 2] [0, 2] = Inr [Some 1] \<and>
   (case ccoeff_normed [0, 2] [0, 2] of Inr coef \<Rightarrow> coef_exceeds coef 0.9 | Inl e \<Rightarrow> Inl e) = Inr True"
proof -
  have "np_std [0, 2] = 1" by (simp add: np_std_def np_mean_def)
  then show ?thesis using ccoeff_normed_self [of "[0, 2]" "0.9"] by simp
qed

subsection \<open>Bounds, NaN and shape errors\<close>

lemma cauchy_schwarz_sum:
  fixes a b :: "nat \<Rightarrow> real"
  shows "(\<Sum>i\<in>A. a i * b i)\<^sup>2 \<le> (\<Sum>i\<in>A. (a i)\<^sup>2) * (\<Sum>i\<in>A. (b i)\<^sup>2)"
proof (cases "finite A \<and> (\<Sum>i\<in>A. (a i)\<^sup>2) \<noteq> 0")
  case False
  then consider "infinite A" | "finite A" and "(\<Sum>i\<in>A. (a i)\<^sup>2) = 0" by blast
  then show ?thesis
  proof cases
    case 1
    then show ?thesis by simp
  next
    case 2
    then have "\<forall>i\<in>A. a i = 0" by (simp add: sum_nonneg_eq_0_iff)
    then show ?thesis by simp
  qed
next
  case True
  let ?A = "\<Sum>i\<in>A. (a i)\<^sup>2" and ?B = "\<Sum>i\<in>A. (b i)\<^sup>2" and ?S = "\<Sum>i\<in>A. a i * b i"
  define t where "t = ?S / ?A"
  have A: "0 < ?A" using True by (simp add: sum_nonneg order_le_neq_trans)
  have "0 \<le> (\<Sum>i\<in>A. (b i - t * a i)\<^sup>2)" by (simp add: sum_nonneg)
  also have "\<dots> = ?B - 2 * t * ?S + t\<^sup>2 * ?A"
    by (simp add: power2_diff sum.distrib sum_subtractf sum_distrib_left power_mult_distrib
        algebra_simps)
  also have "\<dots> = ?B - ?S\<^sup>2 / ?A"
    using A by (simp add: t_def power2_eq_square field_simps)
  finally have "?S\<^sup>2 / ?A \<le> ?B" by simp
  with A show ?thesis by (simp add: pos_divide_le_eq mult.commute)
qed

lemma sum_sq_nonneg: "0 \<le> sum_sq xs"
  by (simp add: sum_sq_def sum_nonneg)

lemma abs_le_sqrt_of_sq_le: "s\<^sup>2 \<le> p \<Longrightarrow> \<bar>s\<bar> \<le> sqrt p"
  using real_sqrt_le_mono [of "s\<^sup>2" p] by simp

lemma ccoeff_normed_same_len:
  assumes "length tn = length gn"
  shows "np_correlate gn tn = [\<Sum>n<length tn. tn ! n * gn ! n]"
  using assms by (simp add: np_correlate_def correlate_valid_same_len mult.commute)

text \<open>C19: every score of two equally sized patches that is not NaN lies in [-1, 1] (Cauchy-Schwarz on the standardised patches).\<close>

theorem ccoeff_normed_bounded:
  assumes "ccoeff_normed template target = Inr cs" and "length template = length target"
    and "Some c \<in> set cs"
  shows "\<bar>c\<bar> \<le> 1"
proof -
  obtain tn gn where tn: "standardize template = Some tn" and gn: "standardize target = Some gn"
    using assms(1,3) by (auto simp: ccoeff_normed_def Let_def split: if_splits option.splits)
  have len: "length tn = length gn"
    using assms(2) tn gn by (simp add: length_standardize)
  let ?S = "\<Sum>n<length tn. tn ! n * gn ! n" and ?q = "sqrt (sum_sq tn * sum_sq gn)"
  from assms(1,3) tn gn len have c: "c = ?S / ?q"
    by (auto simp: ccoeff_normed_def Let_def ccoeff_normed_same_len split: if_splits)
  have "?S\<^sup>2 \<le> sum_sq tn * sum_sq gn"
    using cauchy_schwarz_sum [of "(!) tn" "(!) gn" "{..<length tn}"] len
    by (simp add: sum_sq_def)
  then have le: "\<bar>?S\<bar> \<le> ?q" by (rule abs_le_sqrt_of_sq_le)
  show ?thesis
  proof (cases "?q = 0")
    case True
    then have "c = ?S / 0" by (simp only: c)
    then show ?thesis by simp
  next
    case False
    have "0 \<le> sum_sq tn * sum_sq gn" by (simp add: sum_sq_nonneg)
    then have "0 \<le> ?q" by simp
    with False have "0 < ?q" by (metis order_le_neq_trans)
    with le show ?thesis by (simp add: c abs_divide divide_le_eq_1_pos)
  qed
qed

lemmas ccoeff_eval = ccoeff_normed_def standardize_def np_std_def np_mean_def
  np_correlate_def correlate_valid_def sum_sq_def

lemma np_mean_replicate: "0 < n \<Longrightarrow> np_mean (replicate n c) = c"
  by (simp add: np_mean_def sum_list_replicate)

lemma np_std_replicate: "np_std (replicate n c) = 0"
proof (cases "n = 0")
  case True
  then show ?thesis by (simp add: np_std_def np_mean_def)
next
  case False
  then have "map (\<lambda>x. (x - np_mean (replicate n c))\<^sup>2) (replicate n c) = replicate n 0"
    by (simp add: np_mean_replicate)
  then show ?thesis by (simp add: np_std_def np_mean_def sum_list_replicate)
qed

text \<open>C20: a zero-variance patch (for instance a uniform colour) gives NaN: the result is the all-NaN array, and the threshold test on it never reports a match; nothing is raised.\<close>

theorem ccoeff_normed_degenerate:
  assumes "template \<noteq> []" and "target \<noteq> []" and "np_std template = 0 \<or> np_std target = 0"
  shows "ccoeff_normed template target =
           Inr (replicate (valid_len (length target) (length template)) None) \<and>
         coef_exceeds (replicate (valid_len (length target) (length template)) None) thr \<noteq> Inr True"
proof
  show "ccoeff_normed template target =
      Inr (replicate (valid_len (length target) (length template)) None)"
    using assms by (auto simp: ccoeff_normed_def Let_def standardize_None split: option.splits)
  show "coef_exceeds (replicate (valid_len (length target) (length template)) None) thr \<noteq> Inr True"
    by (auto simp: coef_exceeds_def valid_len_def split: list.splits)
qed

text \<open>C31: two non-empty patches of different sizes (a sampling rectangle clipped at the frame edge) give a correlation array of two or more elements, and the threshold test \<open>coef > self.threshold\<close> then raises ValueError.\<close>

theorem ccoeff_size_mismatch:
  assumes "template \<noteq> []" and "target \<noteq> []" and "length template \<noteq> length target"
  shows "\<exists>cs. ccoeff_normed template target = Inr cs \<and> coef_exceeds cs thr = Inl ValueError"
proof -
  obtain cs where cs: "ccoeff_normed template target = Inr cs"
    using assms(1,2)
    by (cases "standardize template"; cases "standardize target") (auto simp: ccoeff_normed_def Let_def)
  then have "length cs = valid_len (length target) (length template)"
    by (rule ccoeff_normed_length)
  with assms(3) have "2 \<le> length cs" by (auto simp: valid_len_def)
  then have "coef_exceeds cs thr = Inl ValueError"
    by (auto simp: coef_exceeds_def split: list.splits)
  with cs show ?thesis by blast
qed

theorem ccoeff_normed_bounded_witness:
  "ccoeff_normed [0, 2] [2, 0] = Inr [Some (-1)] \<and> length [0, 2::real] = length [2, 0::real] \<and>
   Some (-1) \<in> set [Some (-1::real)] \<and> \<bar>-1::real\<bar> \<le> 1"
proof -
  have eq: "ccoeff_normed [0, 2] [2, 0] = Inr [Some (-1)]" by (simp add: ccoeff_eval)
  show ?thesis using ccoeff_normed_bounded [OF eq, of "-1"] eq by simp
qed

theorem ccoeff_normed_degenerate_witness:
  "ccoeff_normed [3, 3] [1, 2] = Inr [None] \<and> coef_exceeds [None] 0.9 \<noteq> Inr True"
proof -
  have "np_std [3, 3] = 0" by (simp add: np_std_def np_mean_def)
  then show ?thesis
    using ccoeff_normed_degenerate [of "[3, 3]" "[1, 2]" "0.9"] by (simp add: valid_len_def)
qed

theorem ccoeff_size_mismatch_witness:
  "\<exists>cs. ccoeff_normed [1, 2] [1, 2, 3] = Inr cs \<and> coef_exceeds cs 0.9 = Inl ValueError"
  using ccoeff_size_mismatch [of "[1, 2]" "[1, 2, 3]" "0.9"] by simp


end
