(* ===== verification/Classifier.thy ===== *)
theory Classifier
  imports Bot
begin

text \<open>
  The tile classifier and the patch sampler of \<open>src/bot_adb.py\<close>.
  A frame is the array \<open>np.array(im)[:, :, :3]\<close> returned by \<open>Bot.screenshot\<close>
  (lines 56--59): \<open>fr_h\<close> rows of \<open>fr_w\<close> pixels, each three \<open>uint8\<close> channels.
  \<^item> \<open>frame_at img y x\<close> is \<open>img[y, x]\<close>: numpy indexing, negative indices counting from
    the end, \<open>IndexError\<close> outside the array;
  \<^item> \<open>is_empty\<close> (lines 72--75) samples the pixel at the tile's centre and compares it
    exactly with the reference colours \<open>self.empty_colors\<close>;
  \<^item> \<open>frame_slice img y0 y1 x0 x1\<close> is \<open>img[y0:y1, x0:x1]\<close> flattened in numpy's order
    (row, column, channel), read as reals; slicing clips at the array's edges and never
    raises;
  \<^item> \<open>tile_patch\<close> is the square \<open>img[y - offset : y + offset, x - offset : x + offset]\<close>
    around a tile's centre (lines 82--83 and 89--90).
  \<open>frame_covers\<close> says that a tile's whole sampling rectangle lies inside the frame.
\<close>

record frame =
  fr_h :: nat
  fr_w :: nat
  fr_px :: "nat \<Rightarrow> nat \<Rightarrow> rgb"

definition frame_at :: "frame \<Rightarrow> int \<Rightarrow> int \<Rightarrow> py_error + rgb" where
  "frame_at img y x =
     (case py_index (fr_h img) y of
        Inl e \<Rightarrow> Inl e
      | Inr r \<Rightarrow> (case py_index (fr_w img) x of Inl e \<Rightarrow> Inl e | Inr c \<Rightarrow> Inr (fr_px img r c)))"

definition is_empty :: "'a bot_scheme \<Rightarrow> tile \<Rightarrow> frame \<Rightarrow> py_error + bool" where
  "is_empty self tile img =
     (case index_to_pixel tile of
        (x, y) \<Rightarrow>
          (case frame_at img y x of
             Inl e \<Rightarrow> Inl e
           | Inr tile_color \<Rightarrow> Inr (list_ex (\<lambda>color. tile_color = color) (empty_colors self))))"

definition rgb_channels :: "rgb \<Rightarrow> real list" where
  "rgb_channels p = (case p of (r, g, b) \<Rightarrow> [real (unat r), real (unat g), real (unat b)])"

definition frame_slice :: "frame \<Rightarrow> int \<Rightarrow> int \<Rightarrow> int \<Rightarrow> int \<Rightarrow> real list" where
  "frame_slice img y0 y1 x0 x1 =
     concat [rgb_channels (fr_px img r c). r \<leftarrow> py_slice_idx (fr_h img) y0 y1,
                                           c \<leftarrow> py_slice_idx (fr_w img) x0 x1]"

definition tile_patch :: "'a bot_scheme \<Rightarrow> tile \<Rightarrow> frame \<Rightarrow> real list" where
  "tile_patch self tile img =
     (case index_to_pixel tile of
        (x, y) \<Rightarrow> frame_slice img (y - offset self) (y + offset self) (x - offset self) (x + offset self))"

definition frame_covers :: "frame \<Rightarrow> int \<Rightarrow> tile \<Rightarrow> bool" where
  "frame_covers img off tile \<longleftrightarrow>
     (case index_to_pixel tile of
        (x, y) \<Rightarrow> 0 \<le> y - off \<and> y + off \<le> int (fr_h img) \<and> 0 \<le> x - off \<and> x + off \<le> int (fr_w img))"

subsection \<open>Reading pixels\<close>

lemma frame_at_in:
  "0 \<le> y \<Longrightarrow> y < int (fr_h img) \<Longrightarrow> 0 \<le> x \<Longrightarrow> x < int (fr_w img) \<Longrightarrow>
   frame_at img y x = Inr (fr_px img (nat y) (nat x))"
  by (simp add: frame_at_def py_index_in)

lemma frame_at_nonneg_Inl:
  "0 \<le> y \<Longrightarrow> 0 \<le> x \<Longrightarrow>
   (\<exists>e. frame_at img y x = Inl e) \<longleftrightarrow> int (fr_h img) \<le> y \<or> int (fr_w img) \<le> x"
  by (auto simp: frame_at_def py_index_def split: sum.splits)

lemma frame_at_Inl: "frame_at img y x = Inl e \<Longrightarrow> e = IndexError"
  by (auto simp: frame_at_def py_index_def split: sum.splits if_splits)

lemma length_rgb_channels [simp]: "length (rgb_channels p) = 3"
  by (simp add: rgb_channels_def split: prod.splits)

lemma length_concat_grid:
  assumes "\<And>r c. length (f r c) = k"
  shows "length (concat [f r c. r \<leftarrow> R, c \<leftarrow> C]) = k * length R * length C"
  using assms by (induction R) (simp_all add: length_concat comp_def sum_list_triv algebra_simps)

lemma length_frame_slice:
  "length (frame_slice img y0 y1 x0 x1) =
     3 * length (py_slice_idx (fr_h img) y0 y1) * length (py_slice_idx (fr_w img) x0 x1)"
  unfolding frame_slice_def by (rule length_concat_grid) simp

lemma list_ex_eq_member [simp]: "list_ex (\<lambda>c. p = c) cs \<longleftrightarrow> p \<in> set cs"
  by (auto simp: list_ex_iff)

subsection \<open>The classifier inside the frame\<close>

lemma is_empty_at_centre:
  assumes "index_to_pixel t = (x, y)" and "0 \<le> x" and "0 \<le> y"
    and "y < int (fr_h img)" and "x < int (fr_w img)"
  shows "is_empty self t img = Inr (fr_px img (nat y) (nat x) \<in> set (empty_colors self))"
  using assms by (simp add: is_empty_def frame_at_in)

lemma frame_covers_centre:
  assumes "frame_covers img off t" and "0 < off" and "index_to_pixel t = (x, y)"
  shows "0 \<le> x \<and> 0 \<le> y \<and> y < int (fr_h img) \<and> x < int (fr_w img)"
  using assms by (simp add: frame_covers_def)

lemma is_empty_covered:
  assumes "frame_covers img (offset self) t" and "0 < offset self"
  shows "\<exists>b. is_empty self t img = Inr b"
proof -
  obtain x y where xy: "index_to_pixel t = (x, y)" by fastforce
  with frame_covers_centre [OF assms xy] show ?thesis
    by (simp add: is_empty_at_centre [OF xy])
qed

lemma tile_patch_covered:
  assumes "frame_covers img off t" and "offset self = off" and "0 \<le> off"
    and "index_to_pixel t = (x, y)"
  shows "tile_patch self t img =
    concat [rgb_channels (fr_px img r c). r \<leftarrow> [nat (y - off)..<nat (y + off)],
                                          c \<leftarrow> [nat (x - off)..<nat (x + off)]]"
proof -
  have "py_slice_idx (fr_h img) (y - off) (y + off) = [nat (y - off)..<nat (y + off)]"
    and "py_slice_idx (fr_w img) (x - off) (x + off) = [nat (x - off)..<nat (x + off)]"
    using assms by (auto simp: frame_covers_def intro!: py_slice_idx_in)
  then show ?thesis using assms(2,4) by (simp add: tile_patch_def frame_slice_def)
qed

lemma length_tile_patch:
  assumes "frame_covers img (offset self) t" and "0 \<le> offset self"
  shows "int (length (tile_patch self t img)) = 12 * (offset self)\<^sup>2"
proof -
  obtain x y where xy: "index_to_pixel t = (x, y)" by fastforce
  let ?o = "offset self"
  have "int (length (py_slice_idx (fr_h img) (y - ?o) (y + ?o))) = 2 * ?o"
    and "int (length (py_slice_idx (fr_w img) (x - ?o) (x + ?o))) = 2 * ?o"
    using assms xy by (simp_all add: frame_covers_def length_py_slice_idx_in)
  then show ?thesis
    using xy by (simp add: tile_patch_def length_frame_slice power2_eq_square)
qed

lemma rgb_channels_range: "v \<in> set (rgb_channels p) \<Longrightarrow> v \<in> real ` {0..255}"
proof -
  have w: "real (unat (w :: 8 word)) \<in> real ` {0..255}" for w
    using unsigned_less [of w, where ?'a = nat] by (intro imageI) simp
  obtain r g b where p: "p = (r, g, b)" by (cases p) auto
  assume "v \<in> set (rgb_channels p)"
  then have "v = real (unat r) \<or> v = real (unat g) \<or> v = real (unat b)"
    by (simp only: p rgb_channels_def prod.case list.set insert_iff empty_iff) blast
  then show ?thesis using w by blast
qed

lemma tile_patch_range: "v \<in> set (tile_patch self t img) \<Longrightarrow> v \<in> real ` {0..255}"
  by (auto simp: tile_patch_def frame_slice_def split: prod.splits dest: rgb_channels_range)

lemma is_empty_outside:
  assumes "on_grid t" and "index_to_pixel t = (x, y)" and "int (fr_h img) \<le> y \<or> int (fr_w img) \<le> x"
  shows "is_empty self t img = Inl IndexError"
proof -
  have "0 \<le> x" "0 \<le> y" using index_to_pixel_lower [OF assms(1)] assms(2) by simp_all
  then show ?thesis using assms(2,3) by (auto simp: is_empty_def frame_at_def py_index_def)
qed

subsection \<open>Properties of the classifier\<close>

text \<open>C29: for a grid position whose pixel centre lies inside the frame, \<open>is_empty\<close> raises
  nothing and reports exactly whether the centre pixel equals one of the reference colours
  of an empty slot (exact RGB equality, no tolerance).\<close>

theorem is_empty_exact:
  assumes "on_grid t" and "index_to_pixel t = (x, y)"
    and "y < int (fr_h img)" and "x < int (fr_w img)"
  shows "is_empty self t img = Inr (fr_px img (nat y) (nat x) \<in> set (empty_colors self))"
proof -
  have "0 \<le> x" and "0 \<le> y"
    using index_to_pixel_lower [OF assms(1)] assms(2) by simp_all
  then show ?thesis by (rule is_empty_at_centre [OF assms(2) _ _ assms(3,4)])
qed

theorem is_empty_exact_witness:
  "is_empty \<lparr>station_cap = 5, station_uses = 1, station_tiles = [], uses = 5, rows = 1, cols = 9,
      offset = 10, empty_colors = [(223, 190, 164), (234, 208, 178)], threshold = 0.9,
      item_tiles = [(0, 0)], running = False\<rparr>
     (0, 0) \<lparr>fr_h = 300, fr_w = 600, fr_px = (\<lambda>_ _. (223, 190, 164))\<rparr> = Inr True"
proof -
  let ?b = "\<lparr>station_cap = 5, station_uses = 1, station_tiles = [], uses = 5, rows = 1, cols = 9,
      offset = 10, empty_colors = [(223, 190, 164), (234, 208, 178)], threshold = 0.9,
      item_tiles = [(0::int, 0::int)], running = False\<rparr>"
  let ?img = "\<lparr>fr_h = 300, fr_w = 600, fr_px = (\<lambda>_ _. (223::8 word, 190::8 word, 164::8 word))\<rparr>"
  have "index_to_pixel (0, 0) = (501, 262)" by (simp add: index_to_pixel_closed)
  then have "is_empty ?b (0, 0) ?img = Inr (fr_px ?img 262 501 \<in> set (empty_colors ?b))"
    using is_empty_exact [where t = "(0, 0)" and x = 501 and y = 262 and img = ?img and self = ?b]
    by (simp add: on_grid_def)
  then show ?thesis by simp
qed

text \<open>C30: for a grid position, \<open>is_empty\<close> raises exactly when the pixel centre lies
  outside the frame (below its last row or right of its last column), and what it raises
  is then IndexError.\<close>

theorem is_empty_error:
  assumes "on_grid t" and "index_to_pixel t = (x, y)"
  shows "((\<exists>e. is_empty self t img = Inl e) \<longleftrightarrow> int (fr_h img) \<le> y \<or> int (fr_w img) \<le> x) \<and>
         (\<forall>e. is_empty self t img = Inl e \<longrightarrow> e = IndexError)"
proof
  have nn: "0 \<le> x" "0 \<le> y"
    using index_to_pixel_lower [OF assms(1)] assms(2) by simp_all
  have "(\<exists>e. is_empty self t img = Inl e) \<longleftrightarrow> (\<exists>e. frame_at img y x = Inl e)"
    using assms(2) by (auto simp: is_empty_def split: sum.splits)
  then show "(\<exists>e. is_empty self t img = Inl e) \<longleftrightarrow> int (fr_h img) \<le> y \<or> int (fr_w img) \<le> x"
    using frame_at_nonneg_Inl [OF nn(2,1)] by simp
  show "\<forall>e. is_empty self t img = Inl e \<longrightarrow> e = IndexError"
    using assms(2) by (auto simp: is_empty_def frame_at_Inl split: sum.splits)
qed

theorem is_empty_error_witness:
  "is_empty \<lparr>station_cap = 5, station_uses = 1, station_tiles = [], uses = 5, rows = 1, cols = 9,
      offset = 10, empty_colors = [(223, 190, 164), (234, 208, 178)], threshold = 0.9,
      item_tiles = [(0, 0)], running = False\<rparr>
     (0, 0) \<lparr>fr_h = 100, fr_w = 100, fr_px = (\<lambda>_ _. (223, 190, 164))\<rparr> = Inl IndexError"
proof -
  let ?b = "\<lparr>station_cap = 5, station_uses = 1, station_tiles = [], uses = 5, rows = 1, cols = 9,
      offset = 10, empty_colors = [(223, 190, 164), (234, 208, 178)], threshold = 0.9,
      item_tiles = [(0::int, 0::int)], running = False\<rparr>"
  let ?img = "\<lparr>fr_h = 100, fr_w = 100, fr_px = (\<lambda>_ _. (223::8 word, 190::8 word, 164::8 word))\<rparr>"
  have "index_to_pixel (0, 0) = (501, 262)" by (simp add: index_to_pixel_closed)
  then have "(\<exists>e. is_empty ?b (0, 0) ?img = Inl e) \<and> (\<forall>e. is_empty ?b (0, 0) ?img = Inl e \<longrightarrow> e = IndexError)"
    using is_empty_error [where t = "(0, 0)" and x = 501 and y = 262 and img = ?img and self = ?b]
    by (simp add: on_grid_def)
  then show ?thesis by blast
qed

text \<open>C38: the shape of a sampled patch, as numpy builds it: for a position whose
  sampling rectangle lies in the frame, \<open>img[y-off:y+off, x-off:x+off]\<close> flattens to
  \<open>2 off * 2 off * 3\<close> values, each a channel value of an 8-bit pixel (an integer in
  \<open>0..255\<close>).\<close>

theorem tile_patch_shape:
  assumes "frame_covers img (offset self) t" and "0 \<le> offset self"
  shows "int (length (tile_patch self t img)) = 12 * (offset self)\<^sup>2 \<and>
    (\<forall>v \<in> set (tile_patch self t img). v \<in> real ` {0..255})"
  using length_tile_patch [OF assms] tile_patch_range by blast

theorem tile_patch_shape_witness:
  "frame_covers \<lparr>fr_h = 300, fr_w = 800, fr_px = (\<lambda>r c. (0, 0, 0))\<rparr> 1 (0, 1) \<and>
   length (tile_patch \<lparr>station_cap = 5, station_uses = 1, station_tiles = [], uses = 5, rows = 1,
      cols = 9, offset = 1, empty_colors = [], threshold = 0.9, item_tiles = [], running = False\<rparr>
      (0, 1) \<lparr>fr_h = 300, fr_w = 800, fr_px = (\<lambda>r c. (0, 0, 0))\<rparr>) = 12"
proof -
  let ?b = "\<lparr>station_cap = 5, station_uses = 1, station_tiles = [], uses = 5, rows = 1,
      cols = 9, offset = 1, empty_colors = [], threshold = 0.9, item_tiles = [], running = False\<rparr>"
  let ?img = "\<lparr>fr_h = 300, fr_w = 800, fr_px = (\<lambda>r c. (0::8 word, 0::8 word, 0::8 word))\<rparr>"
  have c: "frame_covers ?img (offset ?b) (0, 1)"
    by (simp add: frame_covers_def index_to_pixel_closed)
  have "int (length (tile_patch ?b (0, 1) ?img)) = 12"
    using tile_patch_shape [OF c] by simp
  with c show ?thesis by simp
qed

end
