(* ===== verification/Matching.thy ===== *)
theory Matching
  imports Classifier Similarity
begin

text \<open>
  The matching engine of \<open>src/bot_adb.py\<close>.
  \<^item> \<open>find_match\<close> (lines 77--99): with \<open>tiles\<close> empty, no match; otherwise the target
    patch is sampled once and the candidates are tried in order (\<open>find_match_loop\<close>):
    an empty candidate is skipped, the others are scored with \<open>ccoeff_normed\<close>, and the
    first whose score exceeds the threshold is returned. Python's \<open>False\<close> is \<open>None\<close>.
  \<^item> \<open>scan\<close> (lines 115--131): the worklist loop of \<open>run\<close>. It pops the first tile, skips
    it if empty, looks for its match among the remaining tiles, and on a match drags the
    match onto the tile and removes the match from the worklist. The result is the list of
    pairs \<open>(match, tile)\<close> in the order of their drags, and the exception that ended the
    pass, if any (drags issued before an exception have happened).
  The loop terminates because every iteration shortens the worklist (\<open>measure\<close> on its
  length; \<open>list.remove\<close> shortens it by one more on a match).
  \<open>probe\<close> is the reference behaviour of one candidate (is it a match?), and
  \<open>pair_tiles\<close> the positions a list of pairs mentions.
  The lemmas show that a pass is sound (no empty slot, no slot twice, first match in
  worklist order), that it raises nothing on a frame holding every sampling rectangle, and
  that it is complete: an exception-free pass leaves no matching pair of unpaired
  non-empty slots (\<open>scan_complete\<close>).
\<close>

fun find_match_loop :: "'a bot_scheme \<Rightarrow> frame \<Rightarrow> real list \<Rightarrow> tile list \<Rightarrow> py_error + tile option" where
  "find_match_loop self img target [] = Inr None"
| "find_match_loop self img target (match_tile # tiles) =
     (case is_empty self match_tile img of
        Inl e \<Rightarrow> Inl e
      | Inr True \<Rightarrow> find_match_loop self img target tiles
      | Inr False \<Rightarrow>
          (let match = tile_patch self match_tile img
           in case ccoeff_normed match target of
                Inl e \<Rightarrow> Inl e
              | Inr coef \<Rightarrow>
                  (case coef_exceeds coef (threshold self) of
                     Inl e \<Rightarrow> Inl e
                   | Inr True \<Rightarrow> Inr (Some match_tile)
                   | Inr False \<Rightarrow> find_match_loop self img target tiles)))"

definition find_match :: "'a bot_scheme \<Rightarrow> tile \<Rightarrow> tile list \<Rightarrow> frame \<Rightarrow> py_error + tile option" where
  "find_match self target_tile tiles img =
     (if tiles = [] then Inr None
      else find_match_loop self img (tile_patch self target_tile img) tiles)"

function scan :: "'a bot_scheme \<Rightarrow> frame \<Rightarrow> tile list \<Rightarrow> (tile \<times> tile) list \<times> py_error option" where
  "scan self img [] = ([], None)"
| "scan self img (tile # tiles) =
     (case is_empty self tile img of
        Inl e \<Rightarrow> ([], Some e)
      | Inr True \<Rightarrow> scan self img tiles
      | Inr False \<Rightarrow>
          (case find_match self tile tiles img of
             Inl e \<Rightarrow> ([], Some e)
           | Inr None \<Rightarrow> scan self img tiles
           | Inr (Some match) \<Rightarrow>
               (case py_remove match tiles of
                  Inl e \<Rightarrow> ([(match, tile)], Some e)
                | Inr tiles' \<Rightarrow>
                    (case scan self img tiles' of (ps, err) \<Rightarrow> ((match, tile) # ps, err)))))"
  by pat_completeness auto
termination
  by (relation "measure (\<lambda>(self, img, tiles). length tiles)") (auto dest: py_remove_length)

definition probe :: "'a bot_scheme \<Rightarrow> frame \<Rightarrow> real list \<Rightarrow> tile \<Rightarrow> py_error + bool" where
  "probe self img target t =
     (case is_empty self t img of
        Inl e \<Rightarrow> Inl e
      | Inr True \<Rightarrow> Inr False
      | Inr False \<Rightarrow>
          (case ccoeff_normed (tile_patch self t img) target of
             Inl e \<Rightarrow> Inl e
           | Inr coef \<Rightarrow> coef_exceeds coef (threshold self)))"

definition pair_tiles :: "(tile \<times> tile) list \<Rightarrow> tile list" where
  "pair_tiles ps = concat (map (\<lambda>(m, t). [m, t]) ps)"

lemma pair_tiles_Nil [simp]: "pair_tiles [] = []"
  and pair_tiles_Cons [simp]: "pair_tiles ((m, t) # ps) = m # t # pair_tiles ps"
  by (simp_all add: pair_tiles_def)

subsection \<open>The candidate loop against the reference\<close>

lemma find_match_loop_Cons:
  "find_match_loop self img target (t # ts) =
     (case probe self img target t of
        Inl e \<Rightarrow> Inl e
      | Inr True \<Rightarrow> Inr (Some t)
      | Inr False \<Rightarrow> find_match_loop self img target ts)"
  by (simp add: probe_def Let_def split: sum.splits bool.splits)

declare find_match_loop.simps(2) [simp del]

lemma find_match_loop_first:
  "find_match_loop self img target tiles = Inr (Some m) \<longleftrightarrow>
     (\<exists>pre post. tiles = pre @ m # post \<and> (\<forall>t \<in> set pre. probe self img target t = Inr False) \<and>
        probe self img target m = Inr True)"
proof (induction tiles)
  case Nil
  then show ?case by simp
next
  case (Cons t ts)
  show ?case
  proof (cases "probe self img target t")
    case (Inl e)
    then show ?thesis by (auto simp: find_match_loop_Cons Cons_eq_append_conv)
  next
    case (Inr b)
    show ?thesis
    proof (cases b)
      case True
      with Inr show ?thesis by (auto simp: find_match_loop_Cons Cons_eq_append_conv)
    next
      case False
      with Inr Cons.IH show ?thesis
        by (auto simp: find_match_loop_Cons Cons_eq_append_conv) (metis append_Cons set_ConsD)
    qed
  qed
qed

lemma probe_True_nonempty: "probe self img target t = Inr True \<Longrightarrow> is_empty self t img = Inr False"
  by (auto simp: probe_def split: sum.splits bool.splits)

lemma find_match_Some:
  assumes "find_match self tile tiles img = Inr (Some m)"
  shows "m \<in> set tiles \<and> is_empty self m img = Inr False"
proof -
  from assms have "tiles \<noteq> []" and "find_match_loop self img (tile_patch self tile img) tiles = Inr (Some m)"
    by (auto simp: find_match_def split: if_splits)
  then obtain pre post where "tiles = pre @ m # post"
    and "probe self img (tile_patch self tile img) m = Inr True"
    by (auto simp: find_match_loop_first)
  then show ?thesis by (auto dest: probe_True_nonempty)
qed

subsection \<open>The pass\<close>

lemma scan_ConsE:
  assumes "scan self img (tile # tiles) = (ps, err)"
  obtains (raised) e where "ps = []" and "err = Some e"
    | (skip) "is_empty self tile img = Inr True" and "scan self img tiles = (ps, err)"
    | (nomatch) "is_empty self tile img = Inr False" and "find_match self tile tiles img = Inr None"
        and "scan self img tiles = (ps, err)"
    | (match) m ps' where "is_empty self tile img = Inr False"
        and "find_match self tile tiles img = Inr (Some m)" and "m \<in> set tiles"
        and "ps = (m, tile) # ps'" and "scan self img (remove1 m tiles) = (ps', err)"
proof (cases "is_empty self tile img")
  case (Inl e)
  with assms show ?thesis by (intro raised [of e]) simp_all
next
  case (Inr b)
  note em = Inr
  show ?thesis
  proof (cases b)
    case True
    with em assms show ?thesis by (intro skip) simp_all
  next
    case False
    with em have em': "is_empty self tile img = Inr False" by simp
    show ?thesis
    proof (cases "find_match self tile tiles img")
      case (Inl e)
      with em' assms show ?thesis by (intro raised [of e]) simp_all
    next
      case (Inr r)
      note fm = Inr
      show ?thesis
      proof (cases r)
        case None
        with em' fm assms show ?thesis by (intro nomatch) simp_all
      next
        case (Some m)
        with fm have m: "m \<in> set tiles" using find_match_Some by blast
        obtain ps' err' where rec: "scan self img (remove1 m tiles) = (ps', err')" by fastforce
        with em' fm Some m assms have "ps = (m, tile) # ps'" and "err' = err"
          by (simp_all add: py_remove_mem)
        with em' fm Some m rec show ?thesis by (intro match) simp_all
      qed
    qed
  qed
qed

lemma scan_pairs_from:
  "scan self img tiles = (ps, err) \<Longrightarrow>
   set (pair_tiles ps) \<subseteq> set tiles \<and>
   (\<forall>(m, t) \<in> set ps. is_empty self m img = Inr False \<and> is_empty self t img = Inr False) \<and>
   2 * length ps \<le> length tiles"
proof (induction "length tiles" arbitrary: tiles ps err rule: less_induct)
  case less
  show ?case
  proof (cases tiles)
    case Nil
    with less.prems show ?thesis by simp
  next
    case (Cons tile ts)
    from less.prems [unfolded Cons] show ?thesis
    proof (cases rule: scan_ConsE)
      case raised
      then show ?thesis by simp
    next
      case skip
      with less.hyps [of ts] Cons show ?thesis by fastforce
    next
      case nomatch
      with less.hyps [of ts] Cons show ?thesis by fastforce
    next
      case (match m ps')
      have len: "length (remove1 m ts) = length ts - 1"
        using match(3) by (simp add: length_remove1)
      have pos: "0 < length ts"
        using match(3) by (rule length_pos_if_in_set)
      have lt: "length (remove1 m ts) < length tiles"
        using len pos Cons by simp
      have IH: "set (pair_tiles ps') \<subseteq> set (remove1 m ts) \<and>
          (\<forall>(m, t) \<in> set ps'. is_empty self m img = Inr False \<and> is_empty self t img = Inr False) \<and>
          2 * length ps' \<le> length (remove1 m ts)"
        by (rule less.hyps [OF lt match(5)])
      have "length ps = Suc (length ps')" and "length tiles = Suc (length ts)"
        using match(4) Cons by simp_all
      then have "2 * length ps \<le> length tiles"
        using IH len pos by linarith
      moreover have "is_empty self m img = Inr False"
        using find_match_Some [OF match(2)] by simp
      ultimately show ?thesis
        using IH match Cons set_remove1_subset [of m ts] by auto
    qed
  qed
qed

lemma scan_distinct:
  "scan self img tiles = (ps, err) \<Longrightarrow> distinct tiles \<Longrightarrow> distinct (pair_tiles ps)"
proof (induction "length tiles" arbitrary: tiles ps err rule: less_induct)
  case less
  show ?case
  proof (cases tiles)
    case Nil
    with less.prems show ?thesis by simp
  next
    case (Cons tile ts)
    from less.prems(1) [unfolded Cons] show ?thesis
    proof (cases rule: scan_ConsE)
      case raised
      then show ?thesis by simp
    next
      case skip
      with less.hyps [of ts] less.prems(2) Cons show ?thesis by simp
    next
      case nomatch
      with less.hyps [of ts] less.prems(2) Cons show ?thesis by simp
    next
      case (match m ps')
      have dts: "distinct ts" and t: "tile \<notin> set ts"
        using less.prems(2) Cons by simp_all
      have lt: "length (remove1 m ts) < length tiles"
        using Cons match(3) by (simp add: length_remove1 less_Suc_eq_le)
      have "distinct (pair_tiles ps')"
        using less.hyps [OF lt match(5)] dts by simp
      moreover have "set (pair_tiles ps') \<subseteq> set ts - {m}"
        using scan_pairs_from [OF match(5)] dts by (simp add: set_remove1_eq)
      ultimately show ?thesis
        using match(3,4) t by auto
    qed
  qed
qed

lemma find_match_loop_no_error:
  assumes "0 < offset self" and "\<forall>t \<in> set tiles. frame_covers img (offset self) t"
    and "int (length target) = 12 * (offset self)\<^sup>2"
  shows "\<exists>r. find_match_loop self img target tiles = Inr r"
  using assms(2)
proof (induction tiles)
  case Nil
  then show ?case by simp
next
  case (Cons t ts)
  have cov: "frame_covers img (offset self) t" using Cons.prems by simp
  obtain b where em: "is_empty self t img = Inr b"
    using is_empty_covered [OF cov assms(1)] by blast
  have len: "length (tile_patch self t img) = length target"
    using length_tile_patch [OF cov] assms(1,3) by simp
  moreover have "target \<noteq> []"
    using assms(1,3) by auto
  ultimately obtain c where "ccoeff_normed (tile_patch self t img) target = Inr [c]"
    using ccoeff_normed_single [of "tile_patch self t img" target] by fastforce
  then obtain b' where "probe self img target t = Inr b'"
    using em by (cases b) (auto simp: probe_def)
  then show ?case
    using Cons by (cases b') (auto simp: find_match_loop_Cons)
qed

lemma find_match_no_error:
  assumes "0 < offset self" and "\<forall>t \<in> set (tile # tiles). frame_covers img (offset self) t"
  shows "\<exists>r. find_match self tile tiles img = Inr r"
proof -
  have "int (length (tile_patch self tile img)) = 12 * (offset self)\<^sup>2"
    using assms by (intro length_tile_patch) simp_all
  then show ?thesis
    using find_match_loop_no_error [OF assms(1)] assms(2) by (simp add: find_match_def)
qed

subsection \<open>A pass does not read the station fields\<close>

lemma is_empty_station_update [simp]:
  "is_empty (self\<lparr>uses := u, station_tiles := q\<rparr>) t img = is_empty self t img"
  by (simp add: is_empty_def split: prod.splits sum.splits)

lemma tile_patch_station_update [simp]:
  "tile_patch (self\<lparr>uses := u, station_tiles := q\<rparr>) t img = tile_patch self t img"
  by (simp add: tile_patch_def)

lemma probe_station_update [simp]:
  "probe (self\<lparr>uses := u, station_tiles := q\<rparr>) img target t = probe self img target t"
  by (simp add: probe_def split: sum.splits bool.splits)

lemma find_match_loop_station_update [simp]:
  "find_match_loop (self\<lparr>uses := u, station_tiles := q\<rparr>) img target ts = find_match_loop self img target ts"
  by (induction ts) (simp_all add: find_match_loop_Cons split: sum.splits bool.splits)

lemma find_match_station_update [simp]:
  "find_match (self\<lparr>uses := u, station_tiles := q\<rparr>) t ts img = find_match self t ts img"
  by (simp add: find_match_def)

lemma scan_station_update [simp]:
  "scan (self\<lparr>uses := u, station_tiles := q\<rparr>) img ts = scan self img ts"
proof (induction "length ts" arbitrary: ts rule: less_induct)
  case less
  show ?case
  proof (cases ts)
    case Nil
    then show ?thesis by simp
  next
    case (Cons t ts')
    have "\<And>m. m \<in> set ts' \<Longrightarrow> scan (self\<lparr>uses := u, station_tiles := q\<rparr>) img (remove1 m ts') =
        scan self img (remove1 m ts')"
      using less Cons by (simp add: length_remove1 less_Suc_eq_le)
    moreover have "scan (self\<lparr>uses := u, station_tiles := q\<rparr>) img ts' = scan self img ts'"
      using less Cons by simp
    ultimately show ?thesis
      using Cons find_match_Some [of self t ts' img]
      by (auto simp: py_remove_mem split: sum.splits bool.splits option.splits)
  qed
qed

subsection \<open>Passes over empty positions\<close>

lemma probe_self_patch:
  assumes "is_empty self m img = Inr False" and "tile_patch self m img = target"
    and "target \<noteq> []" and "np_std target \<noteq> 0" and "threshold self < 1"
  shows "probe self img target m = Inr True"
  using assms by (simp add: probe_def ccoeff_normed_self_one)

lemma probe_empty: "is_empty self t img = Inr True \<Longrightarrow> probe self img target t = Inr False"
  by (simp add: probe_def)

lemma find_match_loop_skip_empty:
  "\<forall>u \<in> set xs. is_empty self u img = Inr True \<Longrightarrow>
   find_match_loop self img target (xs @ ys) = find_match_loop self img target ys"
  by (induction xs) (simp_all add: find_match_loop_Cons probe_empty)

lemma scan_skip_empty:
  "\<forall>u \<in> set xs. is_empty self u img = Inr True \<Longrightarrow> scan self img (xs @ ys) = scan self img ys"
  by (induction xs) simp_all

lemma scan_all_empty:
  "\<forall>u \<in> set ts. is_empty self u img = Inr True \<Longrightarrow> scan self img ts = ([], None)"
  using scan_skip_empty [of ts self img "[]"] by simp

lemma scan_raises:
  assumes "t \<in> set ts" and "is_empty self t img = Inl e0"
  shows "\<exists>e. snd (scan self img ts) = Some e"
  using assms
proof (induction "length ts" arbitrary: ts rule: less_induct)
  case less
  then obtain u us where ts: "ts = u # us" by (cases ts) auto
  show ?case
  proof (cases "is_empty self u img")
    case (Inl e)
    then show ?thesis using ts by simp
  next
    case (Inr b)
    note em = Inr
    with less.prems ts have tu: "t \<noteq> u" "t \<in> set us" by auto
    have ih: "\<exists>e. snd (scan self img vs) = Some e" if "length vs < length ts" "t \<in> set vs" for vs
      using less.hyps that less.prems(2) by blast
    show ?thesis
    proof (cases b)
      case True
      then show ?thesis using em ts ih [of us] tu by simp
    next
      case False
      show ?thesis
      proof (cases "find_match self u us img")
        case (Inl e)
        then show ?thesis using em False ts by simp
      next
        case (Inr r)
        note fm = this
        show ?thesis
        proof (cases r)
          case None
          then show ?thesis using em fm False ts ih [of us] tu by simp
        next
          case (Some m)
          with fm have m: "m \<in> set us" "is_empty self m img = Inr False" using find_match_Some by blast+
          then have "t \<noteq> m" using less.prems(2) by auto
          then have "t \<in> set (remove1 m us)" using tu by simp
          moreover have "length (remove1 m us) < length ts" using m ts by (simp add: length_remove1)
          ultimately obtain e where "snd (scan self img (remove1 m us)) = Some e" using ih by blast
          then show ?thesis using em fm Some False ts m by (auto simp: py_remove_mem split: prod.splits)
        qed
      qed
    qed
  qed
qed

lemma find_match_loop_None:
  "find_match_loop self img target ts = Inr None \<Longrightarrow> t \<in> set ts \<Longrightarrow> probe self img target t = Inr False"
proof (induction ts)
  case Nil
  then show ?case by simp
next
  case (Cons u us)
  then show ?case
    by (cases "probe self img target u") (auto simp: find_match_loop_Cons split: bool.splits if_splits)
qed

lemma remove1_keeps_order:
  assumes "us = xs @ a # ys" and "b \<in> set ys" and "m \<noteq> a" and "m \<noteq> b"
  shows "\<exists>xs' ys'. remove1 m us = xs' @ a # ys' \<and> b \<in> set ys'"
proof (cases "m \<in> set xs")
  case True
  with assms show ?thesis by (auto simp: remove1_append)
next
  case False
  with assms show ?thesis by (intro exI [where x = xs] exI [where x = "remove1 m ys"]) (simp add: remove1_append)
qed

lemma scan_unpaired_no_match:
  assumes "scan self img ts = (ps, None)" and "ts = xs @ a # ys" and "b \<in> set ys"
    and "a \<notin> set (pair_tiles ps)" and "b \<notin> set (pair_tiles ps)"
    and "is_empty self a img = Inr False" and "is_empty self b img = Inr False"
  shows "probe self img (tile_patch self a img) b = Inr False"
  using assms
proof (induction "length ts" arbitrary: ts ps xs ys rule: less_induct)
  case less
  obtain u us where ts: "ts = u # us" using less.prems(2) by (cases xs) auto
  have ih: "\<And>vs ps' xs' ys'. length vs < length ts \<Longrightarrow> scan self img vs = (ps', None) \<Longrightarrow>
      vs = xs' @ a # ys' \<Longrightarrow> b \<in> set ys' \<Longrightarrow> a \<notin> set (pair_tiles ps') \<Longrightarrow> b \<notin> set (pair_tiles ps') \<Longrightarrow>
      probe self img (tile_patch self a img) b = Inr False"
    using less.hyps less.prems(6,7) by blast
  have sc: "scan self img (u # us) = (ps, None)" using less.prems(1) ts by simp
  from sc show ?case
  proof (cases rule: scan_ConsE)
    case raised
    then show ?thesis by simp
  next
    case skip
    then have "u \<noteq> a" using less.prems(6) by auto
    then obtain xs' where "us = xs' @ a # ys" using less.prems(2) ts by (cases xs) auto
    with skip show ?thesis using ih [of us ps xs' ys] ts less.prems(3-5) by simp
  next
    case nomatch
    show ?thesis
    proof (cases "u = a")
      case True
      have "b \<in> set us" using less.prems(2,3) ts by (cases xs) auto
      then have "us \<noteq> []" by auto
      with nomatch True have "find_match_loop self img (tile_patch self a img) us = Inr None"
        by (simp add: find_match_def)
      then show ?thesis using find_match_loop_None \<open>b \<in> set us\<close> by blast
    next
      case False
      then obtain xs' where "us = xs' @ a # ys" using less.prems(2) ts by (cases xs) auto
      with nomatch show ?thesis using ih [of us ps xs' ys] ts less.prems(3-5) by simp
    qed
  next
    case (match m ps')
    have "u \<noteq> a" "m \<noteq> a" "m \<noteq> b" using match(4) less.prems(4,5) by auto
    then obtain xs' where us: "us = xs' @ a # ys" using less.prems(2) ts by (cases xs) auto
    obtain xs'' ys'' where r: "remove1 m us = xs'' @ a # ys''" "b \<in> set ys''"
      using remove1_keeps_order [OF us less.prems(3) \<open>m \<noteq> a\<close> \<open>m \<noteq> b\<close>] by blast
    have "length (remove1 m us) < length ts" using match(3) ts by (simp add: length_remove1)
    then show ?thesis using ih [OF _ _ r(1) r(2)] match less.prems(4,5) by simp
  qed
qed
subsection \<open>A concrete pass\<close>

text \<open>The rules that evaluate a pass on a concrete frame, and one such pass: a frame of
  vertical stripes, offset 1, and two tiles whose 2-by-2 patches are equal; the pass pairs
  them.\<close>

lemmas scan_eval = index_to_pixel_closed is_empty_def frame_at_def py_index_def find_match_def
  find_match_loop.simps(2) tile_patch_def frame_slice_def py_slice_idx_def py_slice_bound_def
  rgb_channels_def ccoeff_eval py_remove_def upt_rec probe_def frame_covers_def

lemma scan_stripes:
  "scan \<lparr>station_cap = 5, station_uses = 1, station_tiles = [], uses = 5, rows = 1, cols = 9,
      offset = 1, empty_colors = [(223, 190, 164), (234, 208, 178)], threshold = 0.9,
      item_tiles = [(0, 1), (0, 2)], running = False\<rparr>
     \<lparr>fr_h = 300, fr_w = 800, fr_px = (\<lambda>r c. if even c then (0, 0, 0) else (2, 2, 2))\<rparr>
     [(0, 1), (0, 2)] = ([((0, 2), (0, 1))], None)"
  by (simp add: scan_eval)

subsection \<open>Properties of the matching engine\<close>

text \<open>C1: a pass never reports a pairing that involves a position the classifier marks
  empty: both the dragged tile and its target were classified non-empty in this frame.\<close>

theorem scan_never_pairs_empty:
  assumes "scan self img tiles = (ps, err)" and "(m, t) \<in> set ps"
  shows "is_empty self m img = Inr False \<and> is_empty self t img = Inr False"
  using scan_pairs_from [OF assms(1)] assms(2) by auto

theorem scan_never_pairs_empty_witness:
  "is_empty \<lparr>station_cap = 5, station_uses = 1, station_tiles = [], uses = 5, rows = 1, cols = 9,
      offset = 1, empty_colors = [(223, 190, 164), (234, 208, 178)], threshold = 0.9,
      item_tiles = [(0, 1), (0, 2)], running = False\<rparr> (0, 2)
     \<lparr>fr_h = 300, fr_w = 800, fr_px = (\<lambda>r c. if even c then (0, 0, 0) else (2, 2, 2))\<rparr> = Inr False"
  using scan_never_pairs_empty [OF scan_stripes, of "(0, 2)" "(0, 1)"] by simp

text \<open>C2: over a worklist without repetitions (as \<open>item_tiles\<close> is), a pass never reports
  a position in more than one pairing, and never pairs a position with itself: the
  positions of all reported pairs are pairwise distinct, and all come from the worklist.\<close>

theorem scan_pairs_disjoint:
  assumes "scan self img tiles = (ps, err)" and "distinct tiles"
  shows "distinct (pair_tiles ps) \<and> set (pair_tiles ps) \<subseteq> set tiles"
  using scan_distinct [OF assms] scan_pairs_from [OF assms(1)] by simp

theorem scan_pairs_disjoint_witness:
  "distinct (pair_tiles [((0, 2), (0, 1))]) \<and> set (pair_tiles [((0, 2), (0, 1))]) \<subseteq> set [(0::int, 1::int), (0, 2)]"
  using scan_pairs_disjoint [OF scan_stripes] by simp

text \<open>C3: \<open>find_match\<close> is first-match, in worklist order: it returns \<open>m\<close> exactly when
  \<open>m\<close> is a candidate that is non-empty and scores above the threshold, and every
  candidate before it is empty or scores at most the threshold (none raising).\<close>

theorem find_match_first:
  "find_match self tile tiles img = Inr (Some m) \<longleftrightarrow>
     (\<exists>pre post. tiles = pre @ m # post \<and>
        (\<forall>t \<in> set pre. probe self img (tile_patch self tile img) t = Inr False) \<and>
        probe self img (tile_patch self tile img) m = Inr True)"
  by (cases tiles) (simp_all add: find_match_def find_match_loop_first)

theorem find_match_first_witness:
  "probe \<lparr>station_cap = 5, station_uses = 1, station_tiles = [], uses = 5, rows = 1, cols = 9,
      offset = 1, empty_colors = [(223, 190, 164), (234, 208, 178)], threshold = 0.9,
      item_tiles = [(0, 1), (0, 2)], running = False\<rparr>
     \<lparr>fr_h = 300, fr_w = 800, fr_px = (\<lambda>r c. if even c then (0, 0, 0) else (2, 2, 2))\<rparr>
     [2, 2, 2, 0, 0, 0, 2, 2, 2, 0, 0, 0] (0, 2) = Inr True"
proof -
  let ?b = "\<lparr>station_cap = 5, station_uses = 1, station_tiles = [], uses = 5, rows = 1, cols = 9,
      offset = 1, empty_colors = [(223::8 word, 190::8 word, 164::8 word), (234, 208, 178)],
      threshold = 0.9, item_tiles = [(0::int, 1::int), (0, 2)], running = False\<rparr>"
  let ?img = "\<lparr>fr_h = 300, fr_w = 800,
      fr_px = (\<lambda>r c. if even c then (0::8 word, 0::8 word, 0::8 word) else (2, 2, 2))\<rparr>"
  have patch: "tile_patch ?b (0, 1) ?img = [2, 2, 2, 0, 0, 0, 2, 2, 2, 0, 0, 0]"
    by (simp add: scan_eval)
  have "find_match ?b (0, 1) [(0, 2)] ?img = Inr (Some (0, 2))"
    by (simp add: scan_eval)
  then show ?thesis
    using find_match_first [of ?b "(0, 1)" "[(0, 2)]" ?img "(0, 2)"] patch
    by (auto simp: Cons_eq_append_conv)
qed

text \<open>C27: when the frame contains the whole sampling rectangle of every position of the
  worklist (and the offset is positive), a pass raises nothing: no IndexError from the
  classifier, no ValueError from the correlation or its threshold test, and the match
  removed from the worklist is always in it.\<close>

theorem scan_no_error:
  assumes "0 < offset self" and "\<forall>t \<in> set tiles. frame_covers img (offset self) t"
  shows "snd (scan self img tiles) = None"
  using assms(2)
proof (induction "length tiles" arbitrary: tiles rule: less_induct)
  case less
  show ?case
  proof (cases tiles)
    case Nil
    then show ?thesis by simp
  next
    case (Cons tile ts)
    obtain b where em: "is_empty self tile img = Inr b"
      using is_empty_covered [of img self tile] less.prems assms(1) Cons by auto
    obtain r where fm: "find_match self tile ts img = Inr r"
      using find_match_no_error [OF assms(1)] less.prems Cons by blast
    have IHts: "snd (scan self img ts) = None"
      using less.hyps [of ts] less.prems Cons by simp
    show ?thesis
    proof (cases "b \<or> r = None")
      case True
      with em fm IHts Cons show ?thesis by (cases b) (auto split: prod.splits)
    next
      case False
      then obtain m where b: "\<not> b" and r: "r = Some m" by auto
      with fm b em have m: "m \<in> set ts" using find_match_Some [of self tile ts img m] by simp
      have lt: "length (remove1 m ts) < length tiles"
        using Cons m by (simp add: length_remove1 less_Suc_eq_le)
      have "\<forall>t \<in> set (remove1 m ts). frame_covers img (offset self) t"
        using less.prems Cons set_remove1_subset [of m ts] by auto
      then have "snd (scan self img (remove1 m ts)) = None"
        by (rule less.hyps [OF lt])
      with em fm b r m Cons show ?thesis by (auto simp: py_remove_mem split: prod.splits)
    qed
  qed
qed

theorem scan_no_error_witness:
  "snd (scan \<lparr>station_cap = 5, station_uses = 1, station_tiles = [], uses = 5, rows = 1, cols = 9,
      offset = 1, empty_colors = [(223, 190, 164), (234, 208, 178)], threshold = 0.9,
      item_tiles = [(0, 1), (0, 2)], running = False\<rparr>
     \<lparr>fr_h = 300, fr_w = 800, fr_px = (\<lambda>r c. if even c then (0, 0, 0) else (2, 2, 2))\<rparr>
     [(0, 1), (0, 2)]) = None"
proof -
  let ?b = "\<lparr>station_cap = 5, station_uses = 1, station_tiles = [], uses = 5, rows = 1, cols = 9,
      offset = 1, empty_colors = [(223::8 word, 190::8 word, 164::8 word), (234, 208, 178)],
      threshold = 0.9, item_tiles = [(0::int, 1::int), (0, 2)], running = False\<rparr>"
  let ?img = "\<lparr>fr_h = 300, fr_w = 800,
      fr_px = (\<lambda>r c. if even c then (0::8 word, 0::8 word, 0::8 word) else (2, 2, 2))\<rparr>"
  have "\<forall>t \<in> set [(0, 1), (0, 2)]. frame_covers ?img (offset ?b) t"
    by (simp add: scan_eval)
  then show ?thesis using scan_no_error [of ?b "[(0, 1), (0, 2)]" ?img] by simp
qed

text \<open>C12: the greedy pass is complete for what it leaves behind: when a pass ends without
  an exception, no two positions it left unpaired and both non-empty match in worklist
  order (the earlier one, as target, does not accept the later one as a candidate). In
  particular a pass that reports no pair certifies that no such pair exists: the board is
  static, as the specification's fallback assumes.\<close>

theorem scan_complete:
  assumes "scan self img ts = (ps, None)" and "ts = xs @ a # ys" and "b \<in> set ys"
    and "a \<notin> set (pair_tiles ps)" and "b \<notin> set (pair_tiles ps)"
    and "is_empty self a img = Inr False" and "is_empty self b img = Inr False"
  shows "probe self img (tile_patch self a img) b = Inr False"
  using assms by (rule scan_unpaired_no_match)

theorem scan_complete_witness:
  "scan \<lparr>station_cap = 5, station_uses = 1, station_tiles = [], uses = 5, rows = 1, cols = 9,
      offset = 1, empty_colors = [(223, 190, 164), (234, 208, 178)], threshold = 0.9,
      item_tiles = [(0, 1), (0, 2)], running = False\<rparr>
     \<lparr>fr_h = 300, fr_w = 800, fr_px = (\<lambda>r c. (0, 0, 0))\<rparr> [(0, 1), (0, 2)] = ([], None) \<and>
   probe \<lparr>station_cap = 5, station_uses = 1, station_tiles = [], uses = 5, rows = 1, cols = 9,
      offset = 1, empty_colors = [(223, 190, 164), (234, 208, 178)], threshold = 0.9,
      item_tiles = [(0, 1), (0, 2)], running = False\<rparr>
     \<lparr>fr_h = 300, fr_w = 800, fr_px = (\<lambda>r c. (0, 0, 0))\<rparr>
     (tile_patch \<lparr>station_cap = 5, station_uses = 1, station_tiles = [], uses = 5, rows = 1, cols = 9,
      offset = 1, empty_colors = [(223, 190, 164), (234, 208, 178)], threshold = 0.9,
      item_tiles = [(0, 1), (0, 2)], running = False\<rparr> (0, 1)
      \<lparr>fr_h = 300, fr_w = 800, fr_px = (\<lambda>r c. (0, 0, 0))\<rparr>) (0, 2) = Inr False"
proof -
  let ?b = "\<lparr>station_cap = 5, station_uses = 1, station_tiles = [], uses = 5, rows = 1, cols = 9,
      offset = 1, empty_colors = [(223::8 word, 190::8 word, 164::8 word), (234, 208, 178)], threshold = 0.9,
      item_tiles = [(0::int, 1::int), (0, 2)], running = False\<rparr>"
  let ?img = "\<lparr>fr_h = 300, fr_w = 800, fr_px = (\<lambda>r c. (0::8 word, 0::8 word, 0::8 word))\<rparr>"
  have sc: "scan ?b ?img [(0, 1), (0, 2)] = ([], None)" by (simp add: scan_eval valid_len_def)
  have e: "is_empty ?b (0, 1) ?img = Inr False" "is_empty ?b (0, 2) ?img = Inr False"
    by (simp_all add: scan_eval)
  from scan_complete [OF sc, of "[]" "(0, 1)" "[(0, 2)]" "(0, 2)"] e sc show ?thesis by simp
qed

end
