(* ===== verification/Pass.thy ===== *)
theory Pass
  imports Matching "HOL-Library.While_Combinator"
begin

text \<open>
  The pass of \<open>Bot.run\<close> (\<open>src/bot_adb.py\<close>, lines 113--131) as the code writes it: a
  \<open>while tiles:\<close> loop over a copy of \<open>item_tiles\<close>, with the flag \<open>matched\<close> and the
  drags issued so far as state (\<open>pass_state\<close>). \<open>pass_step\<close> is one iteration (pop the
  first tile, skip it if empty, look for a match, drag and remove it); an exception leaves
  the loop, so the loop runs while tiles remain and nothing was raised. \<open>pass_loop\<close> is
  the loop as \<open>while_option\<close>, whose \<open>None\<close> would be a loop that never ends.
  The theorems show that it always ends (\<open>pass_loop_terminates\<close>, measure: the length of
  the worklist) and that it computes exactly what the recursive \<open>scan\<close> of \<open>Matching\<close>
  computes, which the other theories reason about (\<open>pass_loop_scan\<close>), \<open>matched\<close>
  included.
\<close>

record pass_state =
  pass_tiles :: "tile list"
  matched :: bool
  drags :: "(tile \<times> tile) list"
  raised :: "py_error option"

definition pass_step :: "'a bot_scheme \<Rightarrow> frame \<Rightarrow> pass_state \<Rightarrow> pass_state" where
  "pass_step self img s =
     (case pass_tiles s of
        [] \<Rightarrow> s
      | tile # tiles \<Rightarrow>
          (case is_empty self tile img of
             Inl e \<Rightarrow> s\<lparr>pass_tiles := tiles, raised := Some e\<rparr>
           | Inr True \<Rightarrow> s\<lparr>pass_tiles := tiles\<rparr>
           | Inr False \<Rightarrow>
               (case find_match self tile tiles img of
                  Inl e \<Rightarrow> s\<lparr>pass_tiles := tiles, raised := Some e\<rparr>
                | Inr None \<Rightarrow> s\<lparr>pass_tiles := tiles\<rparr>
                | Inr (Some match) \<Rightarrow>
                    (let s' = s\<lparr>matched := True, drags := drags s @ [(match, tile)]\<rparr>
                     in case py_remove match tiles of
                          Inl e \<Rightarrow> s'\<lparr>pass_tiles := tiles, raised := Some e\<rparr>
                        | Inr tiles' \<Rightarrow> s'\<lparr>pass_tiles := tiles'\<rparr>))))"

definition pass_loop :: "'a bot_scheme \<Rightarrow> frame \<Rightarrow> pass_state option" where
  "pass_loop self img =
     while_option (\<lambda>s. pass_tiles s \<noteq> [] \<and> raised s = None) (pass_step self img)
       \<lparr>pass_tiles = item_tiles self, matched = False, drags = [], raised = None\<rparr>"

text \<open>The loop invariant: \<open>matched\<close> records whether a drag was issued, and the drags
  issued so far followed by what \<open>scan\<close> does on the remaining worklist are what \<open>scan\<close>
  does on the whole one (or, once an exception was raised, all of it).\<close>

definition pass_inv :: "'a bot_scheme \<Rightarrow> frame \<Rightarrow> pass_state \<Rightarrow> bool" where
  "pass_inv self img s \<longleftrightarrow>
     matched s = (drags s \<noteq> []) \<and>
     scan self img (item_tiles self) =
       (case raised s of
          Some e \<Rightarrow> (drags s, Some e)
        | None \<Rightarrow> (case scan self img (pass_tiles s) of (ps, err) \<Rightarrow> (drags s @ ps, err)))"

lemma pass_step_shorter:
  "pass_tiles s \<noteq> [] \<Longrightarrow> length (pass_tiles (pass_step self img s)) < length (pass_tiles s)"
  by (auto simp: pass_step_def Let_def length_remove1 py_remove_def neq_Nil_conv
      split: sum.splits bool.splits option.splits if_splits)

lemma pass_step_inv:
  assumes "pass_inv self img s" and "pass_tiles s \<noteq> []" and "raised s = None"
  shows "pass_inv self img (pass_step self img s)"
proof -
  obtain tile tiles where t: "pass_tiles s = tile # tiles" using assms(2) by (cases "pass_tiles s") auto
  show ?thesis
    using assms(1,3) t
    by (auto simp: pass_inv_def pass_step_def Let_def split: sum.splits bool.splits option.splits prod.splits)
qed

lemma pass_loop_some: "\<exists>s. pass_loop self img = Some s"
  unfolding pass_loop_def
  by (rule measure_while_option_Some [where P = "\<lambda>_. True" and f = "\<lambda>s. length (pass_tiles s)"])
     (auto intro: pass_step_shorter)

subsection \<open>Termination and equivalence with the recursive pass\<close>

text \<open>C9: the \<open>while tiles:\<close> loop of \<open>Bot.run\<close> terminates on every bot and frame
  (each iteration pops a tile), and it leaves with the worklist used up or an exception
  raised.\<close>

theorem pass_loop_terminates:
  "\<exists>s. pass_loop self img = Some s \<and> (pass_tiles s = [] \<or> raised s \<noteq> None)"
proof -
  obtain s where s: "pass_loop self img = Some s" using pass_loop_some by blast
  have "\<not> (pass_tiles s \<noteq> [] \<and> raised s = None)"
    using s unfolding pass_loop_def by (rule while_option_stop)
  with s show ?thesis by blast
qed

text \<open>C8: the loop as written computes what the recursive \<open>scan\<close> computes: the same
  drags in the same order, the same exception, and \<open>matched\<close> set exactly when a drag was
  issued (so \<open>run\<close>'s test \<open>if not matched\<close> is \<open>scan\<close>'s empty result).\<close>

theorem pass_loop_scan:
  "map_option (\<lambda>s. (drags s, raised s, matched s)) (pass_loop self img) =
   Some (fst (scan self img (item_tiles self)), snd (scan self img (item_tiles self)),
         fst (scan self img (item_tiles self)) \<noteq> [])"
proof -
  obtain s where s: "pass_loop self img = Some s" using pass_loop_some by blast
  have "pass_inv self img s"
  proof (rule while_option_rule [OF _ s [unfolded pass_loop_def]])
    show "pass_inv self img \<lparr>pass_tiles = item_tiles self, matched = False, drags = [], raised = None\<rparr>"
      by (simp add: pass_inv_def split: prod.splits)
  next
    fix s' assume "pass_inv self img s'" and "pass_tiles s' \<noteq> [] \<and> raised s' = None"
    then show "pass_inv self img (pass_step self img s')" by (simp add: pass_step_inv)
  qed
  moreover have "\<not> (pass_tiles s \<noteq> [] \<and> raised s = None)"
    using s unfolding pass_loop_def by (rule while_option_stop)
  ultimately show ?thesis using s
    by (auto simp: pass_inv_def split: option.splits)
qed

end
