(* ===== verification/Run.thy ===== *)
theory Run
  imports Matching
begin

text \<open>
  One cycle and the control loop of \<open>src/bot_adb.py\<close>.
  \<^item> \<open>drag\<close> (lines 101--105): the device drag from the match's centre to the tile's.
  \<^item> \<open>run\<close> (lines 113--147): one cycle on the captured frame: a pass (\<open>scan\<close>) over a
    copy of \<open>item_tiles\<close>, one drag per pair found, then, if no pair was found, the
    station fallback. It returns the new state, the device actions in the order issued,
    and the result: \<open>Inr True\<close> (continue), \<open>Inr False\<close> (no station left) or the
    exception that escaped. The pacing \<open>time.sleep(0.3)\<close> has no effect on the model.
  \<^item> \<open>bot_loop\<close> (lines 165--171): \<open>while bot.running: if not bot.run(): break\<close>, driven
    by a schedule of environment events: \<open>Capture img\<close> is a loop iteration on the frame
    \<open>img\<close> the screenshot returns, \<open>Stop\<close> is the Stop button (\<open>stop_bot\<close>, lines
    177--179) clearing \<open>running\<close> from the GUI thread. The flag is read only at the loop
    head, so a stop takes effect between cycles, never inside one. The loop ends
    \<open>Halted\<close> (no station), \<open>Stopped\<close>, \<open>Crashed\<close> (an exception reached
    \<open>start_bot\<close>'s handler) or \<open>Pending\<close> (the schedule ended with the bot still running).
  \<^item> \<open>start_bot\<close> (lines 149--175): construct the bot from the form's numbers, set
    \<open>running\<close>, and loop; a constructor exception ends it at once.
\<close>

datatype event = Capture frame | Stop

datatype outcome = Halted | Stopped | Crashed py_error | Pending

definition drag :: "tile \<Rightarrow> tile \<Rightarrow> action" where
  "drag match tile =
     (case index_to_pixel match of (x, y) \<Rightarrow> case index_to_pixel tile of (z, w) \<Rightarrow> Drag (x, y) (z, w))"

definition run :: "'a bot_scheme \<Rightarrow> frame \<Rightarrow> 'a bot_scheme \<times> action list \<times> (py_error + bool)" where
  "run self img =
     (case scan self img (item_tiles self) of
        (pairs, err) \<Rightarrow>
          (let drags = map (\<lambda>(match, tile). drag match tile) pairs
           in case err of
                Some e \<Rightarrow> (self, drags, Inl e)
              | None \<Rightarrow>
                  if pairs \<noteq> [] then (self, drags, Inr True)
                  else station_fallback self))"

fun bot_loop :: "'a bot_scheme \<Rightarrow> event list \<Rightarrow> 'a bot_scheme \<times> action list \<times> outcome" where
  "bot_loop self [] = (self, [], if running self then Pending else Stopped)"
| "bot_loop self (Stop # es) =
     (if running self then bot_loop (self\<lparr>running := False\<rparr>) es else (self, [], Stopped))"
| "bot_loop self (Capture img # es) =
     (if \<not> running self then (self, [], Stopped)
      else
        (case run self img of
           (self', acts, Inl e) \<Rightarrow> (self', acts, Crashed e)
         | (self', acts, Inr False) \<Rightarrow> (self', acts, Halted)
         | (self', acts, Inr True) \<Rightarrow>
             (case bot_loop self' es of (self'', acts', out) \<Rightarrow> (self'', acts @ acts', out))))"

definition start_bot :: "int \<Rightarrow> int \<Rightarrow> int \<Rightarrow> int \<Rightarrow> int \<Rightarrow> event list \<Rightarrow> action list \<times> outcome" where
  "start_bot bot_capacity bot_stations bot_clicks bot_used_stations rows' es =
     (case bot_init bot_capacity bot_clicks bot_stations bot_used_stations rows' of
        Inl e \<Rightarrow> ([], Crashed e)
      | Inr b \<Rightarrow> (case bot_loop (b\<lparr>running := True\<rparr>) es of (_, acts, out) \<Rightarrow> (acts, out)))"

text \<open>The states of a bot built by \<open>start_bot\<close> from given form values: the constructed
  bot with \<open>running\<close> set, and whatever a cycle (on any frame, whatever it returns or
  raises) or a stop makes of a state.\<close>

inductive reachable :: "int \<Rightarrow> int \<Rightarrow> int \<Rightarrow> int \<Rightarrow> int \<Rightarrow> bot \<Rightarrow> bool"
  for cap per num start nrows where
  init: "bot_init cap per num start nrows = Inr b \<Longrightarrow> reachable cap per num start nrows (b\<lparr>running := True\<rparr>)"
| cycle: "reachable cap per num start nrows b \<Longrightarrow> running b \<Longrightarrow> run b img = (b', acts, r) \<Longrightarrow>
     reachable cap per num start nrows b'"
| stop: "reachable cap per num start nrows b \<Longrightarrow> reachable cap per num start nrows (b\<lparr>running := False\<rparr>)"

subsection \<open>One cycle\<close>

lemma run_error:
  "scan self img (item_tiles self) = (ps, Some e) \<Longrightarrow>
   run self img = (self, map (\<lambda>(m, t). drag m t) ps, Inl e)"
  by (simp add: run_def)

lemma run_progressed:
  "scan self img (item_tiles self) = (ps, None) \<Longrightarrow> ps \<noteq> [] \<Longrightarrow>
   run self img = (self, map (\<lambda>(m, t). drag m t) ps, Inr True)"
  by (simp add: run_def)

lemma run_static:
  "scan self img (item_tiles self) = ([], None) \<Longrightarrow> run self img = station_fallback self"
  by (simp add: run_def)

lemma run_touch:
  assumes "run self img = (self', acts, r)" and "Touch p \<in> set acts"
  shows "scan self img (item_tiles self) = ([], None)"
proof -
  obtain ps err where sc: "scan self img (item_tiles self) = (ps, err)" by fastforce
  have nd: "\<And>m t. drag m t \<noteq> Touch p" by (simp add: drag_def split: prod.splits)
  show ?thesis
  proof (cases "err = None \<and> ps = []")
    case True with sc show ?thesis by simp
  next
    case False
    then have "acts = map (\<lambda>(m, t). drag m t) ps"
      using assms(1) sc by (auto simp: run_def Let_def split: option.splits if_splits)
    with assms(2) obtain m t where "drag m t = Touch p" by auto
    with nd show ?thesis by blast
  qed
qed

lemma run_shape:
  assumes "run self img = (self', acts, r)"
  shows "self' = self\<lparr>uses := uses self', station_tiles := station_tiles self'\<rparr>"
proof -
  obtain ps err where sc: "scan self img (item_tiles self) = (ps, err)" by fastforce
  show ?thesis
  proof (cases "err = None \<and> ps = []")
    case True
    with sc assms have "station_fallback self = (self', acts, r)" by (simp add: run_static)
    then show ?thesis by (rule station_fallback_shape)
  next
    case False
    with sc assms have "self' = self" by (auto simp: run_def Let_def split: option.splits if_splits)
    then show ?thesis by simp
  qed
qed

lemma run_ok:
  assumes "stations_ok self" and "run self img = (self', acts, r)"
  shows "stations_ok self'"
proof -
  obtain ps err where sc: "scan self img (item_tiles self) = (ps, err)" by fastforce
  show ?thesis
  proof (cases "err = None \<and> ps = []")
    case True
    with sc assms(2) have "station_fallback self = (self', acts, r)" by (simp add: run_static)
    with assms(1) show ?thesis by (rule station_fallback_ok)
  next
    case False
    with sc assms show ?thesis by (auto simp: run_def Let_def split: option.splits if_splits)
  qed
qed

lemma station_fallback_tiles:
  "station_fallback self = (self', acts, r) \<Longrightarrow>
   station_tiles self' = station_tiles self \<or> station_tiles self' = tl (station_tiles self)"
  by (auto simp: station_fallback_def use_station_def Let_def
      split: list.splits prod.splits sum.splits if_splits)

lemma run_tiles:
  assumes "run self img = (self', acts, r)"
  shows "station_tiles self' = station_tiles self \<or> station_tiles self' = tl (station_tiles self)"
proof -
  obtain ps err where sc: "scan self img (item_tiles self) = (ps, err)" by fastforce
  show ?thesis
  proof (cases "err = None \<and> ps = []")
    case True
    with sc assms have "station_fallback self = (self', acts, r)" by (simp add: run_static)
    then show ?thesis by (rule station_fallback_tiles)
  next
    case False
    with sc assms show ?thesis by (auto simp: run_def Let_def split: option.splits if_splits)
  qed
qed

subsection \<open>The loop\<close>

lemma bot_loop_not_running: "\<not> running self \<Longrightarrow> bot_loop self es = (self, [], Stopped)"
  by (cases "(self, es)" rule: bot_loop.cases) auto

lemma bot_loop_reachable:
  "reachable cap per num start nrows self \<Longrightarrow> bot_loop self es = (self', acts, out) \<Longrightarrow>
   reachable cap per num start nrows self'"
proof (induction self es arbitrary: self' acts out rule: bot_loop.induct)
  case (1 self)
  then show ?case by simp
next
  case (2 self es)
  then show ?case by (auto intro: reachable.stop split: if_splits)
next
  case (3 self img es)
  obtain s1 a1 r1 where r: "run self img = (s1, a1, r1)" by (cases "run self img") auto
  show ?case
  proof (cases "running self")
    case True
    have reach1: "reachable cap per num start nrows s1"
      using "3.prems"(1) True r by (rule reachable.cycle)
    show ?thesis
    proof (cases "r1 = Inr True")
      case rt: True
      obtain s2 a2 o2 where l: "bot_loop s1 es = (s2, a2, o2)" by (cases "bot_loop s1 es") auto
      with "3.prems"(2) True r rt have "self' = s2" by simp
      with "3.IH" [of s1 "(a1, r1)" a1 r1 True s2 a2 o2] True r rt reach1 l show ?thesis by simp
    next
      case False
      with "3.prems"(2) True r reach1 show ?thesis
        by (auto split: sum.splits bool.splits)
    qed
  next
    case False
    with "3.prems" show ?thesis by simp
  qed
qed

subsection \<open>The invariant of a running bot\<close>

text \<open>C5: In every state reachable from a bot constructed with a positive
  \<open>station_cap // station_uses\<close>, the station counters are consistent (the divisor is
  non-zero, a fresh station allows a positive number of taps, and the front station has
  taps left), the configuration fixed by the constructor is unchanged, and the station
  queue is a suffix of the one the constructor created: stations are only ever removed,
  from the front.\<close>

theorem reachable_invariant:
  assumes "reachable cap per num start nrows b" and "0 < cap div per"
  shows "stations_ok b \<and> station_cap b = cap \<and> station_uses b = per \<and>
    item_tiles b = grid_tiles nrows 9 \<and> offset b = 10 \<and> threshold b = 0.90 \<and>
    empty_colors b = [(223, 190, 164), (234, 208, 178)] \<and>
    (\<exists>k. station_tiles b = drop k (create_station_tiles start num))"
  using assms(1)
proof (induction rule: reachable.induct)
  case (init b)
  have "per \<noteq> 0" using assms(2) by auto
  with init have "b = \<lparr>station_cap = cap, station_uses = per,
         station_tiles = create_station_tiles start num, uses = cap div per,
         rows = nrows, cols = 9, offset = 10,
         empty_colors = [(223, 190, 164), (234, 208, 178)],
         threshold = 0.90, item_tiles = grid_tiles nrows 9, running = False\<rparr>"
    by (simp add: bot_init_Inr)
  with assms(2) show ?case
    by (auto simp: stations_ok_def fresh_uses_def intro: exI [where x = 0])
next
  case (cycle b img b' acts r)
  have shape: "b' = b\<lparr>uses := uses b', station_tiles := station_tiles b'\<rparr>"
    using cycle.hyps(3) by (rule run_shape)
  have ok: "stations_ok b'" using cycle.IH cycle.hyps(3) by (blast intro: run_ok)
  obtain k where k: "station_tiles b = drop k (create_station_tiles start num)"
    using cycle.IH by blast
  have "station_tiles b' = drop k (create_station_tiles start num) \<or>
        station_tiles b' = drop (Suc k) (create_station_tiles start num)"
    using run_tiles [OF cycle.hyps(3)] k by (auto simp: drop_Suc tl_drop)
  then have tiles: "\<exists>k. station_tiles b' = drop k (create_station_tiles start num)" by blast
  have "station_cap b' = station_cap b \<and> station_uses b' = station_uses b \<and>
    item_tiles b' = item_tiles b \<and> offset b' = offset b \<and> threshold b' = threshold b \<and>
    empty_colors b' = empty_colors b"
    using arg_cong [OF shape, of station_cap] arg_cong [OF shape, of station_uses]
      arg_cong [OF shape, of item_tiles] arg_cong [OF shape, of offset]
      arg_cong [OF shape, of threshold] arg_cong [OF shape, of empty_colors]
    by simp
  with cycle.IH ok tiles show ?case by simp
next
  case (stop b)
  then show ?case using assms(2) by (simp add: stations_ok_def fresh_uses_def)
qed

text \<open>Witness: a bot built with capacity 4 and 2 taps per station, 3 stations from slot
  0 and 3 rows, after construction.\<close>

theorem reachable_invariant_witness:
  "reachable 4 2 3 0 3 ((projr (bot_init 4 2 3 0 3))\<lparr>running := True\<rparr>) \<and> (0::int) < 4 div 2 \<and>
   stations_ok ((projr (bot_init 4 2 3 0 3))\<lparr>running := True\<rparr>)"
proof -
  have r: "reachable 4 2 3 0 3 ((projr (bot_init 4 2 3 0 3))\<lparr>running := True\<rparr>)"
    by (rule reachable.init) (simp add: bot_init_Inr)
  from reachable_invariant [OF r] show ?thesis using r by simp
qed

subsection \<open>Termination on a static board\<close>

lemma static_step:
  assumes "stations_ok self" and "station_tiles self = st # q"
    and "scan self img (item_tiles self) = ([], None)"
  obtains self' where "run self img = (self', [Touch (index_to_pixel st)], Inr True)"
    and "stations_ok self'" and "running self' = running self"
    and "scan self' img (item_tiles self') = ([], None)"
    and "Suc (station_budget self') = station_budget self"
proof -
  obtain self' acts r where fb: "station_fallback self = (self', acts, r)"
    by (cases "station_fallback self") auto
  have shape: "self' = self\<lparr>uses := uses self', station_tiles := station_tiles self'\<rparr>"
    using fb by (rule station_fallback_shape)
  have b: "r = Inr True \<and> acts = [Touch (index_to_pixel st)] \<and> Suc (station_budget self') = station_budget self"
    using assms(1,2) fb by (rule station_fallback_budget)
  have "running self' = running self" "item_tiles self' = item_tiles self"
    using arg_cong [OF shape, of running] arg_cong [OF shape, of item_tiles] by simp_all
  moreover have "scan self' img ts = scan self img ts" for ts
    by (subst shape) simp
  ultimately show ?thesis
    using that b fb assms(1,3) station_fallback_ok [OF assms(1) fb] by (simp add: run_static)
qed

text \<open>C6: on a board that stays the same and on which a pass finds no pair, a running bot
  with consistent station counters stops on its own: fed that frame more times than it has
  station taps left, the loop ends \<open>Halted\<close> after exactly \<open>station_budget\<close> actions,
  one tap per cycle.\<close>

theorem static_board_halts:
  assumes "stations_ok self" and "running self"
    and "scan self img (item_tiles self) = ([], None)" and "station_budget self < n"
  shows "snd (snd (bot_loop self (replicate n (Capture img)))) = Halted \<and>
    length (fst (snd (bot_loop self (replicate n (Capture img))))) = station_budget self"
  using assms
proof (induction n arbitrary: self)
  case 0
  then show ?case by simp
next
  case (Suc n)
  show ?case
  proof (cases "station_tiles self")
    case Nil
    then have "run self img = (self, [], Inr False)"
      using Suc.prems(3) by (simp add: run_static)
    with Nil Suc.prems(2) show ?thesis by (simp add: station_budget_def)
  next
    case (Cons st q)
    obtain self' where st: "run self img = (self', [Touch (index_to_pixel st)], Inr True)"
      and ok: "stations_ok self'" "running self' = running self"
      and sc: "scan self' img (item_tiles self') = ([], None)"
      and bud: "Suc (station_budget self') = station_budget self"
      using static_step [OF Suc.prems(1) Cons Suc.prems(3)] by blast
    have "station_budget self' < n" using bud Suc.prems(4) by simp
    then have ih: "snd (snd (bot_loop self' (replicate n (Capture img)))) = Halted \<and>
      length (fst (snd (bot_loop self' (replicate n (Capture img))))) = station_budget self'"
      using Suc.IH ok sc Suc.prems(2) by simp
    obtain s2 a2 o2 where l: "bot_loop self' (replicate n (Capture img)) = (s2, a2, o2)"
      by (cases "bot_loop self' (replicate n (Capture img))") auto
    show ?thesis using ih l st bud Suc.prems(2) by simp
  qed
qed

text \<open>The bot of the following witnesses: capacity 2, one tap per station, stations
  from slot 0, one row of items; and a 600-by-1500 frame showing the empty colour
  everywhere.\<close>

theorem static_board_halts_witness:
  "snd (snd (bot_loop ((projr (bot_init 2 1 2 0 1))\<lparr>running := True\<rparr>)
      (replicate 5 (Capture \<lparr>fr_h = 600, fr_w = 1500, fr_px = (\<lambda>_ _. (223, 190, 164))\<rparr>)))) = Halted \<and>
   length (fst (snd (bot_loop ((projr (bot_init 2 1 2 0 1))\<lparr>running := True\<rparr>)
      (replicate 5 (Capture \<lparr>fr_h = 600, fr_w = 1500, fr_px = (\<lambda>_ _. (223, 190, 164))\<rparr>))))) = 4"
proof -
  let ?b = "(projr (bot_init 2 1 2 0 1))\<lparr>running := True\<rparr>"
  let ?img = "\<lparr>fr_h = 600, fr_w = 1500, fr_px = (\<lambda>_ _. (223::8 word, 190::8 word, 164::8 word))\<rparr>"
  have sc: "scan ?b ?img (item_tiles ?b) = ([], None)"
    by (simp add: bot_init_Inr grid_tiles_def py_range_rec scan_eval)
  have bud: "station_budget ?b = 4"
    by (simp add: bot_init_Inr station_budget_def create_station_tiles_def
        station_tiles_blueprint_eq py_slice_nonneg fresh_uses_def)
  have ok: "stations_ok ?b" "running ?b"
    by (simp_all add: bot_init_Inr stations_ok_def fresh_uses_def)
  show ?thesis using static_board_halts [OF ok sc, of 5] bud by simp
qed

text \<open>C40: a running bot whose station queue is empty halts, without any device action,
  on the first frame on which a pass finds no pair, whatever events would follow.\<close>

theorem no_station_halts:
  assumes "running self" and "station_tiles self = []"
    and "scan self img (item_tiles self) = ([], None)"
  shows "bot_loop self (Capture img # es) = (self, [], Halted)"
  using assms by (simp add: run_static)

theorem no_station_halts_witness:
  "bot_loop ((projr (bot_init 2 1 0 0 1))\<lparr>running := True\<rparr>)
      [Capture \<lparr>fr_h = 600, fr_w = 1500, fr_px = (\<lambda>_ _. (223, 190, 164))\<rparr>, Stop] =
   ((projr (bot_init 2 1 0 0 1))\<lparr>running := True\<rparr>, [], Halted)"
proof -
  let ?b = "(projr (bot_init 2 1 0 0 1))\<lparr>running := True\<rparr>"
  let ?img = "\<lparr>fr_h = 600, fr_w = 1500, fr_px = (\<lambda>_ _. (223::8 word, 190::8 word, 164::8 word))\<rparr>"
  have sc: "scan ?b ?img (item_tiles ?b) = ([], None)"
    by (simp add: bot_init_Inr grid_tiles_def py_range_rec scan_eval)
  have "running ?b" "station_tiles ?b = []"
    by (simp_all add: bot_init_Inr create_station_tiles_def py_slice_nonneg)
  from no_station_halts [OF this sc] show ?thesis .
qed

subsection \<open>Stopping\<close>

text \<open>C26: pressing Stop takes effect at the next loop head: the actions issued on a
  schedule with a Stop are exactly those issued on the events before it, whatever follows,
  and the loop does not end still running.\<close>

theorem stop_takes_effect:
  "fst (snd (bot_loop self (pre @ Stop # post))) = fst (snd (bot_loop self pre)) \<and>
   snd (snd (bot_loop self (pre @ Stop # post))) \<noteq> Pending"
proof (induction self pre rule: bot_loop.induct)
  case (1 self)
  then show ?case by (simp add: bot_loop_not_running)
next
  case (2 self es)
  then show ?case by (simp add: bot_loop_not_running)
next
  case (3 self img es)
  obtain s1 a1 r1 where r: "run self img = (s1, a1, r1)" by (cases "run self img") auto
  show ?case
  proof (cases "running self \<and> r1 = Inr True")
    case True
    then have "fst (snd (bot_loop s1 (es @ Stop # post))) = fst (snd (bot_loop s1 es)) \<and>
      snd (snd (bot_loop s1 (es @ Stop # post))) \<noteq> Pending"
      using "3.IH" [of s1 "(a1, r1)" a1 r1 True] r by simp
    moreover obtain s2 a2 o2 where "bot_loop s1 (es @ Stop # post) = (s2, a2, o2)"
      by (cases "bot_loop s1 (es @ Stop # post)") auto
    moreover obtain s3 a3 o3 where "bot_loop s1 es = (s3, a3, o3)"
      by (cases "bot_loop s1 es") auto
    ultimately show ?thesis using True r by simp
  next
    case False
    with r show ?thesis by (auto split: sum.splits bool.splits)
  qed
qed
subsection \<open>Errors and the actions of a cycle\<close>

text \<open>C28: a grid that reaches past the screenshot crashes the bot: if some item slot's
  pixel centre lies below or right of the frame, the first cycle raises (the slot is
  reached either as the tile popped or as a candidate of \<open>find_match\<close>, and can never be
  removed as a match), \<open>start_bot\<close>'s handler ends the loop, and the only actions issued
  are the drags of that pass before the exception; no station is tapped.\<close>

theorem offgrid_tile_crashes:
  assumes "t \<in> set (item_tiles self)" and "on_grid t" and "index_to_pixel t = (x, y)"
    and "int (fr_h img) \<le> y \<or> int (fr_w img) \<le> x" and "running self"
  shows "\<exists>e. bot_loop self (Capture img # es) =
    (self, map (\<lambda>(m, t). drag m t) (fst (scan self img (item_tiles self))), Crashed e)"
proof -
  obtain e where "snd (scan self img (item_tiles self)) = Some e"
    using scan_raises [OF assms(1) is_empty_outside [OF assms(2-4)]] by blast
  then have "scan self img (item_tiles self) = (fst (scan self img (item_tiles self)), Some e)"
    by (metis prod.collapse)
  then have "run self img = (self, map (\<lambda>(m, t). drag m t) (fst (scan self img (item_tiles self))), Inl e)"
    by (rule run_error)
  then show ?thesis using assms(5) by simp
qed

theorem offgrid_tile_crashes_witness:
  "bot_loop \<lparr>station_cap = 5, station_uses = 1, station_tiles = [], uses = 5, rows = 7, cols = 9,
      offset = 10, empty_colors = [(223, 190, 164), (234, 208, 178)], threshold = 0.9,
      item_tiles = [(0, 0), (6, 0)], running = True\<rparr>
     [Capture \<lparr>fr_h = 900, fr_w = 1500, fr_px = (\<lambda>_ _. (223, 190, 164))\<rparr>] =
   (\<lparr>station_cap = 5, station_uses = 1, station_tiles = [], uses = 5, rows = 7, cols = 9,
      offset = 10, empty_colors = [(223, 190, 164), (234, 208, 178)], threshold = 0.9,
      item_tiles = [(0, 0), (6, 0)], running = True\<rparr>, [], Crashed IndexError)"
proof -
  let ?b = "\<lparr>station_cap = 5, station_uses = 1, station_tiles = [], uses = 5, rows = 7, cols = 9,
      offset = 10, empty_colors = [(223::8 word, 190::8 word, 164::8 word), (234, 208, 178)], threshold = 0.9,
      item_tiles = [(0::int, 0::int), (6, 0)], running = True\<rparr>"
  let ?img = "\<lparr>fr_h = 900, fr_w = 1500, fr_px = (\<lambda>_ _. (223::8 word, 190::8 word, 164::8 word))\<rparr>"
  have p: "index_to_pixel (6, 0) = (501, 954)" by (simp add: index_to_pixel_closed)
  have sc: "scan ?b ?img (item_tiles ?b) = ([], Some IndexError)" by (simp add: scan_eval)
  obtain e where "bot_loop ?b [Capture ?img] = (?b, map (\<lambda>(m, t). drag m t) (fst (scan ?b ?img (item_tiles ?b))), Crashed e)"
    using offgrid_tile_crashes [of "(6, 0)" ?b 501 954 ?img "[]"] p by (auto simp: on_grid_def)
  then show ?thesis using sc by (simp add: run_def)
qed
text \<open>C23: the actions of one cycle, in the order issued: either the drags of the pairs
  the pass found (when it found one or raised), and nothing else, or, when the pass found
  no pair and raised nothing, at most one tap, on the front station; a cycle never both
  drags and taps.\<close>

theorem run_actions:
  assumes "run self img = (self', acts, r)"
  shows "(fst (scan self img (item_tiles self)) \<noteq> [] \<or> snd (scan self img (item_tiles self)) \<noteq> None) \<and>
      acts = map (\<lambda>(m, t). drag m t) (fst (scan self img (item_tiles self))) \<or>
    scan self img (item_tiles self) = ([], None) \<and>
      acts = map (\<lambda>st. Touch (index_to_pixel st)) (take 1 (station_tiles self))"
proof -
  obtain ps err where sc: "scan self img (item_tiles self) = (ps, err)" by fastforce
  show ?thesis
  proof (cases "err = None \<and> ps = []")
    case True
    with sc assms have "station_fallback self = (self', acts, r)" by (simp add: run_static)
    then have "acts = map (\<lambda>st. Touch (index_to_pixel st)) (take 1 (station_tiles self))"
      by (rule station_fallback_acts)
    with True sc show ?thesis by simp
  next
    case False
    with sc assms show ?thesis by (auto simp: run_def Let_def split: option.splits if_splits)
  qed
qed

theorem run_actions_witness:
  "run \<lparr>station_cap = 5, station_uses = 1, station_tiles = [(6, 0), (6, 1)], uses = 5, rows = 1, cols = 9,
      offset = 10, empty_colors = [(223, 190, 164), (234, 208, 178)], threshold = 0.9,
      item_tiles = [(0, 0)], running = True\<rparr>
     \<lparr>fr_h = 900, fr_w = 1500, fr_px = (\<lambda>_ _. (223, 190, 164))\<rparr> =
   (\<lparr>station_cap = 5, station_uses = 1, station_tiles = [(6, 0), (6, 1)], uses = 4, rows = 1, cols = 9,
      offset = 10, empty_colors = [(223, 190, 164), (234, 208, 178)], threshold = 0.9,
      item_tiles = [(0, 0)], running = True\<rparr>, [Touch (501, 954)], Inr True) \<and>
   scan \<lparr>station_cap = 5, station_uses = 1, station_tiles = [(6, 0), (6, 1)], uses = 5, rows = 1, cols = 9,
      offset = 10, empty_colors = [(223, 190, 164), (234, 208, 178)], threshold = 0.9,
      item_tiles = [(0, 0)], running = True\<rparr>
     \<lparr>fr_h = 900, fr_w = 1500, fr_px = (\<lambda>_ _. (223, 190, 164))\<rparr> [(0, 0)] = ([], None)"
proof -
  let ?b = "\<lparr>station_cap = 5, station_uses = 1, station_tiles = [(6::int, 0::int), (6, 1)], uses = 5, rows = 1, cols = 9,
      offset = 10, empty_colors = [(223::8 word, 190::8 word, 164::8 word), (234, 208, 178)], threshold = 0.9,
      item_tiles = [(0::int, 0::int)], running = True\<rparr>"
  let ?img = "\<lparr>fr_h = 900, fr_w = 1500, fr_px = (\<lambda>_ _. (223::8 word, 190::8 word, 164::8 word))\<rparr>"
  have sc: "scan ?b ?img [(0, 0)] = ([], None)" by (simp add: scan_eval)
  obtain s' a r where r: "run ?b ?img = (s', a, r)" by (cases "run ?b ?img") auto
  have "a = [Touch (index_to_pixel (6, 0))]"
    using run_actions [OF r] sc by simp
  moreover have "run ?b ?img = station_fallback ?b" using sc by (simp add: run_static)
  ultimately show ?thesis using r sc
    by (simp add: station_fallback_def use_station_def index_to_pixel_closed)
qed

end
