(* ===== verification/Form.thy ===== *)
theory Form
  imports Prelude
begin

text \<open>
  Python's \<open>int()\<close> on a string, as \<open>start_bot\<close> (\<open>src/bot_adb.py\<close>, lines 152--156)
  applies it to the text of the five entry fields. \<open>py_int_of_str\<close> follows CPython:
  surrounding whitespace is stripped (\<open>py_strip\<close>, the ASCII characters \<open>str.isspace\<close>
  accepts: 9--13 and 28--32), one optional sign is read, and the rest must be decimal
  digits, with single underscores allowed between digits (PEP 515); anything else raises
  \<open>ValueError\<close>. Characters are Isabelle's 8-bit \<open>char\<close>: the non-ASCII digits and
  spaces that CPython also accepts are not modelled.
  \<open>py_str\<close> is \<open>str()\<close> of an integer, the text a user would type for a number, used
  for the round trip \<open>py_int_of_str_roundtrip\<close>, on which the GUI's proof that the
  entries reach the constructor rests.
\<close>

definition py_isspace :: "char \<Rightarrow> bool" where
  "py_isspace c \<longleftrightarrow> of_char c \<in> ({9..13} \<union> {28..32} :: nat set)"

definition py_isdigit :: "char \<Rightarrow> bool" where
  "py_isdigit c \<longleftrightarrow> (48::nat) \<le> of_char c \<and> of_char c \<le> (57::nat)"

definition py_strip :: "string \<Rightarrow> string" where
  "py_strip s = rev (dropWhile py_isspace (rev (dropWhile py_isspace s)))"

fun underscores_ok :: "string \<Rightarrow> bool" where
  "underscores_ok [] = True"
| "underscores_ok [c] = True"
| "underscores_ok (c # d # cs) = (\<not> (c = CHR ''_'' \<and> d = CHR ''_'') \<and> underscores_ok (d # cs))"

definition digits_ok :: "string \<Rightarrow> bool" where
  "digits_ok s \<longleftrightarrow> s \<noteq> [] \<and> list_all (\<lambda>c. py_isdigit c \<or> c = CHR ''_'') s \<and>
     py_isdigit (hd s) \<and> py_isdigit (last s) \<and> underscores_ok s"

definition digits_val :: "string \<Rightarrow> int" where
  "digits_val s = foldl (\<lambda>n c. 10 * n + (int (of_char c) - 48)) 0 (filter py_isdigit s)"

definition py_int_of_str :: "string \<Rightarrow> py_error + int" where
  "py_int_of_str s =
     (let t = py_strip s;
          (neg, body) = (case t of
                           c # r \<Rightarrow> if c = CHR ''-'' then (True, r) else if c = CHR ''+'' then (False, r) else (False, t)
                         | [] \<Rightarrow> (False, t))
      in if digits_ok body then Inr (if neg then - digits_val body else digits_val body)
         else Inl ValueError)"

fun nat_digits :: "nat \<Rightarrow> string" where
  "nat_digits n = (if n < 10 then [char_of (48 + n)] else nat_digits (n div 10) @ [char_of (48 + n mod 10)])"

definition py_str :: "int \<Rightarrow> string" where
  "py_str n = (if n < 0 then CHR ''-'' # nat_digits (nat (- n)) else nat_digits (nat n))"

declare nat_digits.simps [simp del]

subsection \<open>Digits\<close>

lemma of_char_digit: "d < 10 \<Longrightarrow> of_char (char_of (48 + d) :: char) = (48 + d :: nat)"
  by (simp add: of_char_of)

lemma nat_digits_digits: "c \<in> set (nat_digits n) \<Longrightarrow> py_isdigit c"
proof (induction n rule: nat_digits.induct)
  case (1 n)
  then show ?case
    by (subst (asm) nat_digits.simps) (auto simp: py_isdigit_def of_char_digit split: if_splits)
qed

lemma nat_digits_ne [simp]: "nat_digits n \<noteq> []"
  by (subst nat_digits.simps) simp

lemma digits_val_snoc:
  "py_isdigit c \<Longrightarrow> digits_val (s @ [c]) = 10 * digits_val s + (int (of_char c) - 48)"
  by (simp add: digits_val_def)

lemma digits_val_nat_digits: "digits_val (nat_digits n) = int n"
proof (induction n rule: nat_digits.induct)
  case (1 n)
  show ?case
  proof (cases "n < 10")
    case True
    then show ?thesis
      by (subst nat_digits.simps) (simp add: digits_val_def py_isdigit_def of_char_digit)
  next
    case False
    have d: "py_isdigit (char_of (48 + n mod 10))"
      by (simp add: py_isdigit_def of_char_digit)
    have "digits_val (nat_digits n) = 10 * int (n div 10) + int (n mod 10)"
      using False 1 d by (subst nat_digits.simps) (simp add: digits_val_snoc of_char_digit)
    also have "\<dots> = int (10 * (n div 10) + n mod 10)" by (simp only: of_nat_add of_nat_mult of_nat_numeral)
    also have "\<dots> = int n" by simp
    finally show ?thesis .
  qed
qed

lemma underscores_ok_digits: "list_all py_isdigit s \<Longrightarrow> underscores_ok s"
  by (induction s rule: underscores_ok.induct) (auto simp: py_isdigit_def)

lemma digits_ok_nat_digits: "digits_ok (nat_digits n)"
  using nat_digits_digits [of _ n]
  by (auto simp: digits_ok_def list_all_iff intro!: underscores_ok_digits)

lemma digit_not_space: "py_isdigit c \<Longrightarrow> \<not> py_isspace c"
  by (simp add: py_isdigit_def py_isspace_def)

lemma digit_not_sign: "py_isdigit c \<Longrightarrow> c \<noteq> CHR ''-'' \<and> c \<noteq> CHR ''+''"
  by (auto simp: py_isdigit_def)

lemma nat_digits_ends: "py_isdigit (hd (nat_digits m)) \<and> py_isdigit (last (nat_digits m))"
  using nat_digits_digits [of _ m] by simp

subsection \<open>Stripping\<close>

lemma py_strip_inner:
  assumes "list_all py_isspace ws" and "list_all py_isspace ws'"
    and "s \<noteq> []" and "\<not> py_isspace (hd s)" and "\<not> py_isspace (last s)"
  shows "py_strip (ws @ s @ ws') = s"
proof -
  have "dropWhile py_isspace (ws @ s @ ws') = s @ ws'"
    using assms by (simp add: dropWhile_append list_all_iff) (cases s, auto)
  moreover have "dropWhile py_isspace (rev (s @ ws')) = rev s"
    using assms by (simp add: dropWhile_append list_all_iff) (cases "rev s", auto simp: last_rev hd_rev)
  ultimately show ?thesis by (simp add: py_strip_def)
qed

lemma py_str_ends: "py_str n \<noteq> [] \<and> \<not> py_isspace (hd (py_str n)) \<and> \<not> py_isspace (last (py_str n))"
proof -
  have "\<not> py_isspace (CHR ''-'')" by (simp add: py_isspace_def)
  then show ?thesis
    using nat_digits_ends [of "nat (- n)"] nat_digits_ends [of "nat n"]
    by (simp add: py_str_def digit_not_space)
qed

lemma py_int_of_str_examples:
  "py_int_of_str '' 1_000 '' = Inr 1000" "py_int_of_str ''+5'' = Inr 5"
  "py_int_of_str ''1__0'' = Inl ValueError" "py_int_of_str ''3.0'' = Inl ValueError"
  "py_int_of_str [] = Inl ValueError" "py_int_of_str ''-'' = Inl ValueError"
  by (simp_all add: py_int_of_str_def py_strip_def py_isspace_def digits_ok_def py_isdigit_def
      digits_val_def)

subsection \<open>Round trip\<close>

text \<open>Round trip of the form's numbers: for every integer \<open>n\<close>, \<open>int()\<close> of its
  decimal text \<open>str(n)\<close>, with any ASCII whitespace around it, gives back \<open>n\<close>.\<close>

theorem py_int_of_str_roundtrip:
  assumes "list_all py_isspace ws" and "list_all py_isspace ws'"
  shows "py_int_of_str (ws @ py_str n @ ws') = Inr n"
proof -
  have strip: "py_strip (ws @ py_str n @ ws') = py_str n"
    using assms py_str_ends [of n] by (intro py_strip_inner) simp_all
  show ?thesis
  proof (cases "n < 0")
    case True
    then show ?thesis
      using strip digits_ok_nat_digits [of "nat (- n)"] digits_val_nat_digits [of "nat (- n)"]
      by (simp add: py_int_of_str_def py_str_def)
  next
    case False
    obtain c r where cr: "nat_digits (nat n) = c # r" by (cases "nat_digits (nat n)") auto
    then have "c \<noteq> CHR ''-'' \<and> c \<noteq> CHR ''+''"
      using nat_digits_ends [of "nat n"] digit_not_sign by simp
    then show ?thesis
      using False strip cr digits_ok_nat_digits [of "nat n"] digits_val_nat_digits [of "nat n"]
      by (simp add: py_int_of_str_def py_str_def)
  qed
qed

theorem py_int_of_str_roundtrip_witness:
  "list_all py_isspace '' '' \<and> list_all py_isspace [CHR 0x09] \<and>
   py_int_of_str ('' '' @ py_str (- 42) @ [CHR 0x09]) = Inr (- 42)"
proof -
  have sp: "list_all py_isspace '' ''" "list_all py_isspace [CHR 0x09]"
    by (simp_all add: py_isspace_def)
  with py_int_of_str_roundtrip [OF sp, of "- 42"] show ?thesis by simp
qed

end
