(* ===== verification/Gui.thy ===== *)
theory Gui
  imports Form Run
begin

text \<open>
  The tkinter form and the worker threads of \<open>src/bot_adb.py\<close> (lines 149--248).
  \<^item> The form: five entry fields (\<open>form\<close>, with their texts and their common
    \<open>state\<close>, \<open>entry_states\<close>), filled with the defaults of lines 244--248
    (\<open>gui_init\<close>); \<open>disable_fields\<close> and \<open>enable_fields\<close> (lines 181--193) set the state
    of all five.
  \<^item> The Start button (line 236) starts a new thread running \<open>start_bot\<close>; nothing stops
    it from being pressed while a bot runs. The Stop button (line 239) runs \<open>stop_bot\<close> in
    the GUI thread: \<open>bot.running = False\<close> on the module-global \<open>bot\<close>, a \<open>NameError\<close>
    (no effect) before any bot was assigned.
  \<^item> A worker (one \<open>start_bot\<close> thread) is a program counter \<open>worker\<close>: \<open>Reading\<close> the
    entries (lines 152--156), \<open>Connecting\<close> (adb and \<open>Bot(...)\<close>, lines 159--163, ending
    with the assignment of the global \<open>bot\<close>), \<open>Assigned\<close> (before
    \<open>bot.running = True; disable_fields()\<close>, lines 165--166), \<open>Looping\<close> (at
    \<open>while bot.running\<close>, line 168) and \<open>Finished\<close> (after \<open>finally: enable_fields()\<close>).
    Every use of \<open>bot\<close> in \<open>start_bot\<close> reads the global (\<open>global bot\<close>, line 150), so a
    worker drives whatever bot the global names at that moment.
  \<^item> The bots are an object store (\<open>bots\<close>, addresses are indices) with the global
    reference \<open>global_bot\<close>; the device is the list of actions issued so far.
  \<^item> \<open>gui_step\<close> is one event of the interleaving: a button press, typing into an entry
    (only while the entries are enabled), one step of a worker (a whole cycle \<open>bot.run()\<close>
    on the frame the device returns, for a looping worker), or the failure of a worker's
    connection (\<open>subprocess.check_output\<close> or \<open>ViewClient\<close>; the exception ends the
    worker through its \<open>finally\<close>). A cycle is one step: the Stop button is honoured
    between cycles, as the code polls the flag only at the loop head.
\<close>

datatype entry_state = Normal | Disabled

datatype entry = Capacity_Entry | Stations_Entry | Clicks_Entry | Used_Entry | Rows_Entry

record form =
  station_capacity_entry :: string
  number_of_stations_entry :: string
  number_of_clicks_entry :: string
  stations_used_entry :: string
  rows_entry :: string
  entry_states :: entry_state

datatype worker = Reading | Connecting int int int int int | Assigned | Looping | Finished

record gui = form +
  bots :: "bot list"
  global_bot :: "nat option"
  workers :: "worker list"
  device :: "action list"

datatype gui_event =
    Press_Start | Press_Stop | Type_Entry entry string
  | Worker_Step nat frame | Connect_Fails nat

definition set_entry :: "entry \<Rightarrow> string \<Rightarrow> 'a form_scheme \<Rightarrow> 'a form_scheme" where
  "set_entry e s f = (case e of
       Capacity_Entry \<Rightarrow> f\<lparr>station_capacity_entry := s\<rparr>
     | Stations_Entry \<Rightarrow> f\<lparr>number_of_stations_entry := s\<rparr>
     | Clicks_Entry \<Rightarrow> f\<lparr>number_of_clicks_entry := s\<rparr>
     | Used_Entry \<Rightarrow> f\<lparr>stations_used_entry := s\<rparr>
     | Rows_Entry \<Rightarrow> f\<lparr>rows_entry := s\<rparr>)"

definition disable_fields :: "'a form_scheme \<Rightarrow> 'a form_scheme" where
  "disable_fields f = f\<lparr>entry_states := Disabled\<rparr>"

definition enable_fields :: "'a form_scheme \<Rightarrow> 'a form_scheme" where
  "enable_fields f = f\<lparr>entry_states := Normal\<rparr>"

definition read_form :: "'a form_scheme \<Rightarrow> py_error + int \<times> int \<times> int \<times> int \<times> int" where
  "read_form f =
     (case py_int_of_str (station_capacity_entry f) of Inl e \<Rightarrow> Inl e | Inr bot_capacity \<Rightarrow>
      case py_int_of_str (number_of_stations_entry f) of Inl e \<Rightarrow> Inl e | Inr bot_stations \<Rightarrow>
      case py_int_of_str (number_of_clicks_entry f) of Inl e \<Rightarrow> Inl e | Inr bot_clicks \<Rightarrow>
      case py_int_of_str (stations_used_entry f) of Inl e \<Rightarrow> Inl e | Inr bot_used_stations \<Rightarrow>
      case py_int_of_str (rows_entry f) of Inl e \<Rightarrow> Inl e | Inr rows' \<Rightarrow>
        Inr (bot_capacity, bot_stations, bot_clicks, bot_used_stations, rows'))"

definition finish :: "nat \<Rightarrow> 'a gui_scheme \<Rightarrow> 'a gui_scheme" where
  "finish k g = enable_fields (g\<lparr>workers := (workers g)[k := Finished]\<rparr>)"

definition worker_step :: "nat \<Rightarrow> frame \<Rightarrow> 'a gui_scheme \<Rightarrow> 'a gui_scheme" where
  "worker_step k img g =
     (case workers g ! k of
        Reading \<Rightarrow>
          (case read_form g of
             Inl e \<Rightarrow> finish k g
           | Inr (bot_capacity, bot_stations, bot_clicks, bot_used_stations, rows') \<Rightarrow>
               g\<lparr>workers := (workers g)[k := Connecting bot_capacity bot_stations bot_clicks bot_used_stations rows']\<rparr>)
      | Connecting bot_capacity bot_stations bot_clicks bot_used_stations rows' \<Rightarrow>
          (case bot_init bot_capacity bot_clicks bot_stations bot_used_stations rows' of
             Inl e \<Rightarrow> finish k g
           | Inr b \<Rightarrow> g\<lparr>bots := bots g @ [b], global_bot := Some (length (bots g)),
                         workers := (workers g)[k := Assigned]\<rparr>)
      | Assigned \<Rightarrow>
          (case global_bot g of
             None \<Rightarrow> g
           | Some a \<Rightarrow> disable_fields (g\<lparr>bots := (bots g)[a := (bots g ! a)\<lparr>running := True\<rparr>],
                                          workers := (workers g)[k := Looping]\<rparr>))
      | Looping \<Rightarrow>
          (case global_bot g of
             None \<Rightarrow> g
           | Some a \<Rightarrow>
               if \<not> running (bots g ! a) then finish k g
               else (case run (bots g ! a) img of
                       (b', acts, r) \<Rightarrow>
                         (let g' = g\<lparr>bots := (bots g)[a := b'], device := device g @ acts\<rparr>
                          in case r of Inr True \<Rightarrow> g' | _ \<Rightarrow> finish k g')))
      | Finished \<Rightarrow> g)"

definition stop_bot :: "'a gui_scheme \<Rightarrow> 'a gui_scheme" where
  "stop_bot g = (case global_bot g of
       None \<Rightarrow> g
     | Some a \<Rightarrow> g\<lparr>bots := (bots g)[a := (bots g ! a)\<lparr>running := False\<rparr>]\<rparr>)"

fun gui_step :: "'a gui_scheme \<Rightarrow> gui_event \<Rightarrow> 'a gui_scheme" where
  "gui_step g Press_Start = g\<lparr>workers := workers g @ [Reading]\<rparr>"
| "gui_step g Press_Stop = stop_bot g"
| "gui_step g (Type_Entry e s) = (if entry_states g = Normal then set_entry e s g else g)"
| "gui_step g (Worker_Step k img) = (if k < length (workers g) then worker_step k img g else g)"
| "gui_step g (Connect_Fails k) =
     (if k < length (workers g)
      then (case workers g ! k of Connecting _ _ _ _ _ \<Rightarrow> finish k g | _ \<Rightarrow> g) else g)"

definition gui_init :: gui where
  "gui_init = \<lparr>station_capacity_entry = ''5'', number_of_stations_entry = ''32'',
     number_of_clicks_entry = ''1'', stations_used_entry = ''0'', rows_entry = ''3'',
     entry_states = Normal, bots = [], global_bot = None, workers = [], device = []\<rparr>"

definition gui_run :: "'a gui_scheme \<Rightarrow> gui_event list \<Rightarrow> 'a gui_scheme" where
  "gui_run g es = foldl gui_step g es"

text \<open>The invariant of every reachable state: the entries are disabled only while some
  worker loops, the global names a bot of the store, and no worker is past the assignment
  while the global is undefined. \<open>fields_track\<close> is the stronger correspondence the
  form is meant to keep: disabled exactly while a worker loops.\<close>

definition gui_ok :: "'a gui_scheme \<Rightarrow> bool" where
  "gui_ok g \<longleftrightarrow>
     (entry_states g = Disabled \<longrightarrow> Looping \<in> set (workers g)) \<and>
     (case global_bot g of None \<Rightarrow> Assigned \<notin> set (workers g) \<and> Looping \<notin> set (workers g)
                         | Some a \<Rightarrow> a < length (bots g))"

definition fields_track :: "'a gui_scheme \<Rightarrow> bool" where
  "fields_track g \<longleftrightarrow> (entry_states g = Disabled \<longleftrightarrow> Looping \<in> set (workers g))"

subsection \<open>Updates of the store and the workers\<close>

lemma mem_update_other: "x \<in> set xs \<Longrightarrow> xs ! k \<noteq> x \<Longrightarrow> x \<in> set (xs[k := y])"
  by (induction xs arbitrary: k) (auto split: nat.splits)

lemma not_mem_update: "x \<notin> set xs \<Longrightarrow> y \<noteq> x \<Longrightarrow> x \<notin> set (xs[k := y])"
  using set_update_subset_insert [of xs k y] by blast

lemma mem_update_self: "k < length xs \<Longrightarrow> y \<in> set (xs[k := y])"
  by (simp add: set_update_memI)

lemma finish_simps [simp]:
  "workers (finish k g) = (workers g)[k := Finished]" "entry_states (finish k g) = Normal"
  "bots (finish k g) = bots g" "global_bot (finish k g) = global_bot g" "device (finish k g) = device g"
  by (simp_all add: finish_def enable_fields_def)

lemma stop_bot_simps [simp]:
  "workers (stop_bot g) = workers g" "entry_states (stop_bot g) = entry_states g"
  "global_bot (stop_bot g) = global_bot g" "length (bots (stop_bot g)) = length (bots g)"
  "device (stop_bot g) = device g"
  by (simp_all add: stop_bot_def split: option.splits)

lemma set_entry_simps [simp]:
  "workers (set_entry e s g) = workers g" "entry_states (set_entry e s g) = entry_states g"
  "global_bot (set_entry e s g) = global_bot g" "bots (set_entry e s g) = bots g"
  "device (set_entry e s g) = device g"
  by (simp_all add: set_entry_def split: entry.splits)

lemma gui_run_snoc [simp]: "gui_run g (es @ [e]) = gui_step (gui_run g es) e"
  by (simp add: gui_run_def)

lemma gui_run_Cons [simp]: "gui_run g (e # es) = gui_run (gui_step g e) es"
  by (simp add: gui_run_def)

lemma gui_run_Nil [simp]: "gui_run g [] = g"
  by (simp add: gui_run_def)

lemma read_form_Inl: "read_form f = Inl e \<Longrightarrow> e = ValueError"
  by (auto simp: read_form_def py_int_of_str_def Let_def split: sum.splits prod.splits if_splits)

lemma length_workers_worker_step [simp]: "length (workers (worker_step k img g)) = length (workers g)"
  by (simp add: worker_step_def disable_fields_def Let_def
      split: worker.splits sum.splits prod.splits option.splits bool.splits)

lemma length_workers_step:
  "length (workers (gui_step g e)) = length (workers g) + (if e = Press_Start then 1 else 0)"
  by (cases e) (simp_all split: worker.splits)

lemma length_workers_run:
  "length (workers (gui_run g es)) = length (workers g) + length (filter (\<lambda>e. e = Press_Start) es)"
  by (induction es rule: rev_induct) (simp_all add: length_workers_step)

subsection \<open>The invariant\<close>

lemma gui_ok_finish: "gui_ok g \<Longrightarrow> gui_ok (finish k g)"
  by (auto simp: gui_ok_def finish_def enable_fields_def not_mem_update split: option.splits)

lemma gui_ok_worker_step:
  assumes ok: "gui_ok g" and k: "k < length (workers g)"
  shows "gui_ok (worker_step k img g)"
proof (cases "workers g ! k")
  case Reading
  show ?thesis
  proof (cases "read_form g")
    case (Inl e)
    with Reading ok show ?thesis by (simp add: worker_step_def gui_ok_finish)
  next
    case (Inr v)
    with Reading ok show ?thesis
      by (cases v) (auto simp: worker_step_def gui_ok_def mem_update_other not_mem_update split: option.splits)
  qed
next
  case (Connecting c s cl u r)
  show ?thesis
  proof (cases "bot_init c cl s u r")
    case (Inl e)
    with Connecting ok show ?thesis by (simp add: worker_step_def gui_ok_finish)
  next
    case (Inr b)
    with Connecting ok show ?thesis
      by (auto simp: worker_step_def gui_ok_def mem_update_other split: option.splits)
  qed
next
  case Assigned
  with ok k obtain a where a: "global_bot g = Some a" "a < length (bots g)"
    by (auto simp: gui_ok_def split: option.splits dest: nth_mem)
  with Assigned ok k show ?thesis
    by (auto simp: worker_step_def gui_ok_def disable_fields_def mem_update_self)
next
  case Looping
  with ok k obtain a where a: "global_bot g = Some a" "a < length (bots g)"
    by (auto simp: gui_ok_def split: option.splits dest: nth_mem)
  obtain b' acts r where r: "run (bots g ! a) img = (b', acts, r)" by (cases "run (bots g ! a) img") auto
  show ?thesis
  proof (cases "\<not> running (bots g ! a) \<or> r \<noteq> Inr True")
    case True
    then have "worker_step k img g = finish k g \<or>
        worker_step k img g = finish k (g\<lparr>bots := (bots g)[a := b'], device := device g @ acts\<rparr>)"
      using Looping a r by (auto simp: worker_step_def Let_def split: sum.splits bool.splits)
    moreover have "gui_ok (g\<lparr>bots := (bots g)[a := b'], device := device g @ acts\<rparr>)"
      using ok by (simp add: gui_ok_def split: option.splits)
    ultimately show ?thesis using ok gui_ok_finish by metis
  next
    case False
    then have "worker_step k img g = g\<lparr>bots := (bots g)[a := b'], device := device g @ acts\<rparr>"
      using Looping a r by (simp add: worker_step_def)
    then show ?thesis using ok by (simp add: gui_ok_def split: option.splits)
  qed
next
  case Finished
  then show ?thesis using ok by (simp add: worker_step_def)
qed

lemma gui_ok_step:
  assumes "gui_ok g"
  shows "gui_ok (gui_step g e)"
proof (cases e)
  case Press_Start
  with assms show ?thesis by (auto simp: gui_ok_def split: option.splits)
next
  case Press_Stop
  with assms show ?thesis by (simp add: gui_ok_def split: option.splits)
next
  case (Type_Entry x s)
  with assms show ?thesis by (simp add: gui_ok_def split: option.splits)
next
  case (Worker_Step k img)
  with assms show ?thesis by (simp add: gui_ok_worker_step)
next
  case (Connect_Fails k)
  with assms show ?thesis by (auto simp: gui_ok_finish split: worker.splits)
qed

subsection \<open>A single worker\<close>

lemma fields_track_single_step:
  assumes "workers g = [w]" and "fields_track g"
  shows "fields_track (worker_step 0 img g)"
proof (cases w)
  case Looping
  obtain b' acts r where r: "run (bots g ! the (global_bot g)) img = (b', acts, r)"
    by (cases "run (bots g ! the (global_bot g)) img") auto
  with Looping assms show ?thesis
    by (auto simp: fields_track_def worker_step_def Let_def split: option.splits sum.splits bool.splits)
qed (use assms in \<open>auto simp: fields_track_def worker_step_def disable_fields_def
       split: option.splits sum.splits prod.splits\<close>)

lemma fields_track_step:
  assumes "fields_track g" and "length (workers (gui_step g e)) \<le> 1"
  shows "fields_track (gui_step g e)"
proof (cases e)
  case Press_Start
  with assms have "workers g = []" by (simp add: length_workers_step)
  with assms(1) Press_Start show ?thesis by (simp add: fields_track_def)
next
  case Press_Stop
  with assms show ?thesis by (simp add: fields_track_def)
next
  case (Type_Entry x s)
  with assms show ?thesis by (cases "entry_states g") (simp_all add: fields_track_def)
next
  case (Worker_Step k img)
  show ?thesis
  proof (cases "k < length (workers g)")
    case True
    have "length (workers g) \<le> 1"
      using assms(2) Worker_Step length_workers_step [of g e] by simp
    with True obtain w where "workers g = [w]" and "k = 0"
      by (cases "workers g") auto
    with assms(1) Worker_Step show ?thesis by (simp add: fields_track_single_step)
  next
    case False
    with assms Worker_Step show ?thesis by simp
  qed
next
  case (Connect_Fails k)
  show ?thesis
  proof (cases "k < length (workers g)")
    case True
    have "length (workers g) \<le> 1"
      using assms(2) Connect_Fails length_workers_step [of g e] by simp
    with True obtain w where "workers g = [w]" and "k = 0"
      by (cases "workers g") auto
    with assms(1) Connect_Fails show ?thesis
      by (auto simp: fields_track_def split: worker.splits)
  next
    case False
    with assms Connect_Fails show ?thesis by simp
  qed
qed

lemma finished_worker_inert:
  assumes "workers g ! k = Finished"
  shows "gui_run g (map (Worker_Step k) imgs) = g"
  using assms by (induction imgs) (simp_all add: worker_step_def)

lemma looping_worker_device:
  assumes "k < length (workers g)" and "workers g ! k = Looping"
    and "global_bot g = Some a" and "a < length (bots g)"
  shows "device (gui_run g (map (Worker_Step k) imgs)) =
    device g @ fst (snd (bot_loop (bots g ! a) (map Capture imgs)))"
  using assms
proof (induction imgs arbitrary: g)
  case Nil
  then show ?case by simp
next
  case (Cons img imgs)
  show ?case
  proof (cases "running (bots g ! a)")
    case False
    then have "worker_step k img g = finish k g" using Cons.prems by (simp add: worker_step_def)
    then show ?thesis
      using Cons.prems False finished_worker_inert [of "finish k g" k imgs]
      by (simp add: bot_loop_not_running)
  next
    case True
    obtain b' acts r where r: "run (bots g ! a) img = (b', acts, r)"
      by (cases "run (bots g ! a) img") auto
    let ?g' = "g\<lparr>bots := (bots g)[a := b'], device := device g @ acts\<rparr>"
    show ?thesis
    proof (cases "r = Inr True")
      case rt: True
      then have "worker_step k img g = ?g'" using Cons.prems True r by (simp add: worker_step_def)
      moreover have "device (gui_run ?g' (map (Worker_Step k) imgs)) =
          device ?g' @ fst (snd (bot_loop b' (map Capture imgs)))"
        using Cons.IH [of ?g'] Cons.prems by simp
      moreover obtain s2 a2 o2 where "bot_loop b' (map Capture imgs) = (s2, a2, o2)"
        by (cases "bot_loop b' (map Capture imgs)") auto
      ultimately show ?thesis using Cons.prems True r rt by simp
    next
      case False
      then have "worker_step k img g = finish k ?g'"
        using Cons.prems True r by (auto simp: worker_step_def Let_def split: sum.splits bool.splits)
      moreover have "gui_run (finish k ?g') (map (Worker_Step k) imgs) = finish k ?g'"
        using Cons.prems by (intro finished_worker_inert) simp
      ultimately show ?thesis
        using Cons.prems True r False by (auto split: sum.splits bool.splits)
    qed
  qed
qed

lemmas gui_eval = gui_init_def worker_step_def read_form_def py_int_of_str_def py_strip_def
  py_isspace_def digits_ok_def py_isdigit_def digits_val_def bot_init_Inr stop_bot_def
  disable_fields_def enable_fields_def finish_def

lemma read_form_gui_update [simp]:
  "read_form (g\<lparr>workers := w\<rparr>) = read_form g"
  "read_form (g\<lparr>bots := bs, global_bot := x, workers := w\<rparr>) = read_form g"
  by (simp_all add: read_form_def cong: sum.case_cong)

subsection \<open>Properties of the form and the workers\<close>

text \<open>C11: in every state the GUI reaches from its start, whatever the interleaving of
  button presses, typing, worker steps and connection failures, the entries are disabled
  only while some worker loops, the global \<open>bot\<close> names a constructed bot, and no worker
  has passed the assignment of the global while it is undefined (so no worker step meets
  the \<open>NameError\<close> that \<open>stop_bot\<close> can).\<close>

theorem gui_invariant: "gui_ok (gui_run gui_init es)"
proof (induction es rule: rev_induct)
  case Nil
  then show ?case by (simp add: gui_ok_def gui_init_def)
next
  case (snoc e es)
  then show ?case by (simp add: gui_ok_step)
qed

text \<open>C16: with at most one press of Start, the entries are disabled exactly while the
  worker loops: \<open>disable_fields\<close> and \<open>enable_fields\<close> bracket the loop.\<close>

theorem single_start_fields:
  assumes "length (filter (\<lambda>e. e = Press_Start) es) \<le> 1"
  shows "entry_states (gui_run gui_init es) = Disabled \<longleftrightarrow> Looping \<in> set (workers (gui_run gui_init es))"
proof -
  have "fields_track (gui_run gui_init es)" using assms
  proof (induction es rule: rev_induct)
    case Nil
    then show ?case by (simp add: fields_track_def gui_init_def)
  next
    case (snoc e es)
    have "length (workers (gui_run gui_init (es @ [e]))) \<le> 1"
      using snoc.prems by (simp only: length_workers_run) (simp add: gui_init_def)
    moreover have "fields_track (gui_run gui_init es)" using snoc by simp
    ultimately show ?case by (simp add: fields_track_step)
  qed
  then show ?thesis by (simp add: fields_track_def)
qed

theorem single_start_fields_witness:
  "length (filter (\<lambda>e. e = Press_Start) [Press_Start, Worker_Step 0 \<lparr>fr_h = 1, fr_w = 1, fr_px = \<lambda>_ _. (0, 0, 0)\<rparr>, Worker_Step 0 \<lparr>fr_h = 1, fr_w = 1, fr_px = \<lambda>_ _. (0, 0, 0)\<rparr>, Worker_Step 0 \<lparr>fr_h = 1, fr_w = 1, fr_px = \<lambda>_ _. (0, 0, 0)\<rparr>]) \<le> 1 \<and>
   entry_states (gui_run gui_init [Press_Start, Worker_Step 0 \<lparr>fr_h = 1, fr_w = 1, fr_px = \<lambda>_ _. (0, 0, 0)\<rparr>, Worker_Step 0 \<lparr>fr_h = 1, fr_w = 1, fr_px = \<lambda>_ _. (0, 0, 0)\<rparr>, Worker_Step 0 \<lparr>fr_h = 1, fr_w = 1, fr_px = \<lambda>_ _. (0, 0, 0)\<rparr>]) = Disabled \<and>
   Looping \<in> set (workers (gui_run gui_init [Press_Start, Worker_Step 0 \<lparr>fr_h = 1, fr_w = 1, fr_px = \<lambda>_ _. (0, 0, 0)\<rparr>, Worker_Step 0 \<lparr>fr_h = 1, fr_w = 1, fr_px = \<lambda>_ _. (0, 0, 0)\<rparr>, Worker_Step 0 \<lparr>fr_h = 1, fr_w = 1, fr_px = \<lambda>_ _. (0, 0, 0)\<rparr>]))"
proof -
  let ?es = "[Press_Start, Worker_Step 0 \<lparr>fr_h = 1, fr_w = 1, fr_px = \<lambda>_ _. (0, 0, 0)\<rparr>, Worker_Step 0 \<lparr>fr_h = 1, fr_w = 1, fr_px = \<lambda>_ _. (0, 0, 0)\<rparr>, Worker_Step 0 \<lparr>fr_h = 1, fr_w = 1, fr_px = \<lambda>_ _. (0, 0, 0)\<rparr>]"
  have h: "length (filter (\<lambda>e. e = Press_Start) ?es) \<le> 1" by simp
  have "Looping \<in> set (workers (gui_run gui_init ?es))" by (simp add: gui_eval)
  with single_start_fields [OF h] h show ?thesis by simp
qed

text \<open>C14: the entries do not track a running bot once Start is pressed twice: in any
  state where a worker loops on a running global bot, a second Start whose worker fails
  (to parse the entries or to connect) runs its \<open>finally\<close> and enables the entries,
  which then accept typing, while the first worker still loops on the same running bot.\<close>

theorem second_start_enables_fields:
  assumes "k < length (workers g)" and "workers g ! k = Looping"
    and "global_bot g = Some a" and "running (bots g ! a)"
  shows "let g' = gui_run g [Press_Start, Worker_Step (length (workers g)) img,
                             Connect_Fails (length (workers g))]
         in entry_states g' = Normal \<and> workers g' ! k = Looping \<and> global_bot g' = Some a \<and>
            running (bots g' ! a)"
proof (cases "read_form g")
  case (Inl e)
  then show ?thesis using assms
    by (simp add: gui_run_def worker_step_def finish_def enable_fields_def nth_append)
next
  case (Inr v)
  then obtain c s cl u r where "read_form g = Inr (c, s, cl, u, r)" by (cases v) auto
  then show ?thesis using assms
    by (simp add: gui_run_def worker_step_def finish_def enable_fields_def nth_append)
qed

theorem second_start_enables_fields_witness:
  "entry_states (gui_run (gui_run gui_init [Press_Start, Worker_Step 0 \<lparr>fr_h = 1, fr_w = 1, fr_px = \<lambda>_ _. (0, 0, 0)\<rparr>, Worker_Step 0 \<lparr>fr_h = 1, fr_w = 1, fr_px = \<lambda>_ _. (0, 0, 0)\<rparr>, Worker_Step 0 \<lparr>fr_h = 1, fr_w = 1, fr_px = \<lambda>_ _. (0, 0, 0)\<rparr>])
     [Press_Start, Worker_Step 1 \<lparr>fr_h = 1, fr_w = 1, fr_px = \<lambda>_ _. (0, 0, 0)\<rparr>, Connect_Fails 1]) = Normal"
proof -
  let ?img = "\<lparr>fr_h = 1, fr_w = 1, fr_px = \<lambda>_ _. (0::8 word, 0::8 word, 0::8 word)\<rparr>"
  let ?g = "gui_run gui_init [Press_Start, Worker_Step 0 ?img, Worker_Step 0 ?img, Worker_Step 0 ?img]"
  have h: "0 < length (workers ?g)" "workers ?g ! 0 = Looping" "global_bot ?g = Some 0"
    "running (bots ?g ! 0)" "length (workers ?g) = 1"
    by (simp_all add: gui_eval)
  note t = second_start_enables_fields [OF h(1-4), of ?img]
  show ?thesis using t unfolding Let_def h(5) by (rule conjunct1)
qed

text \<open>C17: Stop pressed while a worker loops on the global bot ends that worker at its
  next step, with no further device action, and enables the entries.\<close>

theorem stop_ends_worker:
  assumes "k < length (workers g)" and "workers g ! k = Looping"
    and "global_bot g = Some a" and "a < length (bots g)"
  shows "workers (gui_run g [Press_Stop, Worker_Step k img]) ! k = Finished \<and>
    device (gui_run g [Press_Stop, Worker_Step k img]) = device g \<and>
    entry_states (gui_run g [Press_Stop, Worker_Step k img]) = Normal \<and>
    \<not> running (bots (gui_run g [Press_Stop, Worker_Step k img]) ! a)"
  using assms by (simp add: stop_bot_def worker_step_def)

theorem stop_ends_worker_witness:
  "workers (gui_run (gui_run gui_init [Press_Start, Worker_Step 0 \<lparr>fr_h = 1, fr_w = 1, fr_px = \<lambda>_ _. (0, 0, 0)\<rparr>, Worker_Step 0 \<lparr>fr_h = 1, fr_w = 1, fr_px = \<lambda>_ _. (0, 0, 0)\<rparr>, Worker_Step 0 \<lparr>fr_h = 1, fr_w = 1, fr_px = \<lambda>_ _. (0, 0, 0)\<rparr>])
     [Press_Stop, Worker_Step 0 \<lparr>fr_h = 1, fr_w = 1, fr_px = \<lambda>_ _. (0, 0, 0)\<rparr>]) ! 0 = Finished"
proof -
  let ?g = "gui_run gui_init [Press_Start, Worker_Step 0 \<lparr>fr_h = 1, fr_w = 1, fr_px = \<lambda>_ _. (0, 0, 0)\<rparr>, Worker_Step 0 \<lparr>fr_h = 1, fr_w = 1, fr_px = \<lambda>_ _. (0, 0, 0)\<rparr>, Worker_Step 0 \<lparr>fr_h = 1, fr_w = 1, fr_px = \<lambda>_ _. (0, 0, 0)\<rparr>]"
  have h: "0 < length (workers ?g)" "workers ?g ! 0 = Looping" "global_bot ?g = Some 0" "0 < length (bots ?g)"
    by (simp_all add: gui_eval)
  from stop_ends_worker [OF h, of "\<lparr>fr_h = 1, fr_w = 1, fr_px = \<lambda>_ _. (0, 0, 0)\<rparr>"] show ?thesis by (rule conjunct1)
qed

text \<open>C13: a Stop pressed while a worker is still connecting is lost: \<open>stop_bot\<close> acts on
  the global as it is then (an older bot, or nothing), and the worker goes on to assign
  its new bot, set it running and loop.\<close>

theorem stop_while_connecting_lost:
  assumes "k < length (workers g)" and "workers g ! k = Connecting c s cl u r"
    and "bot_init c cl s u r = Inr b"
  shows "workers (gui_run g [Press_Stop, Worker_Step k img, Worker_Step k img']) ! k = Looping \<and>
    global_bot (gui_run g [Press_Stop, Worker_Step k img, Worker_Step k img']) = Some (length (bots g)) \<and>
    running (bots (gui_run g [Press_Stop, Worker_Step k img, Worker_Step k img']) ! length (bots g))"
  using assms by (simp add: worker_step_def disable_fields_def nth_append)

theorem stop_while_connecting_lost_witness:
  "workers (gui_run (gui_run gui_init [Press_Start, Worker_Step 0 \<lparr>fr_h = 1, fr_w = 1, fr_px = \<lambda>_ _. (0, 0, 0)\<rparr>])
     [Press_Stop, Worker_Step 0 \<lparr>fr_h = 1, fr_w = 1, fr_px = \<lambda>_ _. (0, 0, 0)\<rparr>, Worker_Step 0 \<lparr>fr_h = 1, fr_w = 1, fr_px = \<lambda>_ _. (0, 0, 0)\<rparr>]) ! 0 = Looping"
proof -
  let ?g = "gui_run gui_init [Press_Start, Worker_Step 0 \<lparr>fr_h = 1, fr_w = 1, fr_px = \<lambda>_ _. (0, 0, 0)\<rparr>]"
  have h: "0 < length (workers ?g)" "workers ?g ! 0 = Connecting 5 32 1 0 3"
    by (simp_all add: gui_eval)
  have b: "bot_init 5 1 32 0 3 = Inr (projr (bot_init 5 1 32 0 3))" by (simp add: bot_init_Inr)
  from stop_while_connecting_lost [OF h b, of "\<lparr>fr_h = 1, fr_w = 1, fr_px = \<lambda>_ _. (0, 0, 0)\<rparr>" "\<lparr>fr_h = 1, fr_w = 1, fr_px = \<lambda>_ _. (0, 0, 0)\<rparr>"] show ?thesis by (rule conjunct1)
qed

text \<open>C39: an entry that \<open>int()\<close> rejects ends the worker at its first step with
  \<open>ValueError\<close> caught by \<open>start_bot\<close>'s handler: no bot is built, no device action is
  issued, and the entries are enabled.\<close>

theorem invalid_entry_ends_worker:
  assumes "k < length (workers g)" and "workers g ! k = Reading" and "read_form g = Inl e"
  shows "e = ValueError \<and>
    gui_step g (Worker_Step k img) = g\<lparr>workers := (workers g)[k := Finished], entry_states := Normal\<rparr>"
  using assms read_form_Inl [OF assms(3)]
  by (simp add: worker_step_def finish_def enable_fields_def)

theorem invalid_entry_ends_worker_witness:
  "gui_step (gui_init\<lparr>station_capacity_entry := ''five'', workers := [Reading]\<rparr>) (Worker_Step 0 \<lparr>fr_h = 1, fr_w = 1, fr_px = \<lambda>_ _. (0, 0, 0)\<rparr>) =
   gui_init\<lparr>station_capacity_entry := ''five'', workers := [Finished], entry_states := Normal\<rparr>"
proof -
  let ?g = "gui_init\<lparr>station_capacity_entry := ''five'', workers := [Reading]\<rparr>"
  have h: "0 < length (workers ?g)" "workers ?g ! 0 = Reading" "read_form ?g = Inl ValueError"
    by (simp_all add: gui_eval)
  from invalid_entry_ends_worker [OF h, of "\<lparr>fr_h = 1, fr_w = 1, fr_px = \<lambda>_ _. (0, 0, 0)\<rparr>"] show ?thesis by (simp add: gui_init_def)
qed

text \<open>C10: refinement of the sequential model: a worker started alone from entries that
  parse to \<open>(c, s, cl, u, r)\<close>, and then given a frame at each step, issues exactly the
  device actions of \<open>start_bot c s cl u r\<close> (module \<open>Run\<close>) on the same frames.\<close>

theorem single_worker_refines_start_bot:
  assumes "read_form g = Inr (c, s, cl, u, r)" and "workers g = []"
  shows "device (gui_run g (Press_Start # Worker_Step 0 i0 # Worker_Step 0 i1 # Worker_Step 0 i2 #
            map (Worker_Step 0) imgs)) =
         device g @ fst (start_bot c s cl u r (map Capture imgs))"
proof -
  let ?g1 = "gui_step g Press_Start"
  have g1: "workers ?g1 = [Reading]" "read_form ?g1 = read_form g"
    using assms(2) by (simp_all add: read_form_def cong: sum.case_cong)
  let ?g2 = "gui_step ?g1 (Worker_Step 0 i0)"
  have g2: "?g2 = ?g1\<lparr>workers := [Connecting c s cl u r]\<rparr>"
    using g1 assms(1) by (simp add: worker_step_def)
  show ?thesis
  proof (cases "bot_init c cl s u r")
    case (Inl e)
    let ?g3 = "gui_step ?g2 (Worker_Step 0 i1)"
    have "?g3 = finish 0 ?g2" using g2 Inl by (simp add: worker_step_def)
    then have "gui_run ?g3 (Worker_Step 0 i2 # map (Worker_Step 0) imgs) = ?g3"
      using finished_worker_inert [of ?g3 0 "i2 # imgs"] g2 by simp
    then show ?thesis using Inl g2 by (simp add: start_bot_def worker_step_def)
  next
    case (Inr b)
    let ?a = "length (bots g)"
    let ?g4 = "gui_step (gui_step ?g2 (Worker_Step 0 i1)) (Worker_Step 0 i2)"
    have g4: "workers ?g4 = [Looping]" "global_bot ?g4 = Some ?a" "?a < length (bots ?g4)"
      "bots ?g4 ! ?a = b\<lparr>running := True\<rparr>" "device ?g4 = device g"
      using g2 Inr by (simp_all add: worker_step_def disable_fields_def)
    have "device (gui_run ?g4 (map (Worker_Step 0) imgs)) =
        device ?g4 @ fst (snd (bot_loop (bots ?g4 ! ?a) (map Capture imgs)))"
      using g4 by (intro looping_worker_device) simp_all
    moreover obtain s2 a2 o2 where "bot_loop (b\<lparr>running := True\<rparr>) (map Capture imgs) = (s2, a2, o2)"
      by (cases "bot_loop (b\<lparr>running := True\<rparr>) (map Capture imgs)") auto
    ultimately show ?thesis using g4 Inr by (simp add: start_bot_def)
  qed
qed

theorem single_worker_refines_start_bot_witness:
  "device (gui_run gui_init [Press_Start, Worker_Step 0 \<lparr>fr_h = 1, fr_w = 1, fr_px = \<lambda>_ _. (0, 0, 0)\<rparr>, Worker_Step 0 \<lparr>fr_h = 1, fr_w = 1, fr_px = \<lambda>_ _. (0, 0, 0)\<rparr>, Worker_Step 0 \<lparr>fr_h = 1, fr_w = 1, fr_px = \<lambda>_ _. (0, 0, 0)\<rparr>]) =
   fst (start_bot 5 32 1 0 3 [])"
proof -
  have h: "read_form gui_init = Inr (5, 32, 1, 0, 3)" "workers gui_init = []"
    by (simp_all add: gui_eval)
  from single_worker_refines_start_bot [OF h, of "\<lparr>fr_h = 1, fr_w = 1, fr_px = \<lambda>_ _. (0, 0, 0)\<rparr>" "\<lparr>fr_h = 1, fr_w = 1, fr_px = \<lambda>_ _. (0, 0, 0)\<rparr>" "\<lparr>fr_h = 1, fr_w = 1, fr_px = \<lambda>_ _. (0, 0, 0)\<rparr>" "[]"] show ?thesis
    by (simp add: gui_init_def)
qed

text \<open>C37: Start reads the five entries into the constructor in its argument order: when
  the entries hold the decimal texts of \<open>c, s, cl, u, r\<close> (capacity, number of stations,
  clicks per loop, stations already used, rows) and \<open>cl \<noteq> 0\<close>, the worker's first two
  steps build \<open>Bot(c, cl, s, u, r)\<close>: station capacity \<open>c\<close>, \<open>cl\<close> uses per tap, the
  stations \<open>create_station_tiles u s\<close>, \<open>c // cl\<close> uses on the first station and
  \<open>r\<close> rows of 9 slots, and assign it to the global bot.\<close>

theorem form_start_builds_bot:
  assumes "k < length (workers g)" and "workers g ! k = Reading"
    and "station_capacity_entry g = py_str c" and "number_of_stations_entry g = py_str s"
    and "number_of_clicks_entry g = py_str cl" and "stations_used_entry g = py_str u"
    and "rows_entry g = py_str r" and "cl \<noteq> 0"
  shows "gui_run g [Worker_Step k img, Worker_Step k img'] =
    g\<lparr>bots := bots g @ [\<lparr>station_cap = c, station_uses = cl,
         station_tiles = create_station_tiles u s, uses = c div cl,
         rows = r, cols = 9, offset = 10, empty_colors = [(223, 190, 164), (234, 208, 178)],
         threshold = 0.90, item_tiles = grid_tiles r 9, running = False\<rparr>],
      global_bot := Some (length (bots g)), workers := (workers g)[k := Assigned]\<rparr>"
proof -
  have "py_int_of_str (py_str n) = Inr n" for n
    using py_int_of_str_roundtrip [of "[]" "[]" n] by simp
  then have "read_form g = Inr (c, s, cl, u, r)" using assms(3-7) by (simp add: read_form_def)
  then show ?thesis using assms(1,2,8) by (simp add: gui_run_def worker_step_def bot_init_Inr)
qed

theorem form_start_builds_bot_witness:
  "bots (gui_run (gui_run gui_init [Press_Start]) [Worker_Step 0 \<lparr>fr_h = 1, fr_w = 1, fr_px = \<lambda>_ _. (0, 0, 0)\<rparr>,
      Worker_Step 0 \<lparr>fr_h = 1, fr_w = 1, fr_px = \<lambda>_ _. (0, 0, 0)\<rparr>]) =
   [\<lparr>station_cap = 5, station_uses = 1, station_tiles = create_station_tiles 0 32, uses = 5,
     rows = 3, cols = 9, offset = 10, empty_colors = [(223, 190, 164), (234, 208, 178)],
     threshold = 0.90, item_tiles = grid_tiles 3 9, running = False\<rparr>]"
proof -
  let ?g = "gui_run gui_init [Press_Start]"
  have w: "0 < length (workers ?g)" "workers ?g ! 0 = Reading" "bots ?g = []"
    by (simp_all add: gui_run_def gui_init_def)
  have e: "station_capacity_entry ?g = py_str 5" "number_of_stations_entry ?g = py_str 32"
    "number_of_clicks_entry ?g = py_str 1" "stations_used_entry ?g = py_str 0"
    "rows_entry ?g = py_str 3"
    by (simp_all add: gui_run_def gui_init_def) code_simp+
  from form_start_builds_bot [OF w(1,2) e, of "\<lparr>fr_h = 1, fr_w = 1, fr_px = \<lambda>_ _. (0, 0, 0)\<rparr>"
      "\<lparr>fr_h = 1, fr_w = 1, fr_px = \<lambda>_ _. (0, 0, 0)\<rparr>"] w(3) show ?thesis by simp
qed


text \<open>C15: a second Start while a worker loops stops that worker: once the second worker
  has assigned its new bot to the global (which \<open>Bot.__init__\<close> creates with
  \<open>running = False\<close>), the first worker's next loop test reads the new bot, ends
  without any device action and leaves its own bot, still marked running, to nobody.\<close>

theorem second_start_ends_first_worker:
  assumes "k < length (workers g)" and "workers g ! k = Looping"
    and "j < length (workers g)" and "workers g ! j = Connecting c s cl u r"
    and "bot_init c cl s u r = Inr b" and "global_bot g = Some a" and "a < length (bots g)"
  shows "workers (gui_run g [Worker_Step j img', Worker_Step k img]) ! k = Finished \<and>
    device (gui_run g [Worker_Step j img', Worker_Step k img]) = device g \<and>
    bots (gui_run g [Worker_Step j img', Worker_Step k img]) ! a = bots g ! a \<and>
    global_bot (gui_run g [Worker_Step j img', Worker_Step k img]) = Some (length (bots g))"
proof -
  have "\<not> running b" using assms(5) by (auto simp: bot_init_def Let_def split: sum.splits)
  moreover have "j \<noteq> k" using assms(2,4) by auto
  ultimately show ?thesis using assms by (simp add: worker_step_def nth_append)
qed

theorem second_start_ends_first_worker_witness:
  "workers (gui_run (gui_run gui_init [Press_Start, Worker_Step 0 \<lparr>fr_h = 1, fr_w = 1, fr_px = \<lambda>_ _. (0, 0, 0)\<rparr>, Worker_Step 0 \<lparr>fr_h = 1, fr_w = 1, fr_px = \<lambda>_ _. (0, 0, 0)\<rparr>, Worker_Step 0 \<lparr>fr_h = 1, fr_w = 1, fr_px = \<lambda>_ _. (0, 0, 0)\<rparr>,
      Press_Start, Worker_Step 1 \<lparr>fr_h = 1, fr_w = 1, fr_px = \<lambda>_ _. (0, 0, 0)\<rparr>]) [Worker_Step 1 \<lparr>fr_h = 1, fr_w = 1, fr_px = \<lambda>_ _. (0, 0, 0)\<rparr>, Worker_Step 0 \<lparr>fr_h = 1, fr_w = 1, fr_px = \<lambda>_ _. (0, 0, 0)\<rparr>]) ! 0 = Finished"
proof -
  let ?g = "gui_run gui_init [Press_Start, Worker_Step 0 \<lparr>fr_h = 1, fr_w = 1, fr_px = \<lambda>_ _. (0, 0, 0)\<rparr>, Worker_Step 0 \<lparr>fr_h = 1, fr_w = 1, fr_px = \<lambda>_ _. (0, 0, 0)\<rparr>, Worker_Step 0 \<lparr>fr_h = 1, fr_w = 1, fr_px = \<lambda>_ _. (0, 0, 0)\<rparr>,
      Press_Start, Worker_Step 1 \<lparr>fr_h = 1, fr_w = 1, fr_px = \<lambda>_ _. (0, 0, 0)\<rparr>]"
  have h: "0 < length (workers ?g)" "workers ?g ! 0 = Looping" "1 < length (workers ?g)"
    "workers ?g ! 1 = Connecting 5 32 1 0 3" "bot_init 5 1 32 0 3 = Inr (projr (bot_init 5 1 32 0 3))"
    "global_bot ?g = Some 0" "0 < length (bots ?g)"
    by (simp_all add: gui_eval)
  from second_start_ends_first_worker [OF h, of "\<lparr>fr_h = 1, fr_w = 1, fr_px = \<lambda>_ _. (0, 0, 0)\<rparr>" "\<lparr>fr_h = 1, fr_w = 1, fr_px = \<lambda>_ _. (0, 0, 0)\<rparr>"] show ?thesis by (rule conjunct1)
qed

end
