(* ===== verification/Logging.thy ===== *)
theory Logging
  imports Form
begin

text \<open>
  \<open>setup_logging\<close> (\<open>src/bot_adb.py\<close>, lines 12--19): it asks on standard input whether
  to log, and configures the \<open>logging\<close> module at \<open>DEBUG\<close> when the answer, stripped and
  lowered, is exactly \<open>y\<close>, at \<open>CRITICAL\<close> otherwise. The answer is the line \<open>input()\<close>
  returns; what the function emits is a log record (\<open>Log\<close>) or a line on standard output
  (\<open>Stdout\<close>). \<open>py_lower\<close> is \<open>str.lower\<close> on ASCII letters.
  The function is defined but never called in the program, so at run time the logging
  module keeps Python's default level \<open>WARNING\<close>: only the warnings of lines 135 and 170
  and the error of line 173 are shown. Logging has no effect on the bot's decisions.
\<close>

datatype log_level = DEBUG | CRITICAL

datatype log_output = Log string | Stdout string

definition py_lower :: "string \<Rightarrow> string" where
  "py_lower s = map (\<lambda>c. if (65::nat) \<le> of_char c \<and> of_char c \<le> (90::nat) then char_of (of_char c + (32::nat)) else c) s"

definition setup_logging :: "string \<Rightarrow> log_level \<times> log_output list" where
  "setup_logging answer =
     (let enable_logging = py_lower (py_strip answer)
      in if enable_logging = ''y'' then (DEBUG, [Log ''Logging is enabled at DEBUG level.''])
         else (CRITICAL, [Stdout ''Logging is disabled.'']))"

lemma setup_logging_answers:
  "setup_logging ''y'' = (DEBUG, [Log ''Logging is enabled at DEBUG level.''])"
  "setup_logging '' Y '' = (DEBUG, [Log ''Logging is enabled at DEBUG level.''])"
  "setup_logging ''yes'' = (CRITICAL, [Stdout ''Logging is disabled.''])"
  "setup_logging [] = (CRITICAL, [Stdout ''Logging is disabled.''])"
  by code_simp+

lemma setup_logging_level:
  "fst (setup_logging answer) = DEBUG \<longleftrightarrow> py_lower (py_strip answer) = ''y''"
  by (simp add: setup_logging_def Let_def)

end
