(* ===== verification/Spec2Isabelle.thy ===== *)
theory Spec2Isabelle
  imports Coordinates Stations Bot Similarity Classifier Matching Pass Run Form Gui Logging
begin

text \<open>
  \<^bold>\<open>A verification development for florabot.\<close>
  The program, \<open>src/bot_adb.py\<close>, merges matching tiles of a mobile game: it reads a
  screenshot of the device, looks for pairs of identical tiles on a grid of item slots and
  drags one onto the other; when a whole pass over the grid finds no pair it taps a
  "station" (a refill slot) instead, each station allowing \<open>station_cap // station_uses\<close>
  taps before it is used up; with no station left the bot stops. A tkinter form supplies
  the numbers and starts and stops the loop.

  \<^bold>\<open>Theories and the code they model.\<close> Each theory opens with a note naming the lines it
  translates.
  \<^item> \<open>Prelude\<close>: Python and numpy primitives the code relies on: \<open>int()\<close> of a float
    (\<open>py_int\<close>, truncation), \<open>//\<close> with its \<open>ZeroDivisionError\<close> (\<open>py_floordiv\<close>),
    \<open>range\<close>, slicing with CPython's bound clamping (\<open>py_slice_idx\<close>, \<open>py_slice\<close>), numpy
    indexing with negative indices and \<open>IndexError\<close> (\<open>py_index\<close>) and \<open>list.remove\<close>
    (\<open>py_remove\<close>). Exceptions are values of \<open>py_error\<close>, results of fallible code values
    of \<open>py_error + 'a\<close>; pixels are triples of 8-bit words; device actions are the datatype
    \<open>action\<close> (\<open>Drag\<close>, \<open>Touch\<close>).
  \<^item> \<open>Coordinates\<close>: \<open>Bot.index_to_pixel\<close> (float arithmetic read exactly, its closed
    integer form), the sampling rectangle \<open>sample_rect\<close> that \<open>find_match\<close> slices, and
    \<open>pixel_cell\<close>, the cell of the grid geometry that contains a pixel.
  \<^item> \<open>Stations\<close>: the station fields of \<open>Bot\<close> as the record \<open>stations\<close>,
    \<open>create_station_tiles\<close>, \<open>use_station\<close>, and \<open>station_fallback\<close>, the no-pair branch
    of \<open>Bot.run\<close> (lines 132--144); the specification's station machine as the inductive
    relation \<open>station_spec\<close>, with \<open>abs_stations\<close> mapping the code's state to it.
  \<^item> \<open>Bot\<close>: \<open>class Bot\<close>'s state as the record \<open>bot\<close> extending \<open>stations\<close>, and
    \<open>Bot.__init__\<close> as \<open>bot_init\<close>.
  \<^item> \<open>Similarity\<close>: \<open>Bot.ccoeff_normed\<close> on flattened patches: \<open>np.mean\<close>, \<open>np.std\<close>,
    standardisation (NaN, written \<open>None\<close>, on zero variance), \<open>np.correlate\<close> in its
    'valid' mode and the normalisation, and \<open>coef_exceeds\<close>, the truth test
    \<open>if coef > self.threshold\<close> on the resulting array.
  \<^item> \<open>Classifier\<close>: the screenshot as the record \<open>frame\<close> (height, width, pixel function),
    \<open>Bot.is_empty\<close>, and the patch slices \<open>img[y-off:y+off, x-off:x+off]\<close> (\<open>tile_patch\<close>).
  \<^item> \<open>Matching\<close>: \<open>Bot.find_match\<close> (\<open>find_match\<close>, \<open>find_match_loop\<close>) and the worklist
    loop of \<open>Bot.run\<close> (lines 115--131) as the function \<open>scan\<close>, which returns the pairs
    dragged, in order, and the exception that ended the pass.
  \<^item> \<open>Pass\<close>: the same loop as the code writes it, \<open>while tiles:\<close> over a state of
    worklist, \<open>matched\<close> flag, drags and exception (\<open>pass_step\<close>, and \<open>pass_loop\<close> as
    \<open>while_option\<close>), proved terminating and equal to \<open>scan\<close>.
  \<^item> \<open>Run\<close>: one cycle \<open>Bot.run\<close> (\<open>run\<close>: pass, drags, then the fallback), the loop of
    \<open>start_bot\<close> (\<open>bot_loop\<close>) driven by a list of environment events (a captured frame or
    the Stop button, \<open>stop_bot\<close>), \<open>start_bot\<close> itself, and the states reachable from a
    construction (\<open>reachable\<close>).
  \<^item> \<open>Form\<close>: CPython's \<open>int()\<close> on the text of an entry (\<open>py_int_of_str\<close>) and
    \<open>str()\<close> of an integer (\<open>py_str\<close>).
  \<^item> \<open>Gui\<close>: the tkinter form (five entries and their enabled state, lines 181--248),
    the Start button starting a \<open>start_bot\<close> thread, the Stop button, the global \<open>bot\<close>
    the threads share, and the interleaving of these events with the workers' steps
    (\<open>gui_step\<close>, \<open>gui_run\<close>); \<open>start_bot\<close>'s exception handler and \<open>finally\<close> are
    the worker's \<open>finish\<close>.
  \<^item> \<open>Logging\<close>: \<open>setup_logging\<close>, the choice of the log level from an answer on
    standard input; the program never calls it.
  The components interact only through the bot record: a pass reads the grid fields and
  the frame and never the station fields (\<open>scan_station_update\<close>); the fallback changes
  only \<open>uses\<close> and \<open>station_tiles\<close> (\<open>station_fallback_shape\<close>, \<open>run_shape\<close>). The
  GUI drives the bots through \<open>run\<close>; with a single Start its worker refines the
  sequential \<open>start_bot\<close> of \<open>Run\<close> (\<open>single_worker_refines_start_bot\<close>).

  \<^bold>\<open>What is proved.\<close>
  \<^item> Matching: a pass never drags an empty slot, pairs each slot at most once and only
    slots of the worklist, and finds matches first-in-worklist-order; it terminates (the
    worklist shrinks each iteration) and raises nothing when the frame contains every
    sampling rectangle; the \<open>while\<close> loop as written terminates and computes the same
    drags, exception and \<open>matched\<close> flag. It is also complete for what it leaves:
    when it raises nothing, no two unpaired non-empty slots match in worklist order
    (\<open>scan_complete\<close>), so a pass with no pair, the trigger of a station tap, certifies
    that the board holds no matchable pair.
  \<^item> Similarity: the score is symmetric, equals 1 on a non-uniform patch against itself,
    lies in \<open>[-1, 1]\<close>; a uniform patch gives NaN and never a match; patches of different
    sizes make the threshold test raise.
  \<^item> Classifier and coordinates: \<open>is_empty\<close> is an exact colour test inside the frame and
    raises \<open>IndexError\<close> exactly outside it; a patch inside the frame has
    \<open>2 off * 2 off * 3\<close> channel values in \<open>0..255\<close>; the pixel centre of a slot lies in
    its own cell (a round trip, hence injectivity) and the sampling rectangles of distinct
    slots are disjoint.
  \<^item> Stations: the fallback refines the specification's machine; a fresh station is
    tapped \<open>station_cap // station_uses\<close> times; with a zero ratio the front station is never
    popped (a divergence from the specification); the created queue has
    \<open>min num (32 - start)\<close> stations.
  \<^item> Construction and the loop: the constructor fails exactly on \<open>station_uses = 0\<close>; from a
    construction with a positive ratio every reachable state keeps the counters consistent
    and the configuration fixed; a Stop takes effect between cycles; without stations the
    bot halts on a static board, and in general halts on a static board after exactly
    \<open>station_budget\<close> taps.
  \<^item> Form and threads: entries holding the texts of five numbers reach \<open>Bot(...)\<close> in
    the constructor's argument order (\<open>form_start_builds_bot\<close>, via the round trip
    of \<open>int()\<close> on \<open>str()\<close>); in every reachable GUI state the entries are disabled
    only while a worker loops; with one Start they are disabled exactly then, but in any
    state where a worker loops, a second Start whose worker fails re-enables them while
    the first bot runs; Stop ends a looping worker at its next step, but a Stop pressed
    while the worker connects is lost; a rejected entry ends the worker with
    \<open>ValueError\<close> and no action; a second Start that assigns its new bot ends the
    first worker, whose bot is left marked running.
  \<^item> Cycles: a cycle issues either exactly its pass's drags or at most one tap on the
    front station, never both; a tap happens only when the pass raised nothing and no two
    non-empty slots match (\<open>touch_only_when_static\<close>, built on \<open>scan_complete\<close>'s
    induction); a grid reaching past the screenshot makes the first cycle raise and the bot
    crash after that pass's drags.
  \<^item> Scenarios (this theory): one cycle on a board with a single pair of identical,
    non-uniform tiles drags exactly that pair; one cycle on an empty board with a
    one-tap station uses and pops it.

  \<^bold>\<open>Loops, bounds and fuel.\<close> No fuel is used. The worklist loop is a terminating
  \<open>function\<close> (measure: the worklist's length), and the same loop as
  \<open>while_option\<close> is proved to return by \<open>measure_while_option_Some\<close> with the same
  measure. The candidate loop is structural.
  \<open>while bot.running\<close> runs as long as the device keeps producing frames; it is modelled
  over a finite schedule of events, and its termination on a static board is the liveness
  theorem \<open>static_board_halts\<close>, with the explicit bound \<open>station_budget\<close>.

  \<^bold>\<open>Not modelled.\<close> The widget layout, labels and help dialogs of the form
  (\<open>show_info\<close>; no effect on the bot), the log records themselves (no effect on
  decisions; \<open>setup_logging\<close> is modelled but never called), the adb subprocess and the ViewClient connection (the device is
  seen through frames and actions, and a failed connection is the event
  \<open>Connect_Fails\<close>), \<open>time.sleep\<close> pacing, and interleavings finer than one cycle
  (a cycle is one atomic step; the code reads the Stop flag only between cycles).
  \<open>int()\<close> is modelled on 8-bit characters: the non-ASCII digits and spaces CPython
  also accepts are not.
  Floating-point rounding is not modelled: floats are reals, NaN is \<open>None\<close>; the
  constants of \<open>index_to_pixel\<close> are evaluated exactly, which gives the same integers.
\<close>

subsection \<open>Whole-cycle scenarios\<close>

text \<open>C21: one cycle on a board on which every slot is empty except two, whose sampling
  patches are identical and not uniform, drags the later of the two onto the earlier and
  does nothing else (the threshold being below 1).\<close>

theorem one_pair_cycle:
  assumes tiles: "item_tiles self = xs @ t # ys @ m # zs"
    and empties: "\<forall>u \<in> set (xs @ ys @ zs). is_empty self u img = Inr True"
    and full: "is_empty self t img = Inr False" "is_empty self m img = Inr False"
    and same: "tile_patch self m img = tile_patch self t img"
    and nondeg: "tile_patch self t img \<noteq> []" "np_std (tile_patch self t img) \<noteq> 0"
    and thr: "threshold self < 1"
  shows "run self img = (self, [drag m t], Inr True)"
proof -
  have "m \<notin> set ys" using empties full(2) by auto
  then have rm: "py_remove m (ys @ m # zs) = Inr (ys @ zs)"
    by (simp add: py_remove_mem remove1_append)
  have "probe self img (tile_patch self t img) m = Inr True"
    using full(2) same nondeg thr by (rule probe_self_patch)
  then have "find_match self t (ys @ m # zs) img = Inr (Some m)"
    using empties by (simp add: find_match_def find_match_loop_skip_empty find_match_loop_Cons)
  moreover have "scan self img (ys @ zs) = ([], None)"
    using empties by (simp add: scan_all_empty)
  ultimately have "scan self img (item_tiles self) = ([(m, t)], None)"
    using tiles empties full(1) rm by (simp add: scan_skip_empty)
  then show ?thesis by (simp add: run_progressed)
qed

text \<open>Witness: four slots of one row, offset 1, a frame whose only non-empty pixels form
  two identical stripes under slots \<open>(0, 1)\<close> and \<open>(0, 2)\<close>.\<close>

theorem one_pair_cycle_witness:
  "run \<lparr>station_cap = 5, station_uses = 1, station_tiles = [], uses = 5, rows = 1, cols = 9,
      offset = 1, empty_colors = [(223, 190, 164), (234, 208, 178)], threshold = 0.9,
      item_tiles = [(0, 0), (0, 1), (0, 2), (0, 3)], running = True\<rparr>
     \<lparr>fr_h = 300, fr_w = 900, fr_px = (\<lambda>r c. if c \<in> {615, 616, 731, 732} then (if even c then (0, 0, 0) else (2, 2, 2)) else (223, 190, 164))\<rparr> =
   (\<lparr>station_cap = 5, station_uses = 1, station_tiles = [], uses = 5, rows = 1, cols = 9,
      offset = 1, empty_colors = [(223, 190, 164), (234, 208, 178)], threshold = 0.9,
      item_tiles = [(0, 0), (0, 1), (0, 2), (0, 3)], running = True\<rparr>, [drag (0, 2) (0, 1)], Inr True)"
proof -
  let ?b = "\<lparr>station_cap = 5, station_uses = 1, station_tiles = [], uses = 5, rows = 1, cols = 9,
      offset = 1, empty_colors = [(223::8 word, 190::8 word, 164::8 word), (234, 208, 178)], threshold = 0.9,
      item_tiles = [(0::int, 0::int), (0, 1), (0, 2), (0, 3)], running = True\<rparr>"
  let ?img = "\<lparr>fr_h = 300, fr_w = 900, fr_px = (\<lambda>r c. if c \<in> {615, 616, 731, 732} then (if even c then (0::8 word, 0::8 word, 0::8 word) else (2, 2, 2)) else (223, 190, 164))\<rparr>"
  have p: "tile_patch ?b (0, 1) ?img = [2, 2, 2, 0, 0, 0, 2, 2, 2, 0, 0, 0]"
    "tile_patch ?b (0, 2) ?img = [2, 2, 2, 0, 0, 0, 2, 2, 2, 0, 0, 0]"
    by (simp_all add: scan_eval)
  have e: "is_empty ?b (0, 0) ?img = Inr True" "is_empty ?b (0, 3) ?img = Inr True"
    "is_empty ?b (0, 1) ?img = Inr False" "is_empty ?b (0, 2) ?img = Inr False"
    by (simp_all add: scan_eval)
  have s: "np_std [2, 2, 2, 0, 0, 0, 2, 2, 2, 0, 0, (0::real)] = 1"
    by (simp add: np_std_def np_mean_def)
  show ?thesis
    using one_pair_cycle [of ?b "[(0, 0)]" "(0, 1)" "[]" "(0, 2)" "[(0, 3)]" ?img] p e s by simp
qed
text \<open>On a board whose slots are all empty, a bot constructed with a one-tap ratio
  (\<open>station_cap // station_uses = 1\<close>, e.g. capacity 1 and 1 use) taps the front station
  once and pops it: the queue is one shorter and the counter is 1 again.\<close>

theorem single_tap_station_popped:
  assumes init: "bot_init cap per num start nrows = Inr b" and one: "cap div per = 1"
    and st: "station_tiles b = st # q"
    and empties: "\<forall>u \<in> set (item_tiles b). is_empty b u img = Inr True"
  shows "run b img = (b\<lparr>station_tiles := q\<rparr>, [Touch (index_to_pixel st)], Inr True)"
proof -
  have per: "per \<noteq> 0" using one by auto
  then have u: "uses b = 1" "station_uses b \<noteq> 0" "fresh_uses b = 1"
    using init one by (auto simp: bot_init_Inr fresh_uses_def)
  have "scan b img (item_tiles b) = ([], None)" using empties by (rule scan_all_empty)
  then have "run b img = station_fallback b" by (rule run_static)
  also have "\<dots> = (b\<lparr>uses := 1, station_tiles := q\<rparr>, [Touch (index_to_pixel st)], Inr True)"
    using station_fallback_exhaust [OF st u(1,2)] u(3) by simp
  also have "b\<lparr>uses := 1, station_tiles := q\<rparr> = b\<lparr>station_tiles := q\<rparr>"
    using u(1) by simp
  finally show ?thesis .
qed

theorem single_tap_station_popped_witness:
  "run (projr (bot_init 1 1 2 0 1)) \<lparr>fr_h = 600, fr_w = 1500, fr_px = (\<lambda>_ _. (223, 190, 164))\<rparr> =
   ((projr (bot_init 1 1 2 0 1))\<lparr>station_tiles := [(6, 1)]\<rparr>, [Touch (501, 954)], Inr True)"
proof -
  let ?b = "projr (bot_init 1 1 2 0 1)"
  let ?img = "\<lparr>fr_h = 600, fr_w = 1500, fr_px = (\<lambda>_ _. (223::8 word, 190::8 word, 164::8 word))\<rparr>"
  have init: "bot_init 1 1 2 0 1 = Inr ?b" by (simp add: bot_init_Inr)
  have st: "station_tiles ?b = (6, 0) # [(6, 1)]"
    by (simp add: bot_init_Inr create_station_tiles_def station_tiles_blueprint_eq py_slice_nonneg)
  have e: "\<forall>u \<in> set (item_tiles ?b). is_empty ?b u ?img = Inr True"
    by (simp add: bot_init_Inr grid_tiles_def py_range_rec scan_eval)
  have "index_to_pixel (6, 0) = (501, 954)" by (simp add: index_to_pixel_closed)
  with single_tap_station_popped [OF init _ st e] show ?thesis by simp
qed
text \<open>C22: a cycle taps a station only when the board holds no matchable pair: if the
  actions of one cycle include a tap, the pass found no pair and raised nothing, and of any
  two non-empty slots of the grid the earlier one, as target, does not accept the later
  one. The station fallback is thus taken exactly on the boards the specification calls
  static.\<close>

theorem touch_only_when_static:
  assumes "run self img = (self', acts, r)" and "Touch p \<in> set acts"
    and "item_tiles self = xs @ a # ys" and "b \<in> set ys"
    and "is_empty self a img = Inr False" and "is_empty self b img = Inr False"
  shows "scan self img (item_tiles self) = ([], None) \<and> probe self img (tile_patch self a img) b = Inr False"
proof -
  have sc: "scan self img (item_tiles self) = ([], None)" using assms(1,2) by (rule run_touch)
  then show ?thesis using scan_unpaired_no_match [OF sc assms(3,4)] assms(5,6) by simp
qed

theorem touch_only_when_static_witness:
  "run \<lparr>station_cap = 5, station_uses = 1, station_tiles = [(6, 0)], uses = 5, rows = 1, cols = 9,
      offset = 1, empty_colors = [(223, 190, 164), (234, 208, 178)], threshold = 0.9,
      item_tiles = [(0, 1), (0, 2)], running = True\<rparr>
     \<lparr>fr_h = 300, fr_w = 800, fr_px = (\<lambda>r c. (0, 0, 0))\<rparr> =
   (\<lparr>station_cap = 5, station_uses = 1, station_tiles = [(6, 0)], uses = 4, rows = 1, cols = 9,
      offset = 1, empty_colors = [(223, 190, 164), (234, 208, 178)], threshold = 0.9,
      item_tiles = [(0, 1), (0, 2)], running = True\<rparr>, [Touch (501, 954)], Inr True) \<and>
   probe \<lparr>station_cap = 5, station_uses = 1, station_tiles = [(6, 0)], uses = 5, rows = 1, cols = 9,
      offset = 1, empty_colors = [(223, 190, 164), (234, 208, 178)], threshold = 0.9,
      item_tiles = [(0, 1), (0, 2)], running = True\<rparr>
     \<lparr>fr_h = 300, fr_w = 800, fr_px = (\<lambda>r c. (0, 0, 0))\<rparr>
     (tile_patch \<lparr>station_cap = 5, station_uses = 1, station_tiles = [(6, 0)], uses = 5, rows = 1, cols = 9,
      offset = 1, empty_colors = [(223, 190, 164), (234, 208, 178)], threshold = 0.9,
      item_tiles = [(0, 1), (0, 2)], running = True\<rparr> (0, 1)
      \<lparr>fr_h = 300, fr_w = 800, fr_px = (\<lambda>r c. (0, 0, 0))\<rparr>) (0, 2) = Inr False"
proof -
  let ?b = "\<lparr>station_cap = 5, station_uses = 1, station_tiles = [(6::int, 0::int)], uses = 5, rows = 1, cols = 9,
      offset = 1, empty_colors = [(223::8 word, 190::8 word, 164::8 word), (234, 208, 178)], threshold = 0.9,
      item_tiles = [(0::int, 1::int), (0, 2)], running = True\<rparr>"
  let ?img = "\<lparr>fr_h = 300, fr_w = 800, fr_px = (\<lambda>r c. (0::8 word, 0::8 word, 0::8 word))\<rparr>"
  have sc: "scan ?b ?img [(0, 1), (0, 2)] = ([], None)" by (simp add: scan_eval valid_len_def)
  have e: "is_empty ?b (0, 1) ?img = Inr False" "is_empty ?b (0, 2) ?img = Inr False"
    by (simp_all add: scan_eval)
  have r: "run ?b ?img = (?b\<lparr>uses := 4\<rparr>, [Touch (501, 954)], Inr True)"
    using sc by (simp add: run_static station_fallback_def use_station_def index_to_pixel_closed)
  have "Touch (501, 954) \<in> set [Touch (501, 954)]" by simp
  from touch_only_when_static [OF r this, of "[]" "(0, 1)" "[(0, 2)]" "(0, 2)"] e r show ?thesis by simp
qed

end
